theory Spec2Isabelle
  imports Main
begin

section \<open>Python strings\<close>

text \<open>
  Strings are lists of characters, and a character is one of the first 256 code points.
  Among these, the white space of \<^verbatim>\<open>str.strip\<close> and of the pattern class \<^verbatim>\<open>\s\<close> is
  the ten ASCII white-space characters, U+0085 and U+00A0. \<^verbatim>\<open>upper\<close> and \<^verbatim>\<open>lower\<close>
  change the 26 ASCII letters only.
\<close>

definition is_space :: "char \<Rightarrow> bool" where
  "is_space c =
     (let n = (of_char c :: nat) in (9 \<le> n \<and> n \<le> 13) \<or> (28 \<le> n \<and> n \<le> 32) \<or> n = 133 \<or> n = 160)"

definition upper_char :: "char \<Rightarrow> char" where
  "upper_char c = (let n = (of_char c :: nat) in if 97 \<le> n \<and> n \<le> 122 then char_of (n - 32) else c)"

definition lower_char :: "char \<Rightarrow> char" where
  "lower_char c = (let n = (of_char c :: nat) in if 65 \<le> n \<and> n \<le> 90 then char_of (n + 32) else c)"

definition upper :: "string \<Rightarrow> string" where
  "upper s = map upper_char s"

definition lower :: "string \<Rightarrow> string" where
  "lower s = map lower_char s"

definition lstrip :: "string \<Rightarrow> string" where
  "lstrip s = dropWhile is_space s"

definition rstrip :: "string \<Rightarrow> string" where
  "rstrip s = rev (dropWhile is_space (rev s))"

definition strip :: "string \<Rightarrow> string" where
  "strip s = rstrip (lstrip s)"

text \<open>\<^verbatim>\<open>s.startswith(p)\<close>\<close>

fun startswith :: "string \<Rightarrow> string \<Rightarrow> bool" where
  "startswith s [] = True"
| "startswith [] (p # ps) = False"
| "startswith (c # cs) (p # ps) = (c = p \<and> startswith cs ps)"

text \<open>\<^verbatim>\<open>p in s\<close> for strings: \<open>p\<close> occurs in \<open>s\<close> as a contiguous run.\<close>

fun py_in :: "string \<Rightarrow> string \<Rightarrow> bool" where
  "py_in p [] = (p = [])"
| "py_in p (c # cs) = (startswith (c # cs) p \<or> py_in p cs)"

text \<open>The text an f-string prints for a value that may be \<^verbatim>\<open>None\<close>.\<close>

definition py_str :: "string option \<Rightarrow> string" where
  "py_str v = (case v of None \<Rightarrow> ''None'' | Some s \<Rightarrow> s)"

text \<open>
  A dictionary entry that the code reads with \<^verbatim>\<open>d.get(key, default)\<close>: the key may be
  absent, present with the value \<^verbatim>\<open>None\<close>, or present with a value.
\<close>

datatype 'a pyfield = Missing | PyNone | Has 'a

definition dict_get :: "'a pyfield \<Rightarrow> 'a option \<Rightarrow> 'a option" where
  "dict_get f d = (case f of Missing \<Rightarrow> d | PyNone \<Rightarrow> None | Has v \<Rightarrow> Some v)"

section \<open>Schema records\<close>

text \<open>
  The schema is a dictionary of lists of dictionaries. Each dictionary is a record of the
  keys the transformer and the relationship builder read or write; a key read with
  \<^verbatim>\<open>get\<close> is optional. The records are values: two tables, columns or constraints of a
  schema are taken to be distinct objects (the store model further down drops this for
  tables and columns).
\<close>

record constraint =
  constraint_type :: "string option"
  constraint_name :: "string pyfield"
  c_table_name :: "string pyfield"
  source_table :: "string option"
  c_columns :: "string list option"
  c_definition :: "string option"
  check_expression :: "string option"

record column =
  column_name :: string
  data_type :: string
  original_type :: "string option"
  is_primary_key :: "bool option"
  is_nullable :: "bool option"
  is_unique :: "bool option"

record table =
  table_name :: string
  t_columns :: "column list option"
  t_constraints :: "constraint list option"

record drop_record =
  d_constraint_name :: "string option"
  d_table_name :: "string option"
  d_constraint_type :: string
  d_reason :: string
  d_metadata :: "(string \<times> string) list"
  d_action :: string

record modification_record =
  m_constraint_name :: "string option"
  m_table_name :: "string option"
  m_modification_type :: string
  m_description :: string
  m_action :: string

record warning =
  w_type :: string
  w_message :: string

record enum =
  enum_name :: string

record transformation =
  tr_table :: string
  tr_column :: string
  tr_original_type :: string
  tr_transformed_type :: string
  transformation_reason :: string

record schema =
  s_tables :: "table list option"
  s_constraints :: "constraint list option"
  s_enums :: "enum list option"
  s_dropped_constraints :: "drop_record list option"
  s_modified_constraints :: "modification_record list option"
  s_constraint_warnings :: "warning list option"
  s_type_transformations :: "transformation list option"
  s_type_warnings :: "string list option"

section \<open>ConstraintHandler\<close>

record handler =
  dropped_constraints :: "drop_record list"
  modified_constraints :: "modification_record list"
  warnings_generated :: "warning list"

definition init_handler :: handler where
  "init_handler = \<lparr>dropped_constraints = [], modified_constraints = [], warnings_generated = []\<rparr>"

definition generate_warning :: "string \<Rightarrow> handler \<Rightarrow> handler" where
  "generate_warning message h =
     h\<lparr>warnings_generated := warnings_generated h @ [\<lparr>w_type = ''CONSTRAINT_WARNING'', w_message = message\<rparr>]\<rparr>"

definition log_constraint_drop ::
  "string option \<Rightarrow> string option \<Rightarrow> string \<Rightarrow> string \<Rightarrow> (string \<times> string) list \<Rightarrow> handler \<Rightarrow> handler" where
  "log_constraint_drop cname tname ctype reason metadata h =
     generate_warning
       (''Dropped '' @ ctype @ '' constraint '' @ [CHR 0x27] @ py_str cname @ [CHR 0x27] @
        '' on table '' @ [CHR 0x27] @ py_str tname @ [CHR 0x27] @ '': '' @ reason)
       (h\<lparr>dropped_constraints := dropped_constraints h @
            [\<lparr>d_constraint_name = cname, d_table_name = tname, d_constraint_type = ctype,
              d_reason = reason, d_metadata = metadata, d_action = ''DROPPED''\<rparr>]\<rparr>)"

definition log_constraint_modification ::
  "string option \<Rightarrow> string option \<Rightarrow> string \<Rightarrow> string \<Rightarrow> handler \<Rightarrow> handler" where
  "log_constraint_modification cname tname mtype description h =
     generate_warning
       (''Modified constraint '' @ [CHR 0x27] @ py_str cname @ [CHR 0x27] @
        '' on table '' @ [CHR 0x27] @ py_str tname @ [CHR 0x27] @ '': '' @ description)
       (h\<lparr>modified_constraints := modified_constraints h @
            [\<lparr>m_constraint_name = cname, m_table_name = tname, m_modification_type = mtype,
              m_description = description, m_action = ''MODIFIED''\<rparr>]\<rparr>)"

subsection \<open>Removing the DEFERRABLE clause\<close>

text \<open>
  \<^verbatim>\<open>re.sub(r'\s+DEFERRABLE(\s+INITIALLY\s+(DEFERRED|IMMEDIATE))?\s*', ' ', definition,
  flags=re.IGNORECASE)\<close>, then \<^verbatim>\<open>strip()\<close>. No alternative of the pattern starts with
  white space, so each greedy run of white space is taken whole and the match at a
  position is unique.
\<close>

definition startswith_ci :: "string \<Rightarrow> string \<Rightarrow> bool" where
  "startswith_ci s p = startswith (upper s) (upper p)"

definition initially_clause :: "string \<Rightarrow> string option" where
  "initially_clause s =
     (let r1 = dropWhile is_space s in
      if r1 = s \<or> \<not> startswith_ci r1 ''INITIALLY'' then None
      else let r2 = drop 9 r1; r3 = dropWhile is_space r2 in
        if r3 = r2 then None
        else if startswith_ci r3 ''DEFERRED'' then Some (drop 8 r3)
        else if startswith_ci r3 ''IMMEDIATE'' then Some (drop 9 r3)
        else None)"

definition deferrable_match :: "string \<Rightarrow> string option" where
  "deferrable_match s =
     (let r1 = dropWhile is_space s in
      if r1 = s \<or> \<not> startswith_ci r1 ''DEFERRABLE'' then None
      else let r2 = drop 10 r1 in
        Some (dropWhile is_space (case initially_clause r2 of Some r3 \<Rightarrow> r3 | None \<Rightarrow> r2)))"

function sub_deferrable :: "string \<Rightarrow> string" where
  "sub_deferrable [] = []"
| "sub_deferrable (c # cs) =
     (case deferrable_match (c # cs) of
        Some rest \<Rightarrow> (if length rest < length (c # cs) then CHR '' '' # sub_deferrable rest
                      else c # sub_deferrable cs)
      | None \<Rightarrow> c # sub_deferrable cs)"
  by pat_completeness auto
termination
  by (relation "measure length") auto

definition remove_deferrable_from_definition :: "string \<Rightarrow> string" where
  "remove_deferrable_from_definition d = strip (sub_deferrable d)"

subsection \<open>One constraint\<close>

definition process_foreign_key_constraint ::
  "constraint \<Rightarrow> string option \<Rightarrow> handler \<Rightarrow> constraint \<times> handler" where
  "process_foreign_key_constraint c tname h =
     (let definition = (case c_definition c of None \<Rightarrow> [] | Some d \<Rightarrow> d);
          cname = dict_get (constraint_name c) (Some ''unnamed'');
          (c1, h1) =
            (if py_in ''DEFERRABLE'' (upper definition)
             then (c\<lparr>c_definition := Some (remove_deferrable_from_definition definition)\<rparr>,
                   log_constraint_modification cname tname ''FOREIGN_KEY_DEFERRABLE''
                     ''Removed DEFERRABLE option - not supported in DBML'' h)
             else (c, h));
          source_columns = (case c_columns c1 of None \<Rightarrow> [] | Some cs \<Rightarrow> cs);
          h2 = (if length source_columns > 1
                then generate_warning
                       (''Composite foreign key '' @ [CHR 0x27] @ py_str cname @ [CHR 0x27] @
                        '' on table '' @ [CHR 0x27] @ py_str tname @ [CHR 0x27] @ '' - '' @
                        ''verify import compatibility (known parser issues exist)'') h1
                else h1)
      in (c1, h2))"

definition drop_check_constraint :: "constraint \<Rightarrow> string option \<Rightarrow> handler \<Rightarrow> handler" where
  "drop_check_constraint c tname h =
     (let cname = dict_get (constraint_name c) (Some ''unnamed'');
          check_expr = (case check_expression c of Some e \<Rightarrow> e
                        | None \<Rightarrow> (case c_definition c of None \<Rightarrow> [] | Some d \<Rightarrow> d))
      in log_constraint_drop cname tname ''CHECK''
           ''CHECK constraints not supported in DBML (parser errors)''
           [(''check_expression'', check_expr),
            (''impact'', ''Business logic validation lost''),
            (''workaround'', ''Implement validation in application layer''),
            (''reference'', ''Incompatibility Analysis Line 38'')] h)"

definition drop_unknown_constraint :: "constraint \<Rightarrow> string option \<Rightarrow> handler \<Rightarrow> handler" where
  "drop_unknown_constraint c tname h =
     (let cname = dict_get (constraint_name c) (Some ''unnamed'');
          definition = (case c_definition c of None \<Rightarrow> [] | Some d \<Rightarrow> d);
          (ctype, reason, impact) =
            (if startswith (upper definition) ''EXCLUDE''
             then (''EXCLUDE'', ''EXCLUDE constraints not supported in DBML'',
                   ''Spatial/range exclusion logic completely lost'')
             else (''UNKNOWN'', ''Unknown constraint type not supported in DBML'',
                   ''Constraint logic lost''))
      in log_constraint_drop cname tname ctype reason
           [(''definition'', definition), (''impact'', impact),
            (''workaround'', ''Implement logic in application layer'')] h)"

text \<open>The result is \<open>None\<close> when the constraint is dropped.\<close>

definition process_single_constraint ::
  "constraint \<Rightarrow> string option \<Rightarrow> handler \<Rightarrow> constraint option \<times> handler" where
  "process_single_constraint c tname h =
     (if constraint_type c = Some ''p'' then (Some c, h)
      else if constraint_type c = Some ''u'' then (Some c, h)
      else if constraint_type c = Some ''f''
        then (let (c', h') = process_foreign_key_constraint c tname h in (Some c', h'))
      else if constraint_type c = Some ''c'' then (None, drop_check_constraint c tname h)
      else (None, drop_unknown_constraint c tname h))"

fun process_table_constraints ::
  "constraint list \<Rightarrow> string option \<Rightarrow> handler \<Rightarrow> constraint list \<times> handler" where
  "process_table_constraints [] tname h = ([], h)"
| "process_table_constraints (c # cs) tname h =
     (let (r, h1) = process_single_constraint c tname h;
          (rs, h2) = process_table_constraints cs tname h1
      in (case r of None \<Rightarrow> (rs, h2) | Some c' \<Rightarrow> (c' # rs, h2)))"

fun process_standalone_constraints ::
  "constraint list \<Rightarrow> handler \<Rightarrow> constraint list \<times> handler" where
  "process_standalone_constraints [] h = ([], h)"
| "process_standalone_constraints (c # cs) h =
     (let (r, h1) = process_single_constraint c (dict_get (c_table_name c) (Some ''unknown'')) h;
          (rs, h2) = process_standalone_constraints cs h1
      in (case r of None \<Rightarrow> (rs, h2) | Some c' \<Rightarrow> (c' # rs, h2)))"

subsection \<open>The whole schema\<close>

text \<open>\<^verbatim>\<open>schema.get('tables', [])\<close>, \<^verbatim>\<open>table.get('constraints', [])\<close> and the like.\<close>

definition tables_of :: "schema \<Rightarrow> table list" where
  "tables_of s = (case s_tables s of None \<Rightarrow> [] | Some ts \<Rightarrow> ts)"

definition standalone_of :: "schema \<Rightarrow> constraint list" where
  "standalone_of s = (case s_constraints s of None \<Rightarrow> [] | Some cs \<Rightarrow> cs)"

definition constraints_of :: "table \<Rightarrow> constraint list" where
  "constraints_of t = (case t_constraints t of None \<Rightarrow> [] | Some cs \<Rightarrow> cs)"

definition columns_of :: "table \<Rightarrow> column list" where
  "columns_of t = (case t_columns t of None \<Rightarrow> [] | Some cs \<Rightarrow> cs)"

text \<open>The loop \<^verbatim>\<open>for table in tables: table['constraints'] = ...\<close>.\<close>

fun process_tables :: "table list \<Rightarrow> handler \<Rightarrow> table list \<times> handler" where
  "process_tables [] h = ([], h)"
| "process_tables (t # ts) h =
     (let (cs, h1) = process_table_constraints (constraints_of t) (Some (table_name t)) h;
          (ts', h2) = process_tables ts h1
      in (t\<lparr>t_constraints := Some cs\<rparr> # ts', h2))"

definition mark_pk_column :: "string list \<Rightarrow> column \<Rightarrow> column" where
  "mark_pk_column column_names col =
     (if column_name col \<in> set column_names
      then (let col1 = col\<lparr>is_primary_key := Some True, is_nullable := Some False\<rparr>
            in if length column_names = 1 then col1\<lparr>is_unique := Some True\<rparr> else col1)
      else col)"

definition mark_unique_column :: "string list \<Rightarrow> column \<Rightarrow> column" where
  "mark_unique_column column_names col =
     (if column_name col \<in> set column_names \<and> length column_names = 1
      then col\<lparr>is_unique := Some True\<rparr> else col)"

text \<open>
  Both marking functions walk over every table of the schema whose name is the given
  one; the name may be \<^verbatim>\<open>None\<close>, which equals no table name.
\<close>

definition mark_columns_as_primary_key ::
  "table list \<Rightarrow> string option \<Rightarrow> string list \<Rightarrow> table list" where
  "mark_columns_as_primary_key ts tname column_names =
     map (\<lambda>t. if Some (table_name t) = tname
               then t\<lparr>t_columns := map_option (map (mark_pk_column column_names)) (t_columns t)\<rparr>
               else t) ts"

definition mark_columns_as_unique ::
  "table list \<Rightarrow> string option \<Rightarrow> string list \<Rightarrow> table list" where
  "mark_columns_as_unique ts tname column_names =
     map (\<lambda>t. if Some (table_name t) = tname
               then t\<lparr>t_columns := map_option (map (mark_unique_column column_names)) (t_columns t)\<rparr>
               else t) ts"

text \<open>\<^verbatim>\<open>constraint.get('table_name') or constraint.get('source_table')\<close>: an absent,
  \<^verbatim>\<open>None\<close> or empty name falls through to the second operand.\<close>

definition constraint_table :: "constraint \<Rightarrow> string option" where
  "constraint_table c =
     (case c_table_name c of Has n \<Rightarrow> (if n \<noteq> [] then Some n else source_table c)
      | _ \<Rightarrow> source_table c)"

definition apply_constraint :: "table list \<Rightarrow> constraint \<Rightarrow> table list" where
  "apply_constraint ts c =
     (let columns = (case c_columns c of None \<Rightarrow> [] | Some cs \<Rightarrow> cs) in
      if constraint_type c = Some ''p'' \<and> columns \<noteq> []
        then mark_columns_as_primary_key ts (constraint_table c) columns
      else if constraint_type c = Some ''u'' \<and> columns \<noteq> []
        then mark_columns_as_unique ts (constraint_table c) columns
      else ts)"

text \<open>The first loop writes \<^verbatim>\<open>source_table\<close> into every table-level constraint.\<close>

definition tag_source_table :: "table \<Rightarrow> table" where
  "tag_source_table t =
     t\<lparr>t_constraints :=
         map_option (map (\<lambda>c. c\<lparr>source_table := Some (table_name t)\<rparr>)) (t_constraints t)\<rparr>"

definition apply_constraints_to_columns :: "schema \<Rightarrow> schema" where
  "apply_constraints_to_columns s =
     (let tagged = map tag_source_table (tables_of s);
          all_constraints = concat (map constraints_of tagged) @ standalone_of s;
          marked = foldl apply_constraint tagged all_constraints
      in s\<lparr>s_tables := map_option (\<lambda>_. marked) (s_tables s)\<rparr>)"

definition process_constraints :: "schema \<Rightarrow> handler \<Rightarrow> schema \<times> handler" where
  "process_constraints s h =
     (let (ts, h1) = process_tables (tables_of s) h;
          s1 = s\<lparr>s_tables := map_option (\<lambda>_. ts) (s_tables s)\<rparr>;
          (s2, h2) = (case s_constraints s1 of
                        None \<Rightarrow> (s1, h1)
                      | Some cs \<Rightarrow> (let (cs', h') = process_standalone_constraints cs h1
                                   in (s1\<lparr>s_constraints := Some cs'\<rparr>, h')));
          s3 = apply_constraints_to_columns s2
      in (s3\<lparr>s_dropped_constraints := Some (dropped_constraints h2),
             s_modified_constraints := Some (modified_constraints h2),
             s_constraint_warnings := Some (warnings_generated h2)\<rparr>, h2))"

text \<open>
  The constraints of the input with the table name each is processed under, in the
  order the handler visits them: table by table, then the standalone list.
\<close>

definition input_constraints :: "schema \<Rightarrow> (constraint \<times> string option) list" where
  "input_constraints s =
     concat (map (\<lambda>t. map (\<lambda>c. (c, Some (table_name t))) (constraints_of t)) (tables_of s)) @
     map (\<lambda>c. (c, dict_get (c_table_name c) (Some ''unknown''))) (standalone_of s)"

definition is_check :: "constraint \<times> string option \<Rightarrow> bool" where
  "is_check p = (constraint_type (fst p) = Some ''c'')"

definition check_drops :: "drop_record list \<Rightarrow> drop_record list" where
  "check_drops ds = filter (\<lambda>d. d_constraint_type d = ''CHECK'') ds"

text \<open>The drop record that \<^verbatim>\<open>_drop_check_constraint\<close> logs for one constraint.\<close>

definition check_drop_record :: "constraint \<times> string option \<Rightarrow> drop_record" where
  "check_drop_record p = last (dropped_constraints (drop_check_constraint (fst p) (snd p) init_handler))"

definition supported_type :: "constraint \<Rightarrow> bool" where
  "supported_type c = (constraint_type c \<in> {Some ''p'', Some ''u'', Some ''f''})"

text \<open>\<^verbatim>\<open>constraint.get('columns', [])\<close>\<close>

definition names_of :: "constraint \<Rightarrow> string list" where
  "names_of c = (case c_columns c of None \<Rightarrow> [] | Some cs \<Rightarrow> cs)"

text \<open>Every constraint of a schema: the table-level lists, then the standalone list.\<close>

definition all_constraints :: "schema \<Rightarrow> constraint list" where
  "all_constraints s = concat (map constraints_of (tables_of s)) @ standalone_of s"

text \<open>A schema with one table-level CHECK constraint, as the parser builds it for
  \<^verbatim>\<open>CREATE TABLE x (v int, CHECK (v > 0));\<close>.\<close>

definition check_example :: schema where
  "check_example =
     \<lparr>s_tables = Some [\<lparr>table_name = ''x'',
          t_columns = Some [\<lparr>column_name = ''v'', data_type = ''int4'', original_type = Some ''int'',
                             is_primary_key = None, is_nullable = Some True, is_unique = None\<rparr>],
          t_constraints = Some [\<lparr>constraint_type = Some ''c'', constraint_name = PyNone,
                                 c_table_name = Has ''x'', source_table = None, c_columns = None,
                                 c_definition = Some ''CHECK (v > 0)'',
                                 check_expression = Some ''CHECK (v > 0)''\<rparr>]\<rparr>],
       s_constraints = Some [], s_enums = Some [],
       s_dropped_constraints = None, s_modified_constraints = None, s_constraint_warnings = None,
       s_type_transformations = None, s_type_warnings = None\<rparr>"

text \<open>A table with a primary key that has no \<^verbatim>\<open>table_name\<close> key, a CHECK constraint, and
  a standalone unique constraint.\<close>

definition pk_example :: schema where
  "pk_example =
     \<lparr>s_tables = Some [\<lparr>table_name = ''users'',
          t_columns = Some [\<lparr>column_name = ''id'', data_type = ''int4'', original_type = None,
                             is_primary_key = None, is_nullable = Some True, is_unique = None\<rparr>,
                            \<lparr>column_name = ''email'', data_type = ''text'', original_type = None,
                             is_primary_key = None, is_nullable = Some True, is_unique = None\<rparr>],
          t_constraints = Some [\<lparr>constraint_type = Some ''p'', constraint_name = Has ''users_pk'',
                                 c_table_name = Missing, source_table = None,
                                 c_columns = Some [''id''],
                                 c_definition = Some ''PRIMARY KEY (id)'', check_expression = None\<rparr>,
                                \<lparr>constraint_type = Some ''c'', constraint_name = PyNone,
                                 c_table_name = Has ''users'', source_table = None, c_columns = None,
                                 c_definition = Some ''CHECK (id > 0)'',
                                 check_expression = Some ''CHECK (id > 0)''\<rparr>]\<rparr>],
       s_constraints = Some [\<lparr>constraint_type = Some ''u'', constraint_name = Has ''users_email_key'',
                                 c_table_name = Has ''users'', source_table = None,
                                 c_columns = Some [''email''],
                                 c_definition = Some ''UNIQUE (email)'', check_expression = None\<rparr>],
       s_enums = Some [],
       s_dropped_constraints = None, s_modified_constraints = None, s_constraint_warnings = None,
       s_type_transformations = None, s_type_warnings = None\<rparr>"

text \<open>
  The table a constraint names: the value of its \<^verbatim>\<open>table_name\<close> key, when the key is
  there with a name that is not empty.
\<close>

definition named_table :: "constraint \<Rightarrow> string option" where
  "named_table c = (case c_table_name c of Has n \<Rightarrow> (if n = [] then None else Some n) | _ \<Rightarrow> None)"

text \<open>
  A constraint of a table of a schema: one in the table's own list that names no table,
  or one anywhere in the schema that names the table.
\<close>

definition constraint_of_table :: "schema \<Rightarrow> constraint \<Rightarrow> table \<Rightarrow> bool" where
  "constraint_of_table s c t \<longleftrightarrow>
     (c \<in> set (constraints_of t) \<and> named_table c = None) \<or>
     (c \<in> set (all_constraints s) \<and> named_table c = Some (table_name t))"

text \<open>A primary key or a unique constraint.\<close>

definition is_key :: "constraint \<Rightarrow> bool" where
  "is_key c \<longleftrightarrow> constraint_type c = Some ''p'' \<or> constraint_type c = Some ''u''"

section \<open>Proofs: the constraint handler\<close>

lemma check_drop_record_eq:
  "check_drop_record (c, tn) = \<lparr>d_constraint_name = dict_get (constraint_name c) (Some ''unnamed''), d_table_name = tn, d_constraint_type = ''CHECK'',
              d_reason = ''CHECK constraints not supported in DBML (parser errors)'', d_metadata = [(''check_expression'', (case check_expression c of Some e \<Rightarrow> e
                        | None \<Rightarrow> (case c_definition c of None \<Rightarrow> [] | Some d \<Rightarrow> d))),
            (''impact'', ''Business logic validation lost''),
            (''workaround'', ''Implement validation in application layer''),
            (''reference'', ''Incompatibility Analysis Line 38'')], d_action = ''DROPPED''\<rparr>"
  by (simp add: check_drop_record_def drop_check_constraint_def log_constraint_drop_def generate_warning_def init_handler_def Let_def)

lemma single_dropped:
  "process_single_constraint c tn h = (r, h') \<Longrightarrow>
   (\<exists>ds. dropped_constraints h' = dropped_constraints h @ ds \<and>
      check_drops ds = (if is_check (c, tn) then [check_drop_record (c, tn)] else []))
   \<and> (\<forall>c'. r = Some c' \<longrightarrow> supported_type c')"
  apply (auto simp: process_single_constraint_def is_check_def check_drops_def supported_type_def
      check_drop_record_eq drop_check_constraint_def drop_unknown_constraint_def process_foreign_key_constraint_def
      log_constraint_drop_def log_constraint_modification_def generate_warning_def Let_def split: if_splits prod.splits)
  done

lemma check_drops_append: "check_drops (xs @ ys) = check_drops xs @ check_drops ys"
  by (simp add: check_drops_def)

lemma table_constraints_dropped:
  "process_table_constraints cs tn h = (rs, h') \<Longrightarrow>
   (\<exists>ds. dropped_constraints h' = dropped_constraints h @ ds \<and>
      check_drops ds = map check_drop_record (filter is_check (map (\<lambda>c. (c, tn)) cs)))
   \<and> (\<forall>c' \<in> set rs. supported_type c')"
proof (induction cs arbitrary: h rs h')
  case Nil
  then show ?case by (simp add: check_drops_def)
next
  case (Cons c cs)
  obtain r h1 where s1: "process_single_constraint c tn h = (r, h1)" by force
  obtain rs1 h2 where s2: "process_table_constraints cs tn h1 = (rs1, h2)" by force
  from Cons.prems s1 s2 have h': "h' = h2" and rs: "rs = (case r of None \<Rightarrow> rs1 | Some c' \<Rightarrow> c' # rs1)"
    by (auto split: option.splits)
  from single_dropped[OF s1] obtain d1 where
    d1: "dropped_constraints h1 = dropped_constraints h @ d1"
        "check_drops d1 = (if is_check (c, tn) then [check_drop_record (c, tn)] else [])"
    and r: "\<forall>c'. r = Some c' \<longrightarrow> supported_type c'" by blast
  from Cons.IH[OF s2] obtain d2 where
    d2: "dropped_constraints h2 = dropped_constraints h1 @ d2"
        "check_drops d2 = map check_drop_record (filter is_check (map (\<lambda>c. (c, tn)) cs))"
    and rs1: "\<forall>c' \<in> set rs1. supported_type c'" by blast
  have "dropped_constraints h' = dropped_constraints h @ (d1 @ d2)"
    using d1 d2 h' by simp
  moreover have "check_drops (d1 @ d2) = map check_drop_record (filter is_check (map (\<lambda>c. (c, tn)) (c # cs)))"
    using d1 d2 by (simp add: check_drops_append)
  moreover have "\<forall>c' \<in> set rs. supported_type c'"
    using r rs1 rs by (auto split: option.splits)
  ultimately show ?case by blast
qed

lemma standalone_constraints_dropped:
  "process_standalone_constraints cs h = (rs, h') \<Longrightarrow>
   (\<exists>ds. dropped_constraints h' = dropped_constraints h @ ds \<and>
      check_drops ds = map check_drop_record (filter is_check
         (map (\<lambda>c. (c, dict_get (c_table_name c) (Some ''unknown''))) cs)))
   \<and> (\<forall>c' \<in> set rs. supported_type c')"
proof (induction cs arbitrary: h rs h')
  case Nil
  then show ?case by (simp add: check_drops_def)
next
  case (Cons c cs)
  let ?tn = "dict_get (c_table_name c) (Some ''unknown'')"
  obtain r h1 where s1: "process_single_constraint c ?tn h = (r, h1)" by force
  obtain rs1 h2 where s2: "process_standalone_constraints cs h1 = (rs1, h2)" by force
  from Cons.prems s1 s2 have h': "h' = h2" and rs: "rs = (case r of None \<Rightarrow> rs1 | Some c' \<Rightarrow> c' # rs1)"
    by (auto split: option.splits)
  from single_dropped[OF s1] obtain d1 where
    d1: "dropped_constraints h1 = dropped_constraints h @ d1"
        "check_drops d1 = (if is_check (c, ?tn) then [check_drop_record (c, ?tn)] else [])"
    and r: "\<forall>c'. r = Some c' \<longrightarrow> supported_type c'" by blast
  from Cons.IH[OF s2] obtain d2 where
    d2: "dropped_constraints h2 = dropped_constraints h1 @ d2"
        "check_drops d2 = map check_drop_record (filter is_check
            (map (\<lambda>c. (c, dict_get (c_table_name c) (Some ''unknown''))) cs))"
    and rs1: "\<forall>c' \<in> set rs1. supported_type c'" by blast
  have "dropped_constraints h' = dropped_constraints h @ (d1 @ d2)"
    using d1 d2 h' by simp
  moreover have "check_drops (d1 @ d2) = map check_drop_record (filter is_check
         (map (\<lambda>c. (c, dict_get (c_table_name c) (Some ''unknown''))) (c # cs)))"
    using d1 d2 by (simp add: check_drops_append)
  moreover have "\<forall>c' \<in> set rs. supported_type c'"
    using r rs1 rs by (auto split: option.splits)
  ultimately show ?case by blast
qed

lemma process_tables_dropped:
  "process_tables ts h = (ts', h') \<Longrightarrow>
   (\<exists>ds. dropped_constraints h' = dropped_constraints h @ ds \<and>
      check_drops ds = map check_drop_record (filter is_check
         (concat (map (\<lambda>t. map (\<lambda>c. (c, Some (table_name t))) (constraints_of t)) ts))))
   \<and> (\<forall>t \<in> set ts'. \<forall>c' \<in> set (constraints_of t). supported_type c')
   \<and> map table_name ts' = map table_name ts \<and> map t_columns ts' = map t_columns ts"
proof (induction ts arbitrary: h ts' h')
  case Nil
  then show ?case by (simp add: check_drops_def)
next
  case (Cons t ts)
  obtain cs h1 where s1: "process_table_constraints (constraints_of t) (Some (table_name t)) h = (cs, h1)" by force
  obtain ts1 h2 where s2: "process_tables ts h1 = (ts1, h2)" by force
  from Cons.prems s1 s2 have h': "h' = h2" and ts': "ts' = t\<lparr>t_constraints := Some cs\<rparr> # ts1"
    by auto
  from table_constraints_dropped[OF s1] obtain d1 where
    d1: "dropped_constraints h1 = dropped_constraints h @ d1"
        "check_drops d1 = map check_drop_record (filter is_check (map (\<lambda>c. (c, Some (table_name t))) (constraints_of t)))"
    and r: "\<forall>c' \<in> set cs. supported_type c'" by blast
  from Cons.IH[OF s2] obtain d2 where
    d2: "dropped_constraints h2 = dropped_constraints h1 @ d2"
        "check_drops d2 = map check_drop_record (filter is_check
         (concat (map (\<lambda>t. map (\<lambda>c. (c, Some (table_name t))) (constraints_of t)) ts)))"
    and rs1: "\<forall>t \<in> set ts1. \<forall>c' \<in> set (constraints_of t). supported_type c'"
    and nm: "map table_name ts1 = map table_name ts" "map t_columns ts1 = map t_columns ts" by blast
  have "dropped_constraints h' = dropped_constraints h @ (d1 @ d2)"
    using d1 d2 h' by simp
  moreover have "check_drops (d1 @ d2) = map check_drop_record (filter is_check
         (concat (map (\<lambda>t. map (\<lambda>c. (c, Some (table_name t))) (constraints_of t)) (t # ts))))"
    using d1 d2 by (simp add: check_drops_append)
  moreover have "\<forall>t \<in> set ts'. \<forall>c' \<in> set (constraints_of t). supported_type c'"
    using r rs1 ts' by (auto simp: constraints_of_def)
  moreover have "map table_name ts' = map table_name (t # ts)" "map t_columns ts' = map t_columns (t # ts)"
    using nm ts' by auto
  ultimately show ?case by blast
qed

lemma constraints_of_mark_pk: "map constraints_of (mark_columns_as_primary_key ts tn cols) = map constraints_of ts"
  by (simp add: mark_columns_as_primary_key_def constraints_of_def)

lemma constraints_of_mark_unique: "map constraints_of (mark_columns_as_unique ts tn cols) = map constraints_of ts"
  by (simp add: mark_columns_as_unique_def constraints_of_def)

lemma constraints_of_apply: "map constraints_of (apply_constraint ts c) = map constraints_of ts"
  by (simp add: apply_constraint_def constraints_of_mark_pk constraints_of_mark_unique Let_def)

lemma constraints_of_foldl_apply: "map constraints_of (foldl apply_constraint ts cs) = map constraints_of ts"
  by (induction cs arbitrary: ts) (simp_all add: constraints_of_apply)

lemma constraints_of_tag:
  "constraints_of (tag_source_table t) = map (\<lambda>c. c\<lparr>source_table := Some (table_name t)\<rparr>) (constraints_of t)"
  by (simp add: tag_source_table_def constraints_of_def split: option.splits)

lemma apply_constraints_tables:
  "map constraints_of (tables_of (apply_constraints_to_columns s)) =
   map (\<lambda>t. map (\<lambda>c. c\<lparr>source_table := Some (table_name t)\<rparr>) (constraints_of t)) (tables_of s)"
  by (cases "s_tables s")
     (simp_all add: apply_constraints_to_columns_def tables_of_def Let_def constraints_of_foldl_apply constraints_of_tag)

lemma apply_constraints_standalone:
  "standalone_of (apply_constraints_to_columns s) = standalone_of s"
  by (simp add: apply_constraints_to_columns_def standalone_of_def Let_def)

lemma process_constraints_general:
  assumes "process_constraints s h = (s', h')"
  shows "(\<forall>t \<in> set (tables_of s'). \<forall>c \<in> set (constraints_of t). supported_type c)
       \<and> (\<forall>c \<in> set (standalone_of s'). supported_type c)
       \<and> (\<exists>ds. dropped_constraints h' = dropped_constraints h @ ds \<and>
             check_drops ds = map check_drop_record (filter is_check (input_constraints s)))
       \<and> s_dropped_constraints s' = Some (dropped_constraints h')"
proof -
  obtain ts h1 where pt: "process_tables (tables_of s) h = (ts, h1)" by force
  define s1 where "s1 = s\<lparr>s_tables := map_option (\<lambda>_. ts) (s_tables s)\<rparr>"
  obtain cs' h2 where ps: "process_standalone_constraints (standalone_of s) h1 = (cs', h2)" by force
  define s2 where "s2 = (case s_constraints s of None \<Rightarrow> s1 | Some cs \<Rightarrow> s1\<lparr>s_constraints := Some cs'\<rparr>)"
  have h2_none: "s_constraints s = None \<Longrightarrow> h2 = h1 \<and> cs' = []"
    using ps by (simp add: standalone_of_def)
  have res: "s' = (apply_constraints_to_columns s2)\<lparr>s_dropped_constraints := Some (dropped_constraints h2),
             s_modified_constraints := Some (modified_constraints h2),
             s_constraint_warnings := Some (warnings_generated h2)\<rparr>" and h': "h' = h2"
    using assms pt ps h2_none
    by (auto simp: process_constraints_def s1_def s2_def standalone_of_def Let_def split: option.splits prod.splits)
  from process_tables_dropped[OF pt] obtain d1 where
    d1: "dropped_constraints h1 = dropped_constraints h @ d1"
        "check_drops d1 = map check_drop_record (filter is_check
         (concat (map (\<lambda>t. map (\<lambda>c. (c, Some (table_name t))) (constraints_of t)) (tables_of s))))"
    and sup1: "\<forall>t \<in> set ts. \<forall>c' \<in> set (constraints_of t). supported_type c'" by blast
  from standalone_constraints_dropped[OF ps] obtain d2 where
    d2: "dropped_constraints h2 = dropped_constraints h1 @ d2"
        "check_drops d2 = map check_drop_record (filter is_check
         (map (\<lambda>c. (c, dict_get (c_table_name c) (Some ''unknown''))) (standalone_of s)))"
    and sup2: "\<forall>c' \<in> set cs'. supported_type c'" by blast
  have tabs2: "set (tables_of s2) \<subseteq> set ts"
    by (cases "s_tables s"; cases "s_constraints s") (simp_all add: s2_def s1_def tables_of_def)
  have st2: "set (standalone_of s2) \<subseteq> set cs'"
    by (auto simp: s2_def s1_def standalone_of_def split: option.splits)
  have tab_eq: "map constraints_of (tables_of s') =
     map (\<lambda>t. map (\<lambda>c. c\<lparr>source_table := Some (table_name t)\<rparr>) (constraints_of t)) (tables_of s2)"
    using apply_constraints_tables[of s2] by (simp add: res tables_of_def)
  have c1: "\<forall>t \<in> set (tables_of s'). \<forall>c \<in> set (constraints_of t). supported_type c"
  proof (intro ballI)
    fix t c assume t: "t \<in> set (tables_of s')" and c: "c \<in> set (constraints_of t)"
    from t have "constraints_of t \<in> set (map constraints_of (tables_of s'))" by simp
    with tab_eq obtain t2 where t2: "t2 \<in> set (tables_of s2)"
      and eq: "constraints_of t = map (\<lambda>c. c\<lparr>source_table := Some (table_name t2)\<rparr>) (constraints_of t2)"
      by auto
    from c eq obtain c2 where c2: "c2 \<in> set (constraints_of t2)" and ceq: "c = c2\<lparr>source_table := Some (table_name t2)\<rparr>"
      by auto
    from t2 tabs2 sup1 c2 have "supported_type c2" by blast
    with ceq show "supported_type c" by (simp add: supported_type_def)
  qed
  have "standalone_of s' = standalone_of s2"
    using apply_constraints_standalone[of s2] by (simp add: res standalone_of_def)
  with st2 sup2 have c2: "\<forall>c \<in> set (standalone_of s'). supported_type c" by auto
  have "dropped_constraints h' = dropped_constraints h @ (d1 @ d2)"
    using d1 d2 h' by simp
  moreover have "check_drops (d1 @ d2) = map check_drop_record (filter is_check (input_constraints s))"
    using d1 d2 by (simp add: check_drops_append input_constraints_def)
  ultimately have c3: "\<exists>ds. dropped_constraints h' = dropped_constraints h @ ds \<and>
             check_drops ds = map check_drop_record (filter is_check (input_constraints s))" by blast
  have c4: "s_dropped_constraints s' = Some (dropped_constraints h')"
    by (simp add: res h')
  from c1 c2 c3 c4 show ?thesis by blast
qed

text \<open>
  Claim C1. After \<^verbatim>\<open>process_constraints\<close> has run with a fresh handler, every constraint
  left in a table-level list or in the standalone list has type \<^verbatim>\<open>p\<close>, \<^verbatim>\<open>u\<close> or
  \<^verbatim>\<open>f\<close> (so none has type \<^verbatim>\<open>c\<close> or an unrecognised type); the drop log is stored
  in the result; and the drop records of type \<^verbatim>\<open>CHECK\<close> are, in order, the records of
  the CHECK constraints of the input, one for each, so their number is the number of
  CHECK constraints in the input.
\<close>

theorem process_constraints_drops_checks:
  assumes "process_constraints s init_handler = (s', h')"
  shows "(\<forall>t \<in> set (tables_of s'). \<forall>c \<in> set (constraints_of t).
            constraint_type c \<in> {Some ''p'', Some ''u'', Some ''f''})
       \<and> (\<forall>c \<in> set (standalone_of s').
            constraint_type c \<in> {Some ''p'', Some ''u'', Some ''f''})
       \<and> s_dropped_constraints s' = Some (dropped_constraints h')
       \<and> check_drops (dropped_constraints h') = map check_drop_record (filter is_check (input_constraints s))
       \<and> length (check_drops (dropped_constraints h')) = length (filter is_check (input_constraints s))"
proof -
  from process_constraints_general[OF assms] obtain ds where
    a: "\<forall>t \<in> set (tables_of s'). \<forall>c \<in> set (constraints_of t). supported_type c"
    and b: "\<forall>c \<in> set (standalone_of s'). supported_type c"
    and c: "dropped_constraints h' = dropped_constraints init_handler @ ds"
           "check_drops ds = map check_drop_record (filter is_check (input_constraints s))"
    and d: "s_dropped_constraints s' = Some (dropped_constraints h')" by blast
  from c have e: "check_drops (dropped_constraints h') = map check_drop_record (filter is_check (input_constraints s))"
    by (simp add: init_handler_def)
  then have "length (check_drops (dropped_constraints h')) = length (filter is_check (input_constraints s))"
    by simp
  with a b d e show ?thesis by (simp add: supported_type_def)
qed


theorem process_constraints_drops_checks_witness:
  "map d_constraint_type (dropped_constraints (snd (process_constraints check_example init_handler))) = [''CHECK'']
   \<and> map constraints_of (tables_of (fst (process_constraints check_example init_handler))) = [[]]
   \<and> length (filter is_check (input_constraints check_example)) = 1
   \<and> length (check_drops (dropped_constraints (snd (process_constraints check_example init_handler)))) = 1"
  using process_constraints_drops_checks [of check_example
      "fst (process_constraints check_example init_handler)"
      "snd (process_constraints check_example init_handler)"]
  by (simp add: process_constraints_def check_example_def init_handler_def tables_of_def constraints_of_def
      process_single_constraint_def drop_check_constraint_def log_constraint_drop_def generate_warning_def
      dict_get_def py_str_def apply_constraints_to_columns_def standalone_of_def tag_source_table_def Let_def
      input_constraints_def is_check_def check_drops_def check_drop_record_eq)

definition col_apply :: "string \<Rightarrow> column \<Rightarrow> constraint \<Rightarrow> column" where
  "col_apply tn col c =
     (let columns = (case c_columns c of None \<Rightarrow> [] | Some cs \<Rightarrow> cs) in
      if constraint_type c = Some ''p'' \<and> columns \<noteq> [] \<and> constraint_table c = Some tn
        then mark_pk_column columns col
      else if constraint_type c = Some ''u'' \<and> columns \<noteq> [] \<and> constraint_table c = Some tn
        then mark_unique_column columns col
      else col)"

lemma table_upd_id: "t\<lparr>t_columns := map_option (map (\<lambda>c. c)) (t_columns t)\<rparr> = t"
  by (cases "t_columns t") simp_all

lemma apply_constraint_map:
  "apply_constraint ts c =
     map (\<lambda>t. t\<lparr>t_columns := map_option (map (\<lambda>col. col_apply (table_name t) col c)) (t_columns t)\<rparr>) ts"
  by (auto simp: apply_constraint_def col_apply_def Let_def mark_columns_as_primary_key_def
      mark_columns_as_unique_def table_upd_id option.map_ident)

lemma foldl_apply_constraint_map:
  "foldl apply_constraint ts cs =
     map (\<lambda>t. t\<lparr>t_columns := map_option (map (\<lambda>col. foldl (col_apply (table_name t)) col cs)) (t_columns t)\<rparr>) ts"
proof (induction cs arbitrary: ts)
  case Nil
  show ?case by (simp add: option.map_ident)
next
  case (Cons c cs)
  have "foldl apply_constraint ts (c # cs) = foldl apply_constraint (apply_constraint ts c) cs" by simp
  also have "\<dots> = map (\<lambda>t. t\<lparr>t_columns := map_option (map (\<lambda>col. foldl (col_apply (table_name t)) col cs)) (t_columns t)\<rparr>)
                     (apply_constraint ts c)"
    by (rule Cons.IH)
  also have "\<dots> = map (\<lambda>t. t\<lparr>t_columns := map_option (map (\<lambda>col. foldl (col_apply (table_name t)) col (c # cs))) (t_columns t)\<rparr>) ts"
    unfolding apply_constraint_map by (simp add: option.map_comp comp_def)
  finally show ?case .
qed

lemma col_apply_name: "column_name (col_apply tn col c) = column_name col"
  by (simp add: col_apply_def mark_pk_column_def mark_unique_column_def Let_def)

lemma foldl_col_apply_name: "column_name (foldl (col_apply tn) col cs) = column_name col"
  by (induction cs arbitrary: col) (simp_all add: col_apply_name)

lemma col_apply_keeps_pk:
  "is_primary_key col = Some True \<and> is_nullable col = Some False \<Longrightarrow>
   is_primary_key (col_apply tn col c) = Some True \<and> is_nullable (col_apply tn col c) = Some False"
  by (simp add: col_apply_def mark_pk_column_def mark_unique_column_def Let_def)

lemma col_apply_keeps_unique:
  "is_unique col = Some True \<Longrightarrow> is_unique (col_apply tn col c) = Some True"
  by (simp add: col_apply_def mark_pk_column_def mark_unique_column_def Let_def)

lemma foldl_col_apply_keeps_pk:
  "is_primary_key col = Some True \<and> is_nullable col = Some False \<Longrightarrow>
   is_primary_key (foldl (col_apply tn) col cs) = Some True \<and> is_nullable (foldl (col_apply tn) col cs) = Some False"
  by (induction cs arbitrary: col) (simp_all add: col_apply_keeps_pk)

lemma foldl_col_apply_keeps_unique:
  "is_unique col = Some True \<Longrightarrow> is_unique (foldl (col_apply tn) col cs) = Some True"
  by (induction cs arbitrary: col) (simp_all add: col_apply_keeps_unique)


lemma col_apply_sets_pk:
  "constraint_type c = Some ''p'' \<Longrightarrow> constraint_table c = Some tn \<Longrightarrow> column_name col \<in> set (names_of c) \<Longrightarrow>
   is_primary_key (col_apply tn col c) = Some True \<and> is_nullable (col_apply tn col c) = Some False"
  by (auto simp: col_apply_def mark_pk_column_def names_of_def Let_def split: option.splits)

lemma col_apply_sets_unique:
  "constraint_type c = Some ''u'' \<Longrightarrow> constraint_table c = Some tn \<Longrightarrow> names_of c = [column_name col] \<Longrightarrow>
   is_unique (col_apply tn col c) = Some True"
  by (auto simp: col_apply_def mark_unique_column_def names_of_def Let_def split: option.splits)

lemma foldl_col_apply_pk:
  "c \<in> set cs \<Longrightarrow> constraint_type c = Some ''p'' \<Longrightarrow> constraint_table c = Some tn \<Longrightarrow>
   column_name col \<in> set (names_of c) \<Longrightarrow>
   is_primary_key (foldl (col_apply tn) col cs) = Some True \<and> is_nullable (foldl (col_apply tn) col cs) = Some False"
proof (induction cs arbitrary: col)
  case Nil
  then show ?case by simp
next
  case (Cons a cs)
  show ?case
  proof (cases "a = c")
    case True
    with Cons.prems col_apply_sets_pk[of c tn col]
    show ?thesis by (simp add: foldl_col_apply_keeps_pk)
  next
    case False
    with Cons.prems have "c \<in> set cs" by simp
    moreover have "column_name (col_apply tn col a) \<in> set (names_of c)"
      using Cons.prems by (simp add: col_apply_name)
    ultimately show ?thesis using Cons.IH Cons.prems by simp
  qed
qed

lemma foldl_col_apply_unique:
  "c \<in> set cs \<Longrightarrow> constraint_type c = Some ''u'' \<Longrightarrow> constraint_table c = Some tn \<Longrightarrow>
   names_of c = [column_name col] \<Longrightarrow>
   is_unique (foldl (col_apply tn) col cs) = Some True"
proof (induction cs arbitrary: col)
  case Nil
  then show ?case by simp
next
  case (Cons a cs)
  show ?case
  proof (cases "a = c")
    case True
    with Cons.prems col_apply_sets_unique[of c tn col]
    show ?thesis by (simp add: foldl_col_apply_keeps_unique)
  next
    case False
    with Cons.prems have "c \<in> set cs" by simp
    moreover have "names_of c = [column_name (col_apply tn col a)]"
      using Cons.prems by (simp add: col_apply_name)
    ultimately show ?thesis using Cons.IH Cons.prems by simp
  qed
qed


lemma tag_name: "table_name (tag_source_table t) = table_name t"
  by (simp add: tag_source_table_def)

lemma apply_tables:
  "tables_of (apply_constraints_to_columns s) =
     map (\<lambda>t. t\<lparr>t_columns := map_option (map (\<lambda>col. foldl (col_apply (table_name t)) col
                 (all_constraints (apply_constraints_to_columns s)))) (t_columns t)\<rparr>)
         (map tag_source_table (tables_of s))"
proof -
  let ?tagged = "map tag_source_table (tables_of s)"
  let ?all = "concat (map constraints_of ?tagged) @ standalone_of s"
  have "foldl apply_constraint [] cs = []" for cs
    by (simp add: foldl_apply_constraint_map)
  then have t: "tables_of (apply_constraints_to_columns s) = foldl apply_constraint ?tagged ?all"
    by (cases "s_tables s") (simp_all add: apply_constraints_to_columns_def tables_of_def Let_def)
  have "map constraints_of (tables_of (apply_constraints_to_columns s)) = map constraints_of ?tagged"
    unfolding t by (rule constraints_of_foldl_apply)
  then have all: "all_constraints (apply_constraints_to_columns s) = ?all"
    by (simp add: all_constraints_def apply_constraints_standalone)
  show ?thesis
    unfolding t all by (rule foldl_apply_constraint_map)
qed

lemma apply_constraints_marks:
  assumes t: "t \<in> set (tables_of (apply_constraints_to_columns s))"
  shows "(\<forall>c \<in> set (constraints_of t). source_table c = Some (table_name t)) \<and>
         (\<forall>c \<in> set (all_constraints (apply_constraints_to_columns s)). \<forall>col \<in> set (columns_of t).
            constraint_table c = Some (table_name t) \<longrightarrow>
            (constraint_type c = Some ''p'' \<and> column_name col \<in> set (names_of c) \<longrightarrow>
               is_primary_key col = Some True \<and> is_nullable col = Some False) \<and>
            (constraint_type c = Some ''u'' \<and> names_of c = [column_name col] \<longrightarrow>
               is_unique col = Some True))"
proof -
  let ?all = "all_constraints (apply_constraints_to_columns s)"
  from t obtain t0 where t0: "t0 \<in> set (tables_of s)"
    and teq: "t = (tag_source_table t0)\<lparr>t_columns := map_option (map (\<lambda>col. foldl (col_apply (table_name t0)) col ?all))
                 (t_columns (tag_source_table t0))\<rparr>"
    unfolding apply_tables[of s] by (auto simp: tag_name)
  have name: "table_name t = table_name t0" by (simp add: teq tag_name)
  have "constraints_of t = constraints_of (tag_source_table t0)"
    by (simp add: teq constraints_of_def)
  then have a: "\<forall>c \<in> set (constraints_of t). source_table c = Some (table_name t)"
    by (auto simp: constraints_of_tag name)
  have cols: "columns_of t = map (\<lambda>col. foldl (col_apply (table_name t)) col ?all) (columns_of t0)"
    by (cases "t_columns t0") (simp_all add: teq columns_of_def tag_source_table_def)
  have b: "\<forall>c \<in> set ?all. \<forall>col \<in> set (columns_of t).
            constraint_table c = Some (table_name t) \<longrightarrow>
            (constraint_type c = Some ''p'' \<and> column_name col \<in> set (names_of c) \<longrightarrow>
               is_primary_key col = Some True \<and> is_nullable col = Some False) \<and>
            (constraint_type c = Some ''u'' \<and> names_of c = [column_name col] \<longrightarrow>
               is_unique col = Some True)"
  proof (intro ballI impI conjI)
    fix c col
    assume c: "c \<in> set ?all" and col: "col \<in> set (columns_of t)"
      and ct: "constraint_table c = Some (table_name t)"
    from col cols obtain col0 where col0: "col = foldl (col_apply (table_name t)) col0 ?all" by auto
    then have nm: "column_name col = column_name col0" by (simp add: foldl_col_apply_name)
    {
      assume "constraint_type c = Some ''p'' \<and> column_name col \<in> set (names_of c)"
      then show "is_primary_key col = Some True" "is_nullable col = Some False"
        using foldl_col_apply_pk[OF c _ ct, of col0] nm col0 by simp_all
    }
    {
      assume "constraint_type c = Some ''u'' \<and> names_of c = [column_name col]"
      then show "is_unique col = Some True"
        using foldl_col_apply_unique[OF c _ ct, of col0] nm col0 by simp
    }
  qed
  from a b show ?thesis by blast
qed

lemma single_keeps_key: "is_key c \<Longrightarrow> fst (process_single_constraint c tn h) = Some c"
  by (auto simp: is_key_def process_single_constraint_def)

lemma table_constraints_keep_keys:
  "c \<in> set cs \<Longrightarrow> is_key c \<Longrightarrow> c \<in> set (fst (process_table_constraints cs tn h))"
proof (induction cs arbitrary: h)
  case Nil
  then show ?case by simp
next
  case (Cons x cs)
  obtain r h1 where a: "process_single_constraint x tn h = (r, h1)" by (cases "process_single_constraint x tn h")
  obtain rs h2 where b: "process_table_constraints cs tn h1 = (rs, h2)" by (cases "process_table_constraints cs tn h1")
  show ?case
  proof (cases "c = x")
    case True
    with Cons.prems(2) single_keeps_key[of x tn h] a have "r = Some c" by simp
    then show ?thesis by (simp add: a b)
  next
    case False
    with Cons.prems have "c \<in> set cs" by simp
    from Cons.IH[OF this Cons.prems(2), of h1] b have "c \<in> set rs" by simp
    then show ?thesis by (simp add: a b split: option.splits)
  qed
qed

lemma standalone_constraints_keep_keys:
  "c \<in> set cs \<Longrightarrow> is_key c \<Longrightarrow> c \<in> set (fst (process_standalone_constraints cs h))"
proof (induction cs arbitrary: h)
  case Nil
  then show ?case by simp
next
  case (Cons x cs)
  let ?tn = "dict_get (c_table_name x) (Some ''unknown'')"
  obtain r h1 where a: "process_single_constraint x ?tn h = (r, h1)" by (cases "process_single_constraint x ?tn h")
  obtain rs h2 where b: "process_standalone_constraints cs h1 = (rs, h2)" by (cases "process_standalone_constraints cs h1")
  show ?case
  proof (cases "c = x")
    case True
    with Cons.prems(2) single_keeps_key[of x ?tn h] a have "r = Some c" by simp
    then show ?thesis by (simp add: a b)
  next
    case False
    with Cons.prems have "c \<in> set cs" by simp
    from Cons.IH[OF this Cons.prems(2), of h1] b have "c \<in> set rs" by simp
    then show ?thesis by (simp add: a b split: option.splits)
  qed
qed

lemma process_tables_frame:
  "map table_name (fst (process_tables ts h)) = map table_name ts \<and>
   map t_columns (fst (process_tables ts h)) = map t_columns ts"
proof (induction ts arbitrary: h)
  case Nil
  show ?case by simp
next
  case (Cons t ts)
  obtain cs h1 where a: "process_table_constraints (constraints_of t) (Some (table_name t)) h = (cs, h1)"
    by (cases "process_table_constraints (constraints_of t) (Some (table_name t)) h")
  obtain ts' h2 where b: "process_tables ts h1 = (ts', h2)" by (cases "process_tables ts h1")
  from Cons.IH[of h1] b show ?case by (simp add: a)
qed

lemma process_tables_keep_keys:
  "i < length ts \<Longrightarrow> c \<in> set (constraints_of (ts ! i)) \<Longrightarrow> is_key c \<Longrightarrow>
   c \<in> set (constraints_of (fst (process_tables ts h) ! i))"
proof (induction ts arbitrary: h i)
  case Nil
  then show ?case by simp
next
  case (Cons t ts)
  obtain cs h1 where a: "process_table_constraints (constraints_of t) (Some (table_name t)) h = (cs, h1)"
    by (cases "process_table_constraints (constraints_of t) (Some (table_name t)) h")
  obtain ts' h2 where b: "process_tables ts h1 = (ts', h2)" by (cases "process_tables ts h1")
  have pt: "fst (process_tables (t # ts) h) = t\<lparr>t_constraints := Some cs\<rparr> # ts'"
    by (simp add: a b)
  show ?case
  proof (cases i)
    case 0
    with Cons.prems have "c \<in> set (constraints_of t)" by simp
    from table_constraints_keep_keys[OF this Cons.prems(3), of "Some (table_name t)" h] a
    have "c \<in> set cs" by simp
    then show ?thesis unfolding pt by (simp add: 0 constraints_of_def)
  next
    case (Suc j)
    with Cons.prems have "j < length ts" "c \<in> set (constraints_of (ts ! j))" by simp_all
    from Cons.IH[OF this Cons.prems(3), of h1] b show ?thesis unfolding pt by (simp add: Suc)
  qed
qed

lemma constraint_table_named:
  "named_table c = Some n \<Longrightarrow> constraint_table c = Some n"
  "named_table c = None \<Longrightarrow> constraint_table c = source_table c"
  by (auto simp: named_table_def constraint_table_def split: pyfield.splits if_splits)

lemma process_constraints_parts:
  assumes "process_constraints s h = (s', h')"
  shows "\<exists>s2 h1. tables_of s2 = fst (process_tables (tables_of s) h) \<and>
           standalone_of s2 = fst (process_standalone_constraints (standalone_of s) h1) \<and>
           tables_of s' = tables_of (apply_constraints_to_columns s2) \<and>
           standalone_of s' = standalone_of s2"
proof -
  obtain ts h1 where pt: "process_tables (tables_of s) h = (ts, h1)" by force
  define s1 where "s1 = s\<lparr>s_tables := map_option (\<lambda>_. ts) (s_tables s)\<rparr>"
  obtain cs' h2 where ps: "process_standalone_constraints (standalone_of s) h1 = (cs', h2)" by force
  define s2 where "s2 = (case s_constraints s of None \<Rightarrow> s1 | Some cs \<Rightarrow> s1\<lparr>s_constraints := Some cs'\<rparr>)"
  have s': "s' = (apply_constraints_to_columns s2)\<lparr>s_dropped_constraints := Some (dropped_constraints h'),
             s_modified_constraints := Some (modified_constraints h'),
             s_constraint_warnings := Some (warnings_generated h')\<rparr>"
    using assms pt ps
    by (auto simp: process_constraints_def s1_def s2_def standalone_of_def Let_def split: option.splits prod.splits)
  have nil: "tables_of s = [] \<Longrightarrow> ts = []" using pt by simp
  have a: "tables_of s2 = ts"
    using nil by (cases "s_tables s"; cases "s_constraints s") (simp_all add: s2_def s1_def tables_of_def)
  have b: "standalone_of s2 = cs'"
    using ps by (cases "s_constraints s") (simp_all add: s2_def s1_def standalone_of_def)
  have c: "tables_of s' = tables_of (apply_constraints_to_columns s2)"
    by (simp add: s' tables_of_def)
  have d: "standalone_of s' = standalone_of s2"
    by (simp add: s' standalone_of_def apply_constraints_standalone[unfolded standalone_of_def])
  have a': "tables_of s2 = fst (process_tables (tables_of s) h)" by (simp add: a pt)
  have b': "standalone_of s2 = fst (process_standalone_constraints (standalone_of s) h1)"
    by (simp add: b ps)
  show ?thesis
    apply (rule exI[where x=s2])
    apply (rule exI[where x=h1])
    using a' b' c d by simp
qed

lemma apply_tables_nth:
  assumes "i < length (tables_of s)"
  shows "table_name (tables_of (apply_constraints_to_columns s) ! i) = table_name (tables_of s ! i)"
    and "map column_name (columns_of (tables_of (apply_constraints_to_columns s) ! i)) =
         map column_name (columns_of (tables_of s ! i))"
    and "constraints_of (tables_of (apply_constraints_to_columns s) ! i) =
         map (\<lambda>c. c\<lparr>source_table := Some (table_name (tables_of s ! i))\<rparr>) (constraints_of (tables_of s ! i))"
proof -
  let ?all = "all_constraints (apply_constraints_to_columns s)"
  let ?t = "tables_of s ! i"
  have t: "tables_of (apply_constraints_to_columns s) ! i =
      (tag_source_table ?t)\<lparr>t_columns := map_option (map (\<lambda>col. foldl (col_apply (table_name (tag_source_table ?t))) col ?all))
                 (t_columns (tag_source_table ?t))\<rparr>"
    unfolding apply_tables[of s] using assms by simp
  show "table_name (tables_of (apply_constraints_to_columns s) ! i) = table_name ?t"
    unfolding t by (simp add: tag_name)
  show "map column_name (columns_of (tables_of (apply_constraints_to_columns s) ! i)) =
         map column_name (columns_of ?t)"
    unfolding t by (cases "t_columns ?t") (simp_all add: columns_of_def tag_source_table_def foldl_col_apply_name comp_def)
  have "constraints_of (tables_of (apply_constraints_to_columns s) ! i) = constraints_of (tag_source_table ?t)"
    unfolding t by (simp add: constraints_of_def)
  then show "constraints_of (tables_of (apply_constraints_to_columns s) ! i) =
         map (\<lambda>c. c\<lparr>source_table := Some (table_name ?t)\<rparr>) (constraints_of ?t)"
    by (simp add: constraints_of_tag)
qed

lemma apply_tables_length: "length (tables_of (apply_constraints_to_columns s)) = length (tables_of s)"
  unfolding apply_tables[of s] by simp

text \<open>
  Claim C8. After \<^verbatim>\<open>process_constraints\<close>, for every table and every surviving
  constraint of that table (one of the table's own list that names no table, or one
  anywhere in the schema that names the table): each column named by a type-\<^verbatim>\<open>p\<close>
  constraint has \<^verbatim>\<open>is_primary_key\<close> true and \<^verbatim>\<open>is_nullable\<close> false, and the sole
  column of a single-column type-\<^verbatim>\<open>u\<close> constraint has \<^verbatim>\<open>is_unique\<close> true. The tables
  keep their names and the names of their columns, and every type-\<^verbatim>\<open>p\<close> and
  type-\<^verbatim>\<open>u\<close> constraint of the input survives: a table-level one in the list of its
  table, with the table's name written to \<^verbatim>\<open>source_table\<close>, a standalone one as it is.
\<close>

theorem process_constraints_marks_columns:
  assumes "process_constraints s h = (s', h')"
  shows "(\<forall>t \<in> set (tables_of s'). \<forall>c. constraint_of_table s' c t \<longrightarrow>
            (\<forall>col \<in> set (columns_of t).
               (constraint_type c = Some ''p'' \<and> column_name col \<in> set (names_of c) \<longrightarrow>
                  is_primary_key col = Some True \<and> is_nullable col = Some False) \<and>
               (constraint_type c = Some ''u'' \<and> names_of c = [column_name col] \<longrightarrow>
                  is_unique col = Some True))) \<and>
         map table_name (tables_of s') = map table_name (tables_of s) \<and>
         map (\<lambda>t. map column_name (columns_of t)) (tables_of s') =
           map (\<lambda>t. map column_name (columns_of t)) (tables_of s) \<and>
         (\<forall>i < length (tables_of s). \<forall>c \<in> set (constraints_of (tables_of s ! i)). is_key c \<longrightarrow>
            c\<lparr>source_table := Some (table_name (tables_of s ! i))\<rparr>
              \<in> set (constraints_of (tables_of s' ! i))) \<and>
         (\<forall>c \<in> set (standalone_of s). is_key c \<longrightarrow> c \<in> set (standalone_of s'))"
proof -
  from process_constraints_parts[OF assms] obtain s2 h1 where
    ts: "tables_of s2 = fst (process_tables (tables_of s) h)"
    and cs: "standalone_of s2 = fst (process_standalone_constraints (standalone_of s) h1)"
    and t': "tables_of s' = tables_of (apply_constraints_to_columns s2)"
    and c': "standalone_of s' = standalone_of s2" by blast
  have all: "all_constraints s' = all_constraints (apply_constraints_to_columns s2)"
    by (simp add: all_constraints_def t' c' apply_constraints_standalone)
  have len2: "length (tables_of s2) = length (tables_of s)"
    using process_tables_frame[of "tables_of s" h] unfolding ts[symmetric]
    by (metis length_map)
  have len': "length (tables_of s') = length (tables_of s2)"
    by (simp add: t' apply_tables_length)
  have 1: "\<forall>t \<in> set (tables_of s'). \<forall>c. constraint_of_table s' c t \<longrightarrow>
            (\<forall>col \<in> set (columns_of t).
               (constraint_type c = Some ''p'' \<and> column_name col \<in> set (names_of c) \<longrightarrow>
                  is_primary_key col = Some True \<and> is_nullable col = Some False) \<and>
               (constraint_type c = Some ''u'' \<and> names_of c = [column_name col] \<longrightarrow>
                  is_unique col = Some True))"
  proof (intro ballI allI impI)
    fix t c col
    assume t: "t \<in> set (tables_of s')" and o: "constraint_of_table s' c t"
      and col: "col \<in> set (columns_of t)"
    from t have t2: "t \<in> set (tables_of (apply_constraints_to_columns s2))" by (simp add: t')
    note m = apply_constraints_marks[OF t2]
    have mem: "c \<in> set (all_constraints (apply_constraints_to_columns s2))"
      using o t unfolding all[symmetric] by (auto simp: constraint_of_table_def all_constraints_def)
    have tab: "constraint_table c = Some (table_name t)"
    proof (cases "named_table c")
      case None
      with o have "c \<in> set (constraints_of t)" by (simp add: constraint_of_table_def)
      with m have "source_table c = Some (table_name t)" by blast
      with None show ?thesis by (simp add: constraint_table_named)
    next
      case (Some n)
      with o have "n = table_name t" by (simp add: constraint_of_table_def)
      with Some show ?thesis by (simp add: constraint_table_named)
    qed
    from m mem col tab
    show "(constraint_type c = Some ''p'' \<and> column_name col \<in> set (names_of c) \<longrightarrow>
                  is_primary_key col = Some True \<and> is_nullable col = Some False) \<and>
               (constraint_type c = Some ''u'' \<and> names_of c = [column_name col] \<longrightarrow>
                  is_unique col = Some True)"
      by blast
  qed
  have nth': "i < length (tables_of s) \<Longrightarrow>
      table_name (tables_of s' ! i) = table_name (tables_of s2 ! i) \<and>
      map column_name (columns_of (tables_of s' ! i)) = map column_name (columns_of (tables_of s2 ! i)) \<and>
      constraints_of (tables_of s' ! i) =
        map (\<lambda>c. c\<lparr>source_table := Some (table_name (tables_of s2 ! i))\<rparr>) (constraints_of (tables_of s2 ! i))" for i
    unfolding t' using apply_tables_nth[of i s2] len2 by simp
  have nth2: "i < length (tables_of s) \<Longrightarrow>
      table_name (tables_of s2 ! i) = table_name (tables_of s ! i) \<and>
      t_columns (tables_of s2 ! i) = t_columns (tables_of s ! i)" for i
  proof -
    assume i: "i < length (tables_of s)"
    from process_tables_frame[of "tables_of s" h]
    have "map table_name (tables_of s2) ! i = map table_name (tables_of s) ! i"
      "map t_columns (tables_of s2) ! i = map t_columns (tables_of s) ! i"
      by (simp_all add: ts)
    with i len2 show ?thesis by simp
  qed
  have 2: "map table_name (tables_of s') = map table_name (tables_of s)"
    by (rule nth_equalityI) (simp_all add: len' len2 nth' nth2)
  have 3: "map (\<lambda>t. map column_name (columns_of t)) (tables_of s') =
           map (\<lambda>t. map column_name (columns_of t)) (tables_of s)"
  proof (rule nth_equalityI)
    show "length (map (\<lambda>t. map column_name (columns_of t)) (tables_of s')) =
          length (map (\<lambda>t. map column_name (columns_of t)) (tables_of s))"
      by (simp add: len' len2)
  next
    fix i assume "i < length (map (\<lambda>t. map column_name (columns_of t)) (tables_of s'))"
    then have i: "i < length (tables_of s)" by (simp add: len' len2)
    from nth2[OF i] have "columns_of (tables_of s2 ! i) = columns_of (tables_of s ! i)"
      by (simp add: columns_of_def)
    with nth'[OF i] i show "map (\<lambda>t. map column_name (columns_of t)) (tables_of s') ! i =
          map (\<lambda>t. map column_name (columns_of t)) (tables_of s) ! i"
      by (simp add: len' len2)
  qed
  have 4: "\<forall>i < length (tables_of s). \<forall>c \<in> set (constraints_of (tables_of s ! i)). is_key c \<longrightarrow>
            c\<lparr>source_table := Some (table_name (tables_of s ! i))\<rparr>
              \<in> set (constraints_of (tables_of s' ! i))"
  proof (intro allI impI ballI)
    fix i c
    assume i: "i < length (tables_of s)" and c: "c \<in> set (constraints_of (tables_of s ! i))"
      and k: "is_key c"
    from process_tables_keep_keys[OF i c k, of h] have "c \<in> set (constraints_of (tables_of s2 ! i))"
      by (simp add: ts)
    then show "c\<lparr>source_table := Some (table_name (tables_of s ! i))\<rparr>
              \<in> set (constraints_of (tables_of s' ! i))"
      using nth'[OF i] nth2[OF i] by auto
  qed
  have 5: "\<forall>c \<in> set (standalone_of s). is_key c \<longrightarrow> c \<in> set (standalone_of s')"
    by (simp add: c' cs standalone_constraints_keep_keys)
  from 1 2 3 4 5 show ?thesis by blast
qed

theorem process_constraints_marks_columns_witness:
  "map (\<lambda>col. (column_name col, is_primary_key col, is_nullable col, is_unique col))
     (concat (map columns_of (tables_of (fst (process_constraints pk_example init_handler))))) =
   [(''id'', Some True, Some False, Some True), (''email'', None, Some True, Some True)]
   \<and> map (\<lambda>c. (constraint_type c, named_table c))
        (concat (map constraints_of (tables_of (fst (process_constraints pk_example init_handler)))))
       = [(Some ''p'', None)]
   \<and> map (\<lambda>c. (constraint_type c, named_table c))
        (standalone_of (fst (process_constraints pk_example init_handler)))
       = [(Some ''u'', Some ''users'')]"
  using process_constraints_marks_columns [of pk_example init_handler
      "fst (process_constraints pk_example init_handler)"
      "snd (process_constraints pk_example init_handler)"]
  by (simp add: process_constraints_def pk_example_def init_handler_def tables_of_def constraints_of_def
      columns_of_def process_single_constraint_def drop_check_constraint_def log_constraint_drop_def
      generate_warning_def dict_get_def py_str_def apply_constraints_to_columns_def standalone_of_def
      tag_source_table_def Let_def apply_constraint_def constraint_table_def
      mark_columns_as_primary_key_def mark_columns_as_unique_def mark_pk_column_def mark_unique_column_def
      all_constraints_def names_of_def named_table_def constraint_of_table_def is_key_def)

section \<open>RelationshipBuilder\<close>

text \<open>
  A candidate relationship, as the parser registers it, and a built one. The four
  endpoint keys are read with \<^verbatim>\<open>relationship[...]\<close> and are always present; the others
  are read with \<^verbatim>\<open>get\<close>.
\<close>

record relationship =
  r_source_table :: string
  r_source_columns :: "string list"
  r_target_table :: string
  r_target_columns :: "string list"
  r_constraint_name :: "string option"
  r_on_delete_action :: "string option"
  r_on_update_action :: "string option"

record built_relationship =
  b_source_table :: string
  b_source_columns :: "string list"
  b_target_table :: string
  b_target_columns :: "string list"
  relationship_type :: string
  b_constraint_name :: "string option"
  on_delete_action :: "string option"
  on_update_action :: "string option"
  is_composite :: bool
  is_self_referencing :: bool

record skip_record =
  sk_relationship :: relationship
  sk_reason :: string
  skip_type :: string
  sk_source_table :: string
  sk_target_table :: string

record builder =
  built_relationships :: "built_relationship list"
  skipped_relationships :: "skip_record list"
  relationship_warnings :: "warning list"

text \<open>One entry of the lookup: the table, and its columns by name.\<close>

record table_info =
  ti_table :: table
  ti_columns :: "string \<rightharpoonup> column"

text \<open>Decimal digits of a length, and the \<^verbatim>\<open>repr\<close> of a list of names, as an f-string
  prints them (names without quotes, backslashes or control characters).\<close>

function str_nat :: "nat \<Rightarrow> string" where
  "str_nat n = (if n < 10 then [char_of (48 + n)] else str_nat (n div 10) @ [char_of (48 + n mod 10)])"
  by pat_completeness auto
termination
  by (relation "measure id") auto

declare str_nat.simps [simp del]

fun join :: "string \<Rightarrow> string list \<Rightarrow> string" where
  "join sep [] = []"
| "join sep [x] = x"
| "join sep (x # y # ys) = x @ sep @ join sep (y # ys)"

definition repr_list :: "string list \<Rightarrow> string" where
  "repr_list xs = ''['' @ join '', '' (map (\<lambda>x. [CHR 0x27] @ x @ [CHR 0x27]) xs) @ '']''"

definition rb_generate_warning :: "string \<Rightarrow> builder \<Rightarrow> builder" where
  "rb_generate_warning message b =
     b\<lparr>relationship_warnings := relationship_warnings b @
          [\<lparr>w_type = ''RELATIONSHIP_WARNING'', w_message = message\<rparr>]\<rparr>"

definition skip_relationship :: "relationship \<Rightarrow> string \<Rightarrow> string \<Rightarrow> builder \<Rightarrow> builder" where
  "skip_relationship rel reason stype b =
     rb_generate_warning
       (''Skipped relationship '' @ r_source_table rel @ '' -> '' @ r_target_table rel @ '': '' @ reason)
       (b\<lparr>skipped_relationships := skipped_relationships b @
            [\<lparr>sk_relationship = rel, sk_reason = reason, skip_type = stype,
              sk_source_table = r_source_table rel, sk_target_table = r_target_table rel\<rparr>]\<rparr>)"

text \<open>A later table of the same name, and a later column of the same name, replaces
  the earlier entry, as assignment to a dictionary key does.\<close>

definition column_dict :: "column list \<Rightarrow> (string \<rightharpoonup> column)" where
  "column_dict cols = foldl (\<lambda>m col. m(column_name col \<mapsto> col)) Map.empty cols"

definition create_table_lookup :: "table list \<Rightarrow> (string \<rightharpoonup> table_info)" where
  "create_table_lookup tables =
     foldl (\<lambda>lookup t. lookup(table_name t \<mapsto>
              \<lparr>ti_table = t, ti_columns = column_dict (columns_of t)\<rparr>)) Map.empty tables"

definition columns_are_unique :: "string list \<Rightarrow> table_info \<Rightarrow> bool" where
  "columns_are_unique columns info =
     (let tab = ti_table info;
          pk_columns = concat (map names_of
                         (filter (\<lambda>c. constraint_type c = Some ''p'') (constraints_of tab)))
      in if set columns = set pk_columns then True
         else if list_ex (\<lambda>c. constraint_type c = Some ''u'' \<and> set columns = set (names_of c))
                   (constraints_of tab) then True
         else (case columns of
                 [cname] \<Rightarrow>
                   (case ti_columns info cname of
                      None \<Rightarrow> False
                    | Some col \<Rightarrow> is_unique col = Some True \<or> is_primary_key col = Some True)
               | _ \<Rightarrow> False))"

definition determine_relationship_type ::
  "relationship \<Rightarrow> table_info \<Rightarrow> table_info \<Rightarrow> builder \<Rightarrow> string \<times> builder" where
  "determine_relationship_type rel source_info target_info b =
     (let source_is_unique = columns_are_unique (r_source_columns rel) source_info;
          target_is_unique = columns_are_unique (r_target_columns rel) target_info
      in if source_is_unique \<and> target_is_unique then (''one-to-one'', b)
         else if target_is_unique then (''many-to-one'', b)
         else (''many-to-one'',
               rb_generate_warning
                 (''Relationship '' @ r_source_table rel @ '' -> '' @ r_target_table rel @
                  '' references non-unique columns - unusual foreign key'') b))"

definition build_single_relationship ::
  "relationship \<Rightarrow> (string \<rightharpoonup> table_info) \<Rightarrow> builder \<Rightarrow> built_relationship option \<times> builder" where
  "build_single_relationship rel table_lookup b =
     (case table_lookup (r_source_table rel) of
        None \<Rightarrow> (None, skip_relationship rel
                   (''Source table '' @ [CHR 0x27] @ r_source_table rel @ [CHR 0x27] @ '' not found in schema'')
                   ''MISSING_SOURCE_TABLE'' b)
      | Some source_info \<Rightarrow>
     (case table_lookup (r_target_table rel) of
        None \<Rightarrow> (None, skip_relationship rel
                   (''Target table '' @ [CHR 0x27] @ r_target_table rel @ [CHR 0x27] @ '' not found in schema'')
                   ''MISSING_TARGET_TABLE'' b)
      | Some target_info \<Rightarrow>
     (let missing_source_columns =
            filter (\<lambda>col. ti_columns source_info col = None) (r_source_columns rel);
          missing_target_columns =
            filter (\<lambda>col. ti_columns target_info col = None) (r_target_columns rel)
      in if missing_source_columns \<noteq> []
           then (None, skip_relationship rel
                   (''Source columns not found: '' @ repr_list missing_source_columns)
                   ''MISSING_SOURCE_COLUMNS'' b)
         else if missing_target_columns \<noteq> []
           then (None, skip_relationship rel
                   (''Target columns not found: '' @ repr_list missing_target_columns)
                   ''MISSING_TARGET_COLUMNS'' b)
         else if length (r_source_columns rel) \<noteq> length (r_target_columns rel)
           then (None, skip_relationship rel
                   (''Column count mismatch: '' @ str_nat (length (r_source_columns rel)) @
                    '' source, '' @ str_nat (length (r_target_columns rel)) @ '' target'')
                   ''COLUMN_COUNT_MISMATCH'' b)
         else
           (let (rel_type, b1) = determine_relationship_type rel source_info target_info b;
                built_rel = \<lparr>b_source_table = r_source_table rel,
                             b_source_columns = r_source_columns rel,
                             b_target_table = r_target_table rel,
                             b_target_columns = r_target_columns rel,
                             relationship_type = rel_type,
                             b_constraint_name = r_constraint_name rel,
                             on_delete_action = r_on_delete_action rel,
                             on_update_action = r_on_update_action rel,
                             is_composite = (length (r_source_columns rel) > 1),
                             is_self_referencing = (r_source_table rel = r_target_table rel)\<rparr>;
                b2 = (if is_composite built_rel
                      then rb_generate_warning
                             (''Composite relationship '' @ r_source_table rel @ '' -> '' @
                              r_target_table rel @ '' may cause parser issues'') b1
                      else b1);
                b3 = (if is_self_referencing built_rel
                      then rb_generate_warning
                             (''Self-referencing relationship on '' @ r_source_table rel @
                              '' - verify diagram clarity'') b2
                      else b2)
            in (Some built_rel, b3)))))"

text \<open>The loop of \<^verbatim>\<open>build_relationships\<close>: a built relationship is appended.\<close>

fun build_all :: "relationship list \<Rightarrow> (string \<rightharpoonup> table_info) \<Rightarrow> builder \<Rightarrow> builder" where
  "build_all [] table_lookup b = b"
| "build_all (rel # rels) table_lookup b =
     (let (r, b1) = build_single_relationship rel table_lookup b
      in build_all rels table_lookup
           (case r of None \<Rightarrow> b1
            | Some built \<Rightarrow> b1\<lparr>built_relationships := built_relationships b1 @ [built]\<rparr>))"

type_synonym signature = "string \<times> string list \<times> string \<times> string list"

definition create_relationship_signature :: "built_relationship \<Rightarrow> signature" where
  "create_relationship_signature r =
     (b_source_table r, b_source_columns r, b_target_table r, b_target_columns r)"

fun dedup_loop ::
  "built_relationship list \<Rightarrow> signature list \<Rightarrow> built_relationship list \<Rightarrow> builder \<Rightarrow>
   built_relationship list \<times> builder" where
  "dedup_loop [] seen deduplicated b = (deduplicated, b)"
| "dedup_loop (r # rs) seen deduplicated b =
     (let sig = create_relationship_signature r in
      if sig \<notin> set seen then dedup_loop rs (sig # seen) (deduplicated @ [r]) b
      else dedup_loop rs seen deduplicated
             (rb_generate_warning
                (''Duplicate relationship '' @ b_source_table r @ '' -> '' @ b_target_table r @
                 '' removed'') b))"

definition deduplicate_relationships :: "builder \<Rightarrow> builder" where
  "deduplicate_relationships b =
     (let (deduplicated, b1) = dedup_loop (built_relationships b) [] [] b
      in b1\<lparr>built_relationships := deduplicated\<rparr>)"

text \<open>\<^verbatim>\<open>build_relationships\<close> clears the three lists of the builder first, so its
  result does not depend on the builder's earlier state.\<close>

definition build_relationships ::
  "relationship list \<Rightarrow> table list \<Rightarrow> builder \<Rightarrow> built_relationship list \<times> builder" where
  "build_relationships relationships tables b =
     (let b0 = b\<lparr>built_relationships := [], skipped_relationships := [], relationship_warnings := []\<rparr>;
          table_lookup = create_table_lookup tables;
          b1 = build_all relationships table_lookup b0;
          b2 = deduplicate_relationships b1
      in (built_relationships b2, b2))"

definition init_builder :: builder where
  "init_builder = \<lparr>built_relationships = [], skipped_relationships = [], relationship_warnings = []\<rparr>"

definition built_of :: "relationship \<Rightarrow> string \<Rightarrow> built_relationship" where
  "built_of rel ty = \<lparr>b_source_table = r_source_table rel,
                             b_source_columns = r_source_columns rel,
                             b_target_table = r_target_table rel,
                             b_target_columns = r_target_columns rel,
                             relationship_type = ty,
                             b_constraint_name = r_constraint_name rel,
                             on_delete_action = r_on_delete_action rel,
                             on_update_action = r_on_update_action rel,
                             is_composite = (length (r_source_columns rel) > 1),
                             is_self_referencing = (r_source_table rel = r_target_table rel)\<rparr>"

text \<open>A relationship is valid for a lookup when both tables and all columns are there.\<close>

definition valid_for :: "(string \<rightharpoonup> table_info) \<Rightarrow> built_relationship \<Rightarrow> bool" where
  "valid_for lookup r \<longleftrightarrow>
     (\<exists>si ti. lookup (b_source_table r) = Some si \<and> lookup (b_target_table r) = Some ti
        \<and> (\<forall>c \<in> set (b_source_columns r). ti_columns si c \<noteq> None)
        \<and> (\<forall>c \<in> set (b_target_columns r). ti_columns ti c \<noteq> None))"

definition users_table :: table where
  "users_table = \<lparr>table_name = ''users'',
      t_columns = Some [\<lparr>column_name = ''id'', data_type = ''int4'', original_type = None,
                         is_primary_key = Some True, is_nullable = Some False, is_unique = None\<rparr>],
      t_constraints = Some []\<rparr>"

definition posts_table :: table where
  "posts_table = \<lparr>table_name = ''posts'',
      t_columns = Some [\<lparr>column_name = ''id'', data_type = ''int4'', original_type = None,
                         is_primary_key = Some True, is_nullable = Some False, is_unique = None\<rparr>,
                        \<lparr>column_name = ''user_id'', data_type = ''int4'', original_type = None,
                         is_primary_key = None, is_nullable = Some False, is_unique = None\<rparr>],
      t_constraints = Some []\<rparr>"

definition posts_users :: relationship where
  "posts_users = \<lparr>r_source_table = ''posts'', r_source_columns = [''user_id''],
      r_target_table = ''users'', r_target_columns = [''id''],
      r_constraint_name = None, r_on_delete_action = Some ''CASCADE'', r_on_update_action = None\<rparr>"

definition posts_ghost :: relationship where
  "posts_ghost = \<lparr>r_source_table = ''posts'', r_source_columns = [''user_id''],
      r_target_table = ''ghost'', r_target_columns = [''id''],
      r_constraint_name = None, r_on_delete_action = None, r_on_update_action = None\<rparr>"

definition orphan_ghost :: relationship where
  "orphan_ghost = \<lparr>r_source_table = ''orphan'', r_source_columns = [''parent_id''],
      r_target_table = ''ghost'', r_target_columns = [''id''],
      r_constraint_name = None, r_on_delete_action = None, r_on_update_action = None\<rparr>"



section \<open>Proofs: the relationship builder\<close>

lemma column_dict_foldl:
  "foldl (\<lambda>m col. m(column_name col \<mapsto> col)) m0 cols n = Some c \<Longrightarrow>
   (c \<in> set cols \<and> column_name c = n) \<or> m0 n = Some c"
  by (induction cols rule: rev_induct) (auto split: if_splits)

lemma column_dict_Some:
  "column_dict cols n = Some c \<Longrightarrow> c \<in> set cols \<and> column_name c = n"
  using column_dict_foldl[of Map.empty cols n c] by (simp add: column_dict_def)

lemma lookup_foldl:
  "foldl (\<lambda>lookup t. lookup(table_name t \<mapsto>
              \<lparr>ti_table = t, ti_columns = column_dict (columns_of t)\<rparr>)) m0 tables n = Some info \<Longrightarrow>
   (\<exists>t \<in> set tables. table_name t = n \<and> info = \<lparr>ti_table = t, ti_columns = column_dict (columns_of t)\<rparr>)
   \<or> m0 n = Some info"
  by (induction tables rule: rev_induct) (auto split: if_splits)

lemma lookup_foldl_None:
  "foldl (\<lambda>lookup t. lookup(table_name t \<mapsto>
              \<lparr>ti_table = t, ti_columns = column_dict (columns_of t)\<rparr>)) m0 tables n = None \<longleftrightarrow>
   (n \<notin> table_name ` set tables \<and> m0 n = None)"
  by (induction tables rule: rev_induct) auto

lemma create_table_lookup_Some:
  "create_table_lookup tables n = Some info \<Longrightarrow>
   \<exists>t \<in> set tables. table_name t = n \<and> ti_table info = t \<and> ti_columns info = column_dict (columns_of t)"
  using lookup_foldl[of Map.empty tables n info] by (auto simp: create_table_lookup_def)

lemma create_table_lookup_None:
  "create_table_lookup tables n = None \<longleftrightarrow> n \<notin> table_name ` set tables"
  using lookup_foldl_None[of Map.empty tables n] by (simp add: create_table_lookup_def)

lemma skip_relationship_fields:
  "skipped_relationships (skip_relationship rel reason stype b) =
     skipped_relationships b @ [\<lparr>sk_relationship = rel, sk_reason = reason, skip_type = stype,
              sk_source_table = r_source_table rel, sk_target_table = r_target_table rel\<rparr>]"
  "built_relationships (skip_relationship rel reason stype b) = built_relationships b"
  by (simp_all add: skip_relationship_def rb_generate_warning_def)

lemma rb_generate_warning_fields:
  "skipped_relationships (rb_generate_warning m b) = skipped_relationships b"
  "built_relationships (rb_generate_warning m b) = built_relationships b"
  "relationship_warnings (rb_generate_warning m b) = relationship_warnings b @ [\<lparr>w_type = ''RELATIONSHIP_WARNING'', w_message = m\<rparr>]"
  by (simp_all add: rb_generate_warning_def)

lemma determine_fields:
  "determine_relationship_type rel si ti b = (ty, b') \<Longrightarrow>
   skipped_relationships b' = skipped_relationships b \<and> built_relationships b' = built_relationships b"
  by (auto simp: determine_relationship_type_def Let_def rb_generate_warning_fields split: if_splits)

lemma bs_source_missing:
  "lookup (r_source_table rel) = None \<Longrightarrow>
   build_single_relationship rel lookup b = (None, skip_relationship rel
                   (''Source table '' @ [CHR 0x27] @ r_source_table rel @ [CHR 0x27] @ '' not found in schema'')
                   ''MISSING_SOURCE_TABLE'' b)"
  by (simp add: build_single_relationship_def)

lemma bs_target_missing:
  "lookup (r_source_table rel) = Some si \<Longrightarrow> lookup (r_target_table rel) = None \<Longrightarrow>
   build_single_relationship rel lookup b = (None, skip_relationship rel
                   (''Target table '' @ [CHR 0x27] @ r_target_table rel @ [CHR 0x27] @ '' not found in schema'')
                   ''MISSING_TARGET_TABLE'' b)"
  by (simp add: build_single_relationship_def)

lemma bs_source_columns_missing:
  "lookup (r_source_table rel) = Some si \<Longrightarrow> lookup (r_target_table rel) = Some ti \<Longrightarrow>
   filter (\<lambda>col. ti_columns si col = None) (r_source_columns rel) \<noteq> [] \<Longrightarrow>
   build_single_relationship rel lookup b = (None, skip_relationship rel
                   (''Source columns not found: '' @
                     repr_list (filter (\<lambda>col. ti_columns si col = None) (r_source_columns rel)))
                   ''MISSING_SOURCE_COLUMNS'' b)"
  by (simp add: build_single_relationship_def)

lemma bs_target_columns_missing:
  "lookup (r_source_table rel) = Some si \<Longrightarrow> lookup (r_target_table rel) = Some ti \<Longrightarrow>
   filter (\<lambda>col. ti_columns si col = None) (r_source_columns rel) = [] \<Longrightarrow>
   filter (\<lambda>col. ti_columns ti col = None) (r_target_columns rel) \<noteq> [] \<Longrightarrow>
   build_single_relationship rel lookup b = (None, skip_relationship rel
                   (''Target columns not found: '' @
                     repr_list (filter (\<lambda>col. ti_columns ti col = None) (r_target_columns rel)))
                   ''MISSING_TARGET_COLUMNS'' b)"
  by (simp add: build_single_relationship_def)

lemma bs_count_mismatch:
  "lookup (r_source_table rel) = Some si \<Longrightarrow> lookup (r_target_table rel) = Some ti \<Longrightarrow>
   filter (\<lambda>col. ti_columns si col = None) (r_source_columns rel) = [] \<Longrightarrow>
   filter (\<lambda>col. ti_columns ti col = None) (r_target_columns rel) = [] \<Longrightarrow>
   length (r_source_columns rel) \<noteq> length (r_target_columns rel) \<Longrightarrow>
   build_single_relationship rel lookup b = (None, skip_relationship rel
                   (''Column count mismatch: '' @ str_nat (length (r_source_columns rel)) @
                    '' source, '' @ str_nat (length (r_target_columns rel)) @ '' target'')
                   ''COLUMN_COUNT_MISMATCH'' b)"
  by (simp add: build_single_relationship_def)

lemma bs_built:
  "lookup (r_source_table rel) = Some si \<Longrightarrow> lookup (r_target_table rel) = Some ti \<Longrightarrow>
   filter (\<lambda>col. ti_columns si col = None) (r_source_columns rel) = [] \<Longrightarrow>
   filter (\<lambda>col. ti_columns ti col = None) (r_target_columns rel) = [] \<Longrightarrow>
   length (r_source_columns rel) = length (r_target_columns rel) \<Longrightarrow>
   \<exists>b'. build_single_relationship rel lookup b =
       (Some (built_of rel (fst (determine_relationship_type rel si ti b))), b')
     \<and> skipped_relationships b' = skipped_relationships b
     \<and> built_relationships b' = built_relationships b
     \<and> (\<exists>ws. relationship_warnings b' =
            relationship_warnings (snd (determine_relationship_type rel si ti b)) @ ws)"
  using determine_fields[of rel si ti b "fst (determine_relationship_type rel si ti b)"
          "snd (determine_relationship_type rel si ti b)"]
  by (simp add: build_single_relationship_def built_of_def Let_def case_prod_beta
        rb_generate_warning_fields del: One_nat_def)

lemma build_single_cases:
  obtains (src) "lookup (r_source_table rel) = None"
  | (tgt) si where "lookup (r_source_table rel) = Some si" "lookup (r_target_table rel) = None"
  | (scols) si ti where "lookup (r_source_table rel) = Some si" "lookup (r_target_table rel) = Some ti"
      "filter (\<lambda>col. ti_columns si col = None) (r_source_columns rel) \<noteq> []"
  | (tcols) si ti where "lookup (r_source_table rel) = Some si" "lookup (r_target_table rel) = Some ti"
      "filter (\<lambda>col. ti_columns si col = None) (r_source_columns rel) = []"
      "filter (\<lambda>col. ti_columns ti col = None) (r_target_columns rel) \<noteq> []"
  | (count) si ti where "lookup (r_source_table rel) = Some si" "lookup (r_target_table rel) = Some ti"
      "filter (\<lambda>col. ti_columns si col = None) (r_source_columns rel) = []"
      "filter (\<lambda>col. ti_columns ti col = None) (r_target_columns rel) = []"
      "length (r_source_columns rel) \<noteq> length (r_target_columns rel)"
  | (ok) si ti where "lookup (r_source_table rel) = Some si" "lookup (r_target_table rel) = Some ti"
      "filter (\<lambda>col. ti_columns si col = None) (r_source_columns rel) = []"
      "filter (\<lambda>col. ti_columns ti col = None) (r_target_columns rel) = []"
      "length (r_source_columns rel) = length (r_target_columns rel)"
  by (cases "lookup (r_source_table rel)"; cases "lookup (r_target_table rel)") blast+

lemma build_single_Some:
  assumes "build_single_relationship rel lookup b = (Some r, b')"
  shows "\<exists>si ti. lookup (r_source_table rel) = Some si \<and> lookup (r_target_table rel) = Some ti
           \<and> (\<forall>c \<in> set (r_source_columns rel). ti_columns si c \<noteq> None)
           \<and> (\<forall>c \<in> set (r_target_columns rel). ti_columns ti c \<noteq> None)
           \<and> length (r_source_columns rel) = length (r_target_columns rel)
           \<and> r = built_of rel (fst (determine_relationship_type rel si ti b))
           \<and> skipped_relationships b' = skipped_relationships b
           \<and> built_relationships b' = built_relationships b
           \<and> (\<exists>ws. relationship_warnings b' =
                  relationship_warnings (snd (determine_relationship_type rel si ti b)) @ ws)"
proof (cases rule: build_single_cases[of lookup rel])
  case src
  note c = this
  from bs_source_missing[where lookup=lookup and rel=rel and b=b, OF c] assms show ?thesis by simp
next
  case (tgt si)
  note c = this
  from bs_target_missing[where lookup=lookup and rel=rel and b=b, OF c] assms show ?thesis by simp
next
  case (scols si ti)
  note c = this
  from bs_source_columns_missing[where lookup=lookup and rel=rel and b=b, OF c] assms show ?thesis by simp
next
  case (tcols si ti)
  note c = this
  from bs_target_columns_missing[where lookup=lookup and rel=rel and b=b, OF c] assms show ?thesis by simp
next
  case (count si ti)
  note c = this
  from bs_count_mismatch[where lookup=lookup and rel=rel and b=b, OF c] assms show ?thesis by simp
next
  case (ok si ti)
  note c = this
  from bs_built[where lookup=lookup and rel=rel and b=b, OF c] assms obtain ws where
    "r = built_of rel (fst (determine_relationship_type rel si ti b))"
    "skipped_relationships b' = skipped_relationships b"
    "built_relationships b' = built_relationships b"
    "relationship_warnings b' = relationship_warnings (snd (determine_relationship_type rel si ti b)) @ ws"
    by auto
  moreover from ok(3) have "\<forall>c \<in> set (r_source_columns rel). ti_columns si c \<noteq> None"
    by (simp add: filter_empty_conv)
  moreover from ok(4) have "\<forall>c \<in> set (r_target_columns rel). ti_columns ti c \<noteq> None"
    by (simp add: filter_empty_conv)
  ultimately show ?thesis using ok by blast
qed

lemma skip_result:
  "build_single_relationship rel lookup b = (None, skip_relationship rel reason stype b) \<Longrightarrow>
   build_single_relationship rel lookup b = (None, b') \<Longrightarrow>
   skipped_relationships b' = skipped_relationships b @
            [\<lparr>sk_relationship = rel, sk_reason = reason, skip_type = stype,
              sk_source_table = r_source_table rel, sk_target_table = r_target_table rel\<rparr>]
   \<and> built_relationships b' = built_relationships b"
  by (simp add: skip_relationship_fields)

lemma skip_exists:
  assumes "bs = (None, skip_relationship rel reason stype b)"
    and "bs = (None, b')"
    and "P \<longrightarrow> stype = X"
    and "Q \<longrightarrow> stype = Y"
  shows "\<exists>reason stype. skipped_relationships b' = skipped_relationships b @
            [\<lparr>sk_relationship = rel, sk_reason = reason, skip_type = stype,
              sk_source_table = r_source_table rel, sk_target_table = r_target_table rel\<rparr>]
          \<and> built_relationships b' = built_relationships b
          \<and> (P \<longrightarrow> stype = X)
          \<and> (Q \<longrightarrow> stype = Y)"
proof -
  from assms(1,2) have "b' = skip_relationship rel reason stype b" by simp
  then have A: "skipped_relationships b' = skipped_relationships b @
            [\<lparr>sk_relationship = rel, sk_reason = reason, skip_type = stype,
              sk_source_table = r_source_table rel, sk_target_table = r_target_table rel\<rparr>]"
    and B: "built_relationships b' = built_relationships b"
    by (simp_all add: skip_relationship_fields)
  show ?thesis
    apply (rule exI[where x=reason], rule exI[where x=stype])
    using A B assms(3,4) by (intro conjI)
qed

lemma build_single_None:
  assumes "build_single_relationship rel lookup b = (None, b')"
  shows "\<exists>reason stype. skipped_relationships b' = skipped_relationships b @
            [\<lparr>sk_relationship = rel, sk_reason = reason, skip_type = stype,
              sk_source_table = r_source_table rel, sk_target_table = r_target_table rel\<rparr>]
          \<and> built_relationships b' = built_relationships b
          \<and> (lookup (r_source_table rel) \<noteq> None \<and> lookup (r_target_table rel) = None
               \<longrightarrow> stype = ''MISSING_TARGET_TABLE'')
          \<and> (lookup (r_source_table rel) = None \<longrightarrow> stype = ''MISSING_SOURCE_TABLE'')"
proof (cases rule: build_single_cases[of lookup rel])
  case src
  note c = this
  show ?thesis
    by (rule skip_exists[OF bs_source_missing[where lookup=lookup and rel=rel and b=b, OF c] assms])
       (simp_all add: c)
next
  case (tgt si)
  note c = this
  show ?thesis
    by (rule skip_exists[OF bs_target_missing[where lookup=lookup and rel=rel and b=b, OF c] assms])
       (simp_all add: c)
next
  case (scols si ti)
  note c = this
  show ?thesis
    by (rule skip_exists[OF bs_source_columns_missing[where lookup=lookup and rel=rel and b=b, OF c] assms])
       (simp_all add: c)
next
  case (tcols si ti)
  note c = this
  show ?thesis
    by (rule skip_exists[OF bs_target_columns_missing[where lookup=lookup and rel=rel and b=b, OF c] assms])
       (simp_all add: c)
next
  case (count si ti)
  note c = this
  show ?thesis
    by (rule skip_exists[OF bs_count_mismatch[where lookup=lookup and rel=rel and b=b, OF c] assms])
       (simp_all add: c)
next
  case (ok si ti)
  note c = this
  from bs_built[where lookup=lookup and rel=rel and b=b, OF c] assms show ?thesis by auto
qed

lemma build_single_valid:
  "build_single_relationship rel lookup b = (Some r, b') \<Longrightarrow> valid_for lookup r"
  by (drule build_single_Some) (auto simp: valid_for_def built_of_def)

lemma build_all_inv:
  "build_all rels lookup b = b' \<Longrightarrow>
   \<forall>r \<in> set (built_relationships b). valid_for lookup r \<Longrightarrow>
   (\<forall>r \<in> set (built_relationships b'). valid_for lookup r)
   \<and> (\<exists>sks. skipped_relationships b' = skipped_relationships b @ sks \<and>
        (\<forall>rel \<in> set rels. lookup (r_source_table rel) \<noteq> None \<and> lookup (r_target_table rel) = None
           \<longrightarrow> (\<exists>sk \<in> set sks. sk_relationship sk = rel \<and> skip_type sk = ''MISSING_TARGET_TABLE'')))"
proof (induction rels arbitrary: b)
  case Nil
  then show ?case by simp
next
  case (Cons rel rels)
  obtain r b1 where s: "build_single_relationship rel lookup b = (r, b1)" by force
  define b2 where "b2 = (case r of None \<Rightarrow> b1
            | Some built \<Rightarrow> b1\<lparr>built_relationships := built_relationships b1 @ [built]\<rparr>)"
  have rest: "build_all rels lookup b2 = b'"
    using Cons.prems(1) s by (simp add: b2_def)
  show ?case
  proof (cases r)
    case None
    from build_single_None[OF s[unfolded None]] obtain reason stype where
      sk: "skipped_relationships b1 = skipped_relationships b @
            [\<lparr>sk_relationship = rel, sk_reason = reason, skip_type = stype,
              sk_source_table = r_source_table rel, sk_target_table = r_target_table rel\<rparr>]"
      and bl: "built_relationships b1 = built_relationships b"
      and st: "lookup (r_source_table rel) \<noteq> None \<and> lookup (r_target_table rel) = None
               \<longrightarrow> stype = ''MISSING_TARGET_TABLE''" by blast
    have b2: "b2 = b1" by (simp add: b2_def None)
    have "\<forall>r \<in> set (built_relationships b2). valid_for lookup r"
      using Cons.prems(2) bl b2 by simp
    from Cons.IH[OF rest this] obtain sks where
      v: "\<forall>r \<in> set (built_relationships b'). valid_for lookup r"
      and sks: "skipped_relationships b' = skipped_relationships b2 @ sks"
      and all: "\<forall>rel \<in> set rels. lookup (r_source_table rel) \<noteq> None \<and> lookup (r_target_table rel) = None
           \<longrightarrow> (\<exists>sk \<in> set sks. sk_relationship sk = rel \<and> skip_type sk = ''MISSING_TARGET_TABLE'')"
      by blast
    let ?rec = "\<lparr>sk_relationship = rel, sk_reason = reason, skip_type = stype,
              sk_source_table = r_source_table rel, sk_target_table = r_target_table rel\<rparr>"
    have "skipped_relationships b' = skipped_relationships b @ (?rec # sks)"
      using sks sk b2 by simp
    moreover have "\<forall>rel' \<in> set (rel # rels). lookup (r_source_table rel') \<noteq> None \<and> lookup (r_target_table rel') = None
           \<longrightarrow> (\<exists>sk \<in> set (?rec # sks). sk_relationship sk = rel' \<and> skip_type sk = ''MISSING_TARGET_TABLE'')"
      using all st by auto
    ultimately show ?thesis using v by blast
  next
    case (Some built)
    from build_single_Some[OF s[unfolded Some]] have
      sk: "skipped_relationships b1 = skipped_relationships b"
      and bl: "built_relationships b1 = built_relationships b"
      and ex: "lookup (r_source_table rel) \<noteq> None" "lookup (r_target_table rel) \<noteq> None" by auto
    have vb: "valid_for lookup built" using build_single_valid[OF s[unfolded Some]] .
    have b2: "b2 = b1\<lparr>built_relationships := built_relationships b1 @ [built]\<rparr>" by (simp add: b2_def Some)
    have "\<forall>r \<in> set (built_relationships b2). valid_for lookup r"
      using Cons.prems(2) bl b2 vb by simp
    from Cons.IH[OF rest this] obtain sks where
      v: "\<forall>r \<in> set (built_relationships b'). valid_for lookup r"
      and sks: "skipped_relationships b' = skipped_relationships b2 @ sks"
      and all: "\<forall>rel \<in> set rels. lookup (r_source_table rel) \<noteq> None \<and> lookup (r_target_table rel) = None
           \<longrightarrow> (\<exists>sk \<in> set sks. sk_relationship sk = rel \<and> skip_type sk = ''MISSING_TARGET_TABLE'')"
      by blast
    have "skipped_relationships b' = skipped_relationships b @ sks"
      using sks sk b2 by simp
    moreover have "\<forall>rel' \<in> set (rel # rels). lookup (r_source_table rel') \<noteq> None \<and> lookup (r_target_table rel') = None
           \<longrightarrow> (\<exists>sk \<in> set sks. sk_relationship sk = rel' \<and> skip_type sk = ''MISSING_TARGET_TABLE'')"
      using all ex by auto
    ultimately show ?thesis using v by blast
  qed
qed

lemma dedup_loop_inv:
  "dedup_loop rs seen acc b = (res, b') \<Longrightarrow>
   set res \<subseteq> set acc \<union> set rs \<and> skipped_relationships b' = skipped_relationships b"
proof (induction rs arbitrary: seen acc b)
  case Nil
  then show ?case by simp
next
  case (Cons r rs)
  show ?case
  proof (cases "create_relationship_signature r \<in> set seen")
    case True
    with Cons.prems have "dedup_loop rs seen acc (rb_generate_warning
                (''Duplicate relationship '' @ b_source_table r @ '' -> '' @ b_target_table r @
                 '' removed'') b) = (res, b')" by (simp add: Let_def)
    from Cons.IH[OF this] show ?thesis by (auto simp: rb_generate_warning_fields)
  next
    case False
    with Cons.prems have "dedup_loop rs (create_relationship_signature r # seen) (acc @ [r]) b = (res, b')"
      by (simp add: Let_def)
    from Cons.IH[OF this] show ?thesis by auto
  qed
qed

lemma deduplicate_inv:
  "set (built_relationships (deduplicate_relationships b)) \<subseteq> set (built_relationships b)
   \<and> skipped_relationships (deduplicate_relationships b) = skipped_relationships b"
proof -
  obtain res b1 where d: "dedup_loop (built_relationships b) [] [] b = (res, b1)" by force
  from dedup_loop_inv[OF d] show ?thesis
    by (simp add: deduplicate_relationships_def d)
qed

lemma build_all_source_missing:
  "build_all rels lookup b = b' \<Longrightarrow>
   \<exists>sks. skipped_relationships b' = skipped_relationships b @ sks \<and>
        (\<forall>rel \<in> set rels. lookup (r_source_table rel) = None
           \<longrightarrow> (\<exists>sk \<in> set sks. sk_relationship sk = rel \<and> skip_type sk = ''MISSING_SOURCE_TABLE''))"
proof (induction rels arbitrary: b)
  case Nil
  then show ?case by simp
next
  case (Cons rel rels)
  obtain r b1 where s: "build_single_relationship rel lookup b = (r, b1)" by force
  define b2 where "b2 = (case r of None \<Rightarrow> b1
            | Some built \<Rightarrow> b1\<lparr>built_relationships := built_relationships b1 @ [built]\<rparr>)"
  have rest: "build_all rels lookup b2 = b'"
    using Cons.prems(1) s by (simp add: b2_def)
  from Cons.IH[OF rest] obtain sks where
      sks: "skipped_relationships b' = skipped_relationships b2 @ sks"
      and all: "\<forall>rel \<in> set rels. lookup (r_source_table rel) = None
           \<longrightarrow> (\<exists>sk \<in> set sks. sk_relationship sk = rel \<and> skip_type sk = ''MISSING_SOURCE_TABLE'')"
      by blast
  show ?case
  proof (cases r)
    case None
    from build_single_None[OF s[unfolded None]] obtain reason stype where
      sk: "skipped_relationships b1 = skipped_relationships b @
            [\<lparr>sk_relationship = rel, sk_reason = reason, skip_type = stype,
              sk_source_table = r_source_table rel, sk_target_table = r_target_table rel\<rparr>]"
      and st: "lookup (r_source_table rel) = None \<longrightarrow> stype = ''MISSING_SOURCE_TABLE''" by auto
    have b2: "b2 = b1" by (simp add: b2_def None)
    let ?rec = "\<lparr>sk_relationship = rel, sk_reason = reason, skip_type = stype,
              sk_source_table = r_source_table rel, sk_target_table = r_target_table rel\<rparr>"
    have "skipped_relationships b' = skipped_relationships b @ (?rec # sks)"
      using sks sk b2 by simp
    moreover have "\<forall>rel' \<in> set (rel # rels). lookup (r_source_table rel') = None
           \<longrightarrow> (\<exists>sk \<in> set (?rec # sks). sk_relationship sk = rel' \<and> skip_type sk = ''MISSING_SOURCE_TABLE'')"
      using all st by auto
    ultimately show ?thesis by blast
  next
    case (Some built)
    from build_single_Some[OF s[unfolded Some]] have
      sk: "skipped_relationships b1 = skipped_relationships b"
      and ex: "lookup (r_source_table rel) \<noteq> None" by auto
    have b2: "b2 = b1\<lparr>built_relationships := built_relationships b1 @ [built]\<rparr>" by (simp add: b2_def Some)
    have "skipped_relationships b' = skipped_relationships b @ sks"
      using sks sk b2 by simp
    moreover have "\<forall>rel' \<in> set (rel # rels). lookup (r_source_table rel') = None
           \<longrightarrow> (\<exists>sk \<in> set sks. sk_relationship sk = rel' \<and> skip_type sk = ''MISSING_SOURCE_TABLE'')"
      using all ex by auto
    ultimately show ?thesis by blast
  qed
qed

lemma valid_for_tables:
  assumes "valid_for (create_table_lookup tables) r"
  shows "(\<exists>t \<in> set tables. table_name t = b_source_table r \<and>
            set (b_source_columns r) \<subseteq> column_name ` set (columns_of t)) \<and>
         (\<exists>t \<in> set tables. table_name t = b_target_table r \<and>
            set (b_target_columns r) \<subseteq> column_name ` set (columns_of t))"
proof -
  from assms obtain si ti where
    si: "create_table_lookup tables (b_source_table r) = Some si"
    and ti: "create_table_lookup tables (b_target_table r) = Some ti"
    and sc: "\<forall>c \<in> set (b_source_columns r). ti_columns si c \<noteq> None"
    and tc: "\<forall>c \<in> set (b_target_columns r). ti_columns ti c \<noteq> None"
    by (auto simp: valid_for_def)
  from create_table_lookup_Some[OF si] obtain ts where
    ts: "ts \<in> set tables" "table_name ts = b_source_table r" "ti_columns si = column_dict (columns_of ts)"
    by blast
  from create_table_lookup_Some[OF ti] obtain tt where
    tt: "tt \<in> set tables" "table_name tt = b_target_table r" "ti_columns ti = column_dict (columns_of tt)"
    by blast
  have "set (b_source_columns r) \<subseteq> column_name ` set (columns_of ts)"
  proof
    fix c assume "c \<in> set (b_source_columns r)"
    with sc ts(3) obtain col where "column_dict (columns_of ts) c = Some col" by auto
    from column_dict_Some[OF this] show "c \<in> column_name ` set (columns_of ts)" by auto
  qed
  moreover have "set (b_target_columns r) \<subseteq> column_name ` set (columns_of tt)"
  proof
    fix c assume "c \<in> set (b_target_columns r)"
    with tc tt(3) obtain col where "column_dict (columns_of tt) c = Some col" by auto
    from column_dict_Some[OF this] show "c \<in> column_name ` set (columns_of tt)" by auto
  qed
  ultimately show ?thesis using ts tt by blast
qed

lemma build_relationships_general:
  assumes "build_relationships rels tables b = (result, b')"
  shows "(\<forall>r \<in> set result. valid_for (create_table_lookup tables) r)
       \<and> (\<forall>rel \<in> set rels. r_source_table rel \<in> table_name ` set tables \<and>
              r_target_table rel \<notin> table_name ` set tables \<longrightarrow>
            (\<exists>sk \<in> set (skipped_relationships b'). sk_relationship sk = rel \<and> skip_type sk = ''MISSING_TARGET_TABLE''))
       \<and> (\<forall>rel \<in> set rels. r_source_table rel \<notin> table_name ` set tables \<longrightarrow>
            (\<exists>sk \<in> set (skipped_relationships b'). sk_relationship sk = rel \<and> skip_type sk = ''MISSING_SOURCE_TABLE''))"
proof -
  let ?lookup = "create_table_lookup tables"
  define b0 where "b0 = b\<lparr>built_relationships := [], skipped_relationships := [], relationship_warnings := []\<rparr>"
  define b1 where "b1 = build_all rels ?lookup b0"
  have res: "result = built_relationships (deduplicate_relationships b1)" "b' = deduplicate_relationships b1"
    using assms by (auto simp: build_relationships_def b0_def b1_def Let_def)
  have e: "\<forall>r \<in> set (built_relationships b0). valid_for ?lookup r" by (simp add: b0_def)
  from build_all_inv[OF b1_def[symmetric] e] obtain sks where
    v: "\<forall>r \<in> set (built_relationships b1). valid_for ?lookup r"
    and sks: "skipped_relationships b1 = skipped_relationships b0 @ sks"
    and all: "\<forall>rel \<in> set rels. ?lookup (r_source_table rel) \<noteq> None \<and> ?lookup (r_target_table rel) = None
           \<longrightarrow> (\<exists>sk \<in> set sks. sk_relationship sk = rel \<and> skip_type sk = ''MISSING_TARGET_TABLE'')"
    by blast
  from build_all_source_missing[OF b1_def[symmetric]] obtain sks2 where
    sks2: "skipped_relationships b1 = skipped_relationships b0 @ sks2"
    and all2: "\<forall>rel \<in> set rels. ?lookup (r_source_table rel) = None
           \<longrightarrow> (\<exists>sk \<in> set sks2. sk_relationship sk = rel \<and> skip_type sk = ''MISSING_SOURCE_TABLE'')"
    by blast
  have sk': "skipped_relationships b' = sks" "skipped_relationships b' = sks2"
    using deduplicate_inv[of b1] sks sks2 res by (simp_all add: b0_def)
  have "\<forall>r \<in> set result. valid_for ?lookup r"
    using deduplicate_inv[of b1] v res by auto
  moreover have "\<forall>rel \<in> set rels. r_source_table rel \<in> table_name ` set tables \<and>
              r_target_table rel \<notin> table_name ` set tables \<longrightarrow>
            (\<exists>sk \<in> set (skipped_relationships b'). sk_relationship sk = rel \<and> skip_type sk = ''MISSING_TARGET_TABLE'')"
    using all sk'(1) by (simp add: create_table_lookup_None)
  moreover have "\<forall>rel \<in> set rels. r_source_table rel \<notin> table_name ` set tables \<longrightarrow>
            (\<exists>sk \<in> set (skipped_relationships b'). sk_relationship sk = rel \<and> skip_type sk = ''MISSING_SOURCE_TABLE'')"
    using all2 sk'(2) by (simp add: create_table_lookup_None)
  ultimately show ?thesis by blast
qed

text \<open>
  Claim C2 (as amended). Every relationship that \<^verbatim>\<open>build_relationships\<close> returns has a
  source table and a target table in the table list, with all its source and target
  columns among the columns of those tables. A candidate whose target table is not in
  the list is not returned (no returned relationship has that target table) and is
  recorded as skipped: with skip type \<^verbatim>\<open>MISSING_TARGET_TABLE\<close> when its source table is
  in the list, and with \<^verbatim>\<open>MISSING_SOURCE_TABLE\<close> when the source table is missing too,
  since the source is checked first.
\<close>
theorem build_relationships_endpoints:
  assumes "build_relationships rels tables b = (result, b')"
  shows "(\<forall>r \<in> set result.
            (\<exists>t \<in> set tables. table_name t = b_source_table r \<and>
               set (b_source_columns r) \<subseteq> column_name ` set (columns_of t)) \<and>
            (\<exists>t \<in> set tables. table_name t = b_target_table r \<and>
               set (b_target_columns r) \<subseteq> column_name ` set (columns_of t)))
       \<and> (\<forall>rel \<in> set rels. r_target_table rel \<notin> table_name ` set tables \<longrightarrow>
            (\<forall>r \<in> set result. b_target_table r \<noteq> r_target_table rel) \<and>
            (\<exists>sk \<in> set (skipped_relationships b'). sk_relationship sk = rel \<and>
               skip_type sk = (if r_source_table rel \<in> table_name ` set tables
                               then ''MISSING_TARGET_TABLE'' else ''MISSING_SOURCE_TABLE'')))"
proof -
  from build_relationships_general[OF assms] have
    v: "\<forall>r \<in> set result. valid_for (create_table_lookup tables) r"
    and t: "\<forall>rel \<in> set rels. r_source_table rel \<in> table_name ` set tables \<and>
              r_target_table rel \<notin> table_name ` set tables \<longrightarrow>
            (\<exists>sk \<in> set (skipped_relationships b'). sk_relationship sk = rel \<and> skip_type sk = ''MISSING_TARGET_TABLE'')"
    and s: "\<forall>rel \<in> set rels. r_source_table rel \<notin> table_name ` set tables \<longrightarrow>
            (\<exists>sk \<in> set (skipped_relationships b'). sk_relationship sk = rel \<and> skip_type sk = ''MISSING_SOURCE_TABLE'')"
    by blast+
  have a: "\<forall>r \<in> set result.
            (\<exists>t \<in> set tables. table_name t = b_source_table r \<and>
               set (b_source_columns r) \<subseteq> column_name ` set (columns_of t)) \<and>
            (\<exists>t \<in> set tables. table_name t = b_target_table r \<and>
               set (b_target_columns r) \<subseteq> column_name ` set (columns_of t))"
    using v valid_for_tables by blast
  have b: "\<forall>rel \<in> set rels. r_target_table rel \<notin> table_name ` set tables \<longrightarrow>
            (\<forall>r \<in> set result. b_target_table r \<noteq> r_target_table rel)"
    using a by force
  have c: "\<forall>rel \<in> set rels. r_target_table rel \<notin> table_name ` set tables \<longrightarrow>
            (\<exists>sk \<in> set (skipped_relationships b'). sk_relationship sk = rel \<and>
               skip_type sk = (if r_source_table rel \<in> table_name ` set tables
                               then ''MISSING_TARGET_TABLE'' else ''MISSING_SOURCE_TABLE''))"
  proof (intro ballI impI)
    fix rel assume rel: "rel \<in> set rels" and nt: "r_target_table rel \<notin> table_name ` set tables"
    show "\<exists>sk \<in> set (skipped_relationships b'). sk_relationship sk = rel \<and>
               skip_type sk = (if r_source_table rel \<in> table_name ` set tables
                               then ''MISSING_TARGET_TABLE'' else ''MISSING_SOURCE_TABLE'')"
    proof (cases "r_source_table rel \<in> table_name ` set tables")
      case True
      with t rel nt show ?thesis by simp
    next
      case False
      with s rel show ?thesis by simp
    qed
  qed
  from a b c show ?thesis by blast
qed

lemmas rb_eval = build_relationships_def create_table_lookup_def column_dict_def columns_of_def
  build_single_relationship_def skip_relationship_def rb_generate_warning_def
  determine_relationship_type_def columns_are_unique_def constraints_of_def names_of_def
  deduplicate_relationships_def create_relationship_signature_def init_builder_def Let_def

theorem build_relationships_endpoints_witness:
  "map (\<lambda>r. (b_source_table r, b_source_columns r, b_target_table r, b_target_columns r))
     (fst (build_relationships [posts_users, posts_ghost] [users_table, posts_table] init_builder))
     = [(''posts'', [''user_id''], ''users'', [''id''])]
   \<and> map skip_type (skipped_relationships
        (snd (build_relationships [posts_users, posts_ghost] [users_table, posts_table] init_builder)))
     = [''MISSING_TARGET_TABLE'']"
  using build_relationships_endpoints [of "[posts_users, posts_ghost]" "[users_table, posts_table]" init_builder
      "fst (build_relationships [posts_users, posts_ghost] [users_table, posts_table] init_builder)"
      "snd (build_relationships [posts_users, posts_ghost] [users_table, posts_table] init_builder)"]
  by (simp add: rb_eval users_table_def posts_table_def posts_users_def posts_ghost_def)

text \<open>
  The claim as stated fails: a candidate whose source and target tables are both
  missing is recorded with skip type \<^verbatim>\<open>MISSING_SOURCE_TABLE\<close> only.
\<close>

theorem missing_target_not_always_recorded:
  "r_target_table orphan_ghost \<notin> table_name ` set [users_table]
   \<and> fst (build_relationships [orphan_ghost] [users_table] init_builder) = []
   \<and> map skip_type (skipped_relationships
        (snd (build_relationships [orphan_ghost] [users_table] init_builder)))
     = [''MISSING_SOURCE_TABLE'']
   \<and> \<not> (\<exists>sk \<in> set (skipped_relationships
        (snd (build_relationships [orphan_ghost] [users_table] init_builder))).
          skip_type sk = ''MISSING_TARGET_TABLE'')"
  by (simp add: rb_eval users_table_def orphan_ghost_def)





section \<open>TypeMapper\<close>

record mapper =
  transformations_applied :: "transformation list"
  tm_warnings_generated :: "string list"

definition init_mapper :: mapper where
  "init_mapper = \<lparr>transformations_applied = [], tm_warnings_generated = []\<rparr>"

text \<open>The mapping matrix \<^verbatim>\<open>self.type_map\<close>, in the order of the source.\<close>

definition type_map :: "(string \<times> string) list" where
  "type_map =
    [(''integer'', ''int4''), (''int'', ''int4''), (''int4'', ''int4''),
     (''bigint'', ''int8''), (''int8'', ''int8''),
     (''smallint'', ''int2''), (''int2'', ''int2''),
     (''boolean'', ''bool''), (''bool'', ''bool''),
     (''text'', ''text''), (''varchar'', ''varchar''),
     (''char'', ''bpchar''), (''bpchar'', ''bpchar''),
     (''date'', ''date''), (''timestamp'', ''timestamp''), (''timestamptz'', ''timestamptz''),
     (''time'', ''time''), (''timetz'', ''timetz''), (''interval'', ''interval''),
     (''json'', ''json''), (''jsonb'', ''jsonb''), (''uuid'', ''uuid''),
     (''numeric'', ''numeric''), (''decimal'', ''numeric''),
     (''real'', ''float4''), (''float4'', ''float4''), (''float8'', ''float8''),
     (''float'', ''float8''), (''double'', ''float8''),
     (''serial'', ''int4''), (''bigserial'', ''int8''), (''smallserial'', ''int2''),
     (''inet'', ''inet''), (''cidr'', ''cidr''), (''macaddr'', ''macaddr''),
     (''macaddr8'', ''macaddr8''), (''point'', ''point''), (''line'', ''line''),
     (''lseg'', ''lseg''), (''box'', ''box''), (''path'', ''path''),
     (''polygon'', ''polygon''), (''circle'', ''circle''), (''bytea'', ''bytea''),
     (''money'', ''money''),
     (''int4range'', ''int4range''), (''int8range'', ''int8range''),
     (''numrange'', ''numrange''), (''tsrange'', ''tsrange''),
     (''tstzrange'', ''tstzrange''), (''daterange'', ''daterange''),
     (''tsvector'', ''tsvector''), (''tsquery'', ''tsquery''), (''xml'', ''xml''),
     (''pg_lsn'', ''pg_lsn''),
     (''bit'', ''bit''), (''varbit'', ''varbit''),
     (''int4multirange'', ''text''), (''int8multirange'', ''text''),
     (''nummultirange'', ''text''), (''tsmultirange'', ''text''),
     (''datemultirange'', ''text''),
     (''hstore'', ''text''), (''ltree'', ''text''), (''cube'', ''text''),
     (''isbn'', ''text''), (''issn'', ''text'')]"

definition semantic_loss_types :: "(string \<times> string) list" where
  "semantic_loss_types =
    [(''int4multirange'', ''PostgreSQL multirange types not supported in DBML''),
     (''int8multirange'', ''PostgreSQL multirange types not supported in DBML''),
     (''nummultirange'', ''PostgreSQL multirange types not supported in DBML''),
     (''tsmultirange'', ''PostgreSQL multirange types not supported in DBML''),
     (''datemultirange'', ''PostgreSQL multirange types not supported in DBML''),
     (''hstore'', ''PostgreSQL hstore extension type causes semantic loss in DBML''),
     (''ltree'', ''PostgreSQL ltree extension type causes semantic loss in DBML''),
     (''cube'', ''PostgreSQL cube extension type causes semantic loss in DBML''),
     (''isbn'', ''PostgreSQL ISBN extension type causes semantic loss in DBML''),
     (''issn'', ''PostgreSQL ISSN extension type causes semantic loss in DBML'')]"

text \<open>\<^verbatim>\<open>s.replace('[]', '')\<close>: every occurrence, left to right, is removed.\<close>

fun remove_brackets :: "string \<Rightarrow> string" where
  "remove_brackets (a # b # cs) =
     (if a = CHR ''['' \<and> b = CHR '']'' then remove_brackets cs else a # remove_brackets (b # cs))"
| "remove_brackets cs = cs"

text \<open>The pattern classes \<^verbatim>\<open>[a-zA-Z_]\<close> and \<^verbatim>\<open>[a-zA-Z0-9_]\<close>.\<close>

definition is_ident_start :: "char \<Rightarrow> bool" where
  "is_ident_start c = (let n = (of_char c :: nat) in
     (65 \<le> n \<and> n \<le> 90) \<or> (97 \<le> n \<and> n \<le> 122) \<or> n = 95)"

definition is_ident_char :: "char \<Rightarrow> bool" where
  "is_ident_char c = (let n = (of_char c :: nat) in
     (65 \<le> n \<and> n \<le> 90) \<or> (97 \<le> n \<and> n \<le> 122) \<or> n = 95 \<or> (48 \<le> n \<and> n \<le> 57))"

text \<open>
  \<^verbatim>\<open>re.match(r'([a-zA-Z_][a-zA-Z0-9_]*)\s*\(([^)]+)\)', pg_type)\<close>: the two groups, when
  the text starts with an identifier, optional white space and a non-empty
  parenthesised parameter text. Each greedy class is followed by a character outside
  it, so the match is unique.
\<close>

definition match_type_params :: "string \<Rightarrow> (string \<times> string) option" where
  "match_type_params s =
     (case s of
        [] \<Rightarrow> None
      | c # cs \<Rightarrow>
          if \<not> is_ident_start c then None
          else (case dropWhile is_space (dropWhile is_ident_char cs) of
                  [] \<Rightarrow> None
                | p # rest \<Rightarrow>
                    if p \<noteq> CHR ''('' then None
                    else let params = takeWhile (\<lambda>x. x \<noteq> CHR '')'') rest in
                      if params \<noteq> [] \<and> dropWhile (\<lambda>x. x \<noteq> CHR '')'') rest \<noteq> []
                      then Some (c # takeWhile is_ident_char cs, params)
                      else None))"

definition extract_type_components :: "string \<Rightarrow> string \<times> string option" where
  "extract_type_components pg_type =
     (let is_array = py_in ''[]'' pg_type;
          pg_type1 = (if is_array then strip (remove_brackets pg_type) else pg_type);
          (base_type, params) =
            (case match_type_params pg_type1 of
               Some (b, p) \<Rightarrow> (b, Some p)
             | None \<Rightarrow> (strip pg_type1, None))
      in (if is_array then base_type @ ''[]'' else base_type, params))"

definition is_array_type :: "string \<Rightarrow> bool" where
  "is_array_type pg_type = py_in ''[]'' pg_type"

definition convert_native_array_type :: "string \<Rightarrow> string" where
  "convert_native_array_type pg_type =
     (let element_type = strip (remove_brackets pg_type);
          mapped_element = (case map_of type_map (lower element_type) of
                              Some m \<Rightarrow> m | None \<Rightarrow> element_type)
      in [CHR 0x22] @ mapped_element @ ''[]'' @ [CHR 0x22])"

definition handle_array_type :: "string \<Rightarrow> (string \<rightharpoonup> string) \<Rightarrow> string \<times> string list" where
  "handle_array_type pg_type decisions =
     (let strategy = (case decisions ''ARRAY_TYPE'' of None \<Rightarrow> ''native'' | Some v \<Rightarrow> v)
      in if strategy = ''native'' then (convert_native_array_type pg_type, [])
         else if strategy = ''text_fallback''
           then (''text'', [''Array type '' @ [CHR 0x27] @ pg_type @ [CHR 0x27] @
                             '' flattened to text - array semantics lost''])
         else (convert_native_array_type pg_type, []))"

definition transform_single_type ::
  "string \<Rightarrow> (string \<rightharpoonup> string) \<Rightarrow> string set \<Rightarrow> string \<times> string list" where
  "transform_single_type pg_type decisions enum_types =
     (let (base_type, params) = extract_type_components pg_type in
      if lower base_type \<in> enum_types then (base_type, [])
      else if is_array_type pg_type then handle_array_type pg_type decisions
      else (case map_of type_map (lower base_type) of
              Some mapped \<Rightarrow>
                (let dbml_type =
                       (case params of
                          Some p \<Rightarrow> (if mapped \<in> set [''varchar'', ''char'', ''numeric'', ''decimal'']
                                     then mapped @ ''('' @ p @ '')'' else mapped)
                        | None \<Rightarrow> mapped);
                     warnings =
                       (case map_of semantic_loss_types (lower base_type) of
                          Some why \<Rightarrow> [''Type '' @ [CHR 0x27] @ pg_type @ [CHR 0x27] @
                                       '' converted to '' @ [CHR 0x27] @ ''text'' @ [CHR 0x27] @
                                       '' - '' @ why]
                        | None \<Rightarrow> [])
                 in (dbml_type, warnings))
            | None \<Rightarrow> (''text'', [''Unknown type '' @ [CHR 0x27] @ pg_type @ [CHR 0x27] @
                                  '' converted to '' @ [CHR 0x27] @ ''text'' @ [CHR 0x27]])))"

text \<open>The default decisions of \<^verbatim>\<open>transform_types\<close>: \<^verbatim>\<open>{'ARRAY_TYPE': 'native'}\<close>.\<close>

definition default_decisions :: "string \<rightharpoonup> string" where
  "default_decisions = [''ARRAY_TYPE'' \<mapsto> ''native'']"

text \<open>The form \<^verbatim>\<open>^".+ \[\]"$\<close>: a double quote, a non-empty element text without a line
  break, a space, the two brackets and a double quote; \<^verbatim>\<open>$\<close> also accepts one line break
  after it.\<close>

definition spaced_array_line :: "string \<Rightarrow> bool" where
  "spaced_array_line s =
     (6 \<le> length s \<and> hd s = CHR 0x22 \<and> drop (length s - 4) s = '' []'' @ [CHR 0x22]
      \<and> CHR 0x0A \<notin> set (take (length s - 5) (tl s)))"

definition spaced_array_form :: "string \<Rightarrow> bool" where
  "spaced_array_form s =
     (spaced_array_line s \<or> (s \<noteq> [] \<and> last s = CHR 0x0A \<and> spaced_array_line (butlast s)))"

section \<open>Proofs: the type mapper\<close>

lemmas tm_eval = transform_single_type_def extract_type_components_def match_type_params_def
  is_array_type_def handle_array_type_def convert_native_array_type_def default_decisions_def
  strip_def lstrip_def rstrip_def is_space_def lower_def lower_char_def is_ident_start_def
  is_ident_char_def type_map_def semantic_loss_types_def spaced_array_form_def spaced_array_line_def Let_def

text \<open>
  Claim C5, the code at the failing input. Under the native array strategy the mapper
  turns \<^verbatim>\<open>text[]\<close> into the quoted text \<^verbatim>\<open>"text[]"\<close>, with no space before the
  brackets: the result is not of the form \<^verbatim>\<open>^".+ \[\]"$\<close>, which \<^verbatim>\<open>"text []"\<close> is.
\<close>
theorem native_array_has_no_space:
  "transform_single_type ''text[]'' default_decisions {} =
     ([CHR 0x22] @ ''text[]'' @ [CHR 0x22], [])
   \<and> \<not> spaced_array_form (fst (transform_single_type ''text[]'' default_decisions {}))
   \<and> spaced_array_form ([CHR 0x22] @ ''text []'' @ [CHR 0x22])"
  by (simp add: tm_eval)

text \<open>
  Claim C6, the code at the failing input. Mapping \<^verbatim>\<open>text[]\<close> gives \<^verbatim>\<open>"text[]"\<close>;
  mapping that result again wraps it once more, into \<^verbatim>\<open>""text"[]"\<close>: the mapper is
  not idempotent on an already-mapped array type.
\<close>
theorem remapping_array_not_idempotent:
  "fst (transform_single_type ''text[]'' default_decisions {}) = [CHR 0x22] @ ''text[]'' @ [CHR 0x22]
   \<and> fst (transform_single_type (fst (transform_single_type ''text[]'' default_decisions {}))
            default_decisions {})
       = [CHR 0x22, CHR 0x22] @ ''text'' @ [CHR 0x22] @ ''[]'' @ [CHR 0x22]
   \<and> fst (transform_single_type (fst (transform_single_type ''text[]'' default_decisions {}))
            default_decisions {})
       \<noteq> fst (transform_single_type ''text[]'' default_decisions {})"
  by (simp add: tm_eval)

section \<open>TypeMapper: transforming a schema\<close>

definition get_transformation_reason :: "string \<Rightarrow> string \<Rightarrow> string" where
  "get_transformation_reason original transformed =
     (if py_in ''[]'' original then ''Array type syntax incompatibility''
      else if lower original \<in> set [''inet'', ''cidr'', ''macaddr'', ''tsvector'', ''xml'']
        then ''PostgreSQL-specific type not supported in DBML''
      else if py_in ''with time zone'' original \<or> py_in ''without time zone'' original
        then ''Multi-word type converted to alias''
      else ''DBML compatibility'')"

definition log_transformation :: "string \<Rightarrow> string \<Rightarrow> string \<Rightarrow> string \<Rightarrow> mapper \<Rightarrow> mapper" where
  "log_transformation tname cname original transformed m =
     m\<lparr>transformations_applied := transformations_applied m @
          [\<lparr>tr_table = tname, tr_column = cname, tr_original_type = original,
            tr_transformed_type = transformed,
            transformation_reason = get_transformation_reason original transformed\<rparr>]\<rparr>"

text \<open>The body of the inner loop of \<^verbatim>\<open>transform_types\<close>, for one column of a table.\<close>

definition transform_column ::
  "(string \<rightharpoonup> string) \<Rightarrow> string set \<Rightarrow> string \<Rightarrow> column \<Rightarrow> mapper \<Rightarrow> column \<times> mapper" where
  "transform_column decisions enum_types tname col m =
     (let original_type = data_type col;
          (transformed_type, warnings) = transform_single_type original_type decisions enum_types;
          col1 = col\<lparr>data_type := transformed_type\<rparr>;
          (col2, m1) =
            (if original_type \<noteq> transformed_type
             then (col1\<lparr>original_type := Some original_type\<rparr>,
                   log_transformation tname (column_name col) original_type transformed_type m)
             else (col1, m))
      in (col2, m1\<lparr>tm_warnings_generated := tm_warnings_generated m1 @ warnings\<rparr>))"

fun transform_columns ::
  "(string \<rightharpoonup> string) \<Rightarrow> string set \<Rightarrow> string \<Rightarrow> column list \<Rightarrow> mapper \<Rightarrow> column list \<times> mapper" where
  "transform_columns decisions enum_types tname [] m = ([], m)"
| "transform_columns decisions enum_types tname (col # cols) m =
     (let (col', m1) = transform_column decisions enum_types tname col m;
          (cols', m2) = transform_columns decisions enum_types tname cols m1
      in (col' # cols', m2))"

fun transform_tables ::
  "(string \<rightharpoonup> string) \<Rightarrow> string set \<Rightarrow> table list \<Rightarrow> mapper \<Rightarrow> table list \<times> mapper" where
  "transform_tables decisions enum_types [] m = ([], m)"
| "transform_tables decisions enum_types (t # ts) m =
     (let (cols', m1) = transform_columns decisions enum_types (table_name t) (columns_of t) m;
          (ts', m2) = transform_tables decisions enum_types ts m1
      in (t\<lparr>t_columns := map_option (\<lambda>_. cols') (t_columns t)\<rparr> # ts', m2))"

definition enum_lookup :: "enum list option \<Rightarrow> string set" where
  "enum_lookup es = set (map (\<lambda>e. lower (enum_name e)) (case es of None \<Rightarrow> [] | Some l \<Rightarrow> l))"

text \<open>\<^verbatim>\<open>decisions\<close> is \<open>None\<close> when the caller passes no decisions.\<close>

definition transform_types ::
  "schema \<Rightarrow> (string \<rightharpoonup> string) option \<Rightarrow> mapper \<Rightarrow> schema \<times> mapper" where
  "transform_types s decisions m =
     (let decisions1 = (case decisions of None \<Rightarrow> default_decisions | Some d \<Rightarrow> d);
          enum_types = enum_lookup (s_enums s);
          (ts, m1) = transform_tables decisions1 enum_types (tables_of s) m
      in (s\<lparr>s_tables := map_option (\<lambda>_. ts) (s_tables s),
            s_type_transformations := Some (transformations_applied m1),
            s_type_warnings := Some (tm_warnings_generated m1)\<rparr>, m1))"

section \<open>The transformer on a store of shared objects\<close>

text \<open>
  \<^verbatim>\<open>schema.copy()\<close> copies the top-level dictionary only: the list of tables, the table
  dictionaries and the column dictionaries of the copy are the objects of the input.
  Here tables and columns live in a store, and a schema holds the addresses of its
  tables, a table those of its columns. The top-level dictionary is a value: the copy
  is a new value, and assignments to its keys do not reach the input. Constraints stay
  values inside their table.
\<close>

record table_obj =
  to_name :: string
  to_columns :: "nat list option"
  to_constraints :: "constraint list option"

record store =
  tab :: "nat \<Rightarrow> table_obj"
  col :: "nat \<Rightarrow> column"

record sschema =
  so_tables :: "nat list option"
  so_constraints :: "constraint list option"
  so_enums :: "enum list option"
  so_dropped_constraints :: "drop_record list option"
  so_modified_constraints :: "modification_record list option"
  so_constraint_warnings :: "warning list option"
  so_type_transformations :: "transformation list option"
  so_type_warnings :: "string list option"

definition table_refs :: "sschema \<Rightarrow> nat list" where
  "table_refs s = (case so_tables s of None \<Rightarrow> [] | Some l \<Rightarrow> l)"

definition column_refs :: "table_obj \<Rightarrow> nat list" where
  "column_refs t = (case to_columns t of None \<Rightarrow> [] | Some l \<Rightarrow> l)"

definition obj_constraints :: "table_obj \<Rightarrow> constraint list" where
  "obj_constraints t = (case to_constraints t of None \<Rightarrow> [] | Some l \<Rightarrow> l)"

text \<open>What a reader of the schema sees in a store.\<close>

definition read_table :: "store \<Rightarrow> nat \<Rightarrow> table" where
  "read_table st a =
     \<lparr>table_name = to_name (tab st a),
      t_columns = map_option (map (col st)) (to_columns (tab st a)),
      t_constraints = to_constraints (tab st a)\<rparr>"

definition read_schema :: "store \<Rightarrow> sschema \<Rightarrow> schema" where
  "read_schema st s =
     \<lparr>s_tables = map_option (map (read_table st)) (so_tables s),
      s_constraints = so_constraints s, s_enums = so_enums s,
      s_dropped_constraints = so_dropped_constraints s,
      s_modified_constraints = so_modified_constraints s,
      s_constraint_warnings = so_constraint_warnings s,
      s_type_transformations = so_type_transformations s,
      s_type_warnings = so_type_warnings s\<rparr>"

subsection \<open>transform_types\<close>

text \<open>\<^verbatim>\<open>column['data_type'] = transformed_type\<close> writes into the column object.\<close>

definition transform_column_at ::
  "(string \<rightharpoonup> string) \<Rightarrow> string set \<Rightarrow> string \<Rightarrow> store \<times> mapper \<Rightarrow> nat \<Rightarrow> store \<times> mapper" where
  "transform_column_at decisions enum_types tname sm a =
     (let (st, m) = sm;
          (c', m') = transform_column decisions enum_types tname (col st a) m
      in (st\<lparr>col := (col st)(a := c')\<rparr>, m'))"

definition transform_table_at ::
  "(string \<rightharpoonup> string) \<Rightarrow> string set \<Rightarrow> store \<times> mapper \<Rightarrow> nat \<Rightarrow> store \<times> mapper" where
  "transform_table_at decisions enum_types sm a =
     foldl (transform_column_at decisions enum_types (to_name (tab (fst sm) a))) sm
       (column_refs (tab (fst sm) a))"

definition transform_types_st ::
  "sschema \<Rightarrow> (string \<rightharpoonup> string) option \<Rightarrow> mapper \<Rightarrow> store \<Rightarrow> sschema \<times> mapper \<times> store" where
  "transform_types_st s decisions m st =
     (let decisions1 = (case decisions of None \<Rightarrow> default_decisions | Some d \<Rightarrow> d);
          enum_types = enum_lookup (so_enums s);
          (st1, m1) = foldl (transform_table_at decisions1 enum_types) (st, m) (table_refs s)
      in (s\<lparr>so_type_transformations := Some (transformations_applied m1),
            so_type_warnings := Some (tm_warnings_generated m1)\<rparr>, m1, st1))"

subsection \<open>process_constraints\<close>

text \<open>\<^verbatim>\<open>table['constraints'] = ...\<close> writes into the table object.\<close>

definition process_table_at :: "store \<times> handler \<Rightarrow> nat \<Rightarrow> store \<times> handler" where
  "process_table_at sh a =
     (let (st, h) = sh;
          t = tab st a;
          (cs, h1) = process_table_constraints (obj_constraints t) (Some (to_name t)) h
      in (st\<lparr>tab := (tab st)(a := t\<lparr>to_constraints := Some cs\<rparr>)\<rparr>, h1))"

definition mark_columns_at :: "(column \<Rightarrow> column) \<Rightarrow> store \<Rightarrow> nat list \<Rightarrow> store" where
  "mark_columns_at f st refs = foldl (\<lambda>st a. st\<lparr>col := (col st)(a := f (col st a))\<rparr>) st refs"

definition mark_tables_at ::
  "(column \<Rightarrow> column) \<Rightarrow> string option \<Rightarrow> nat list \<Rightarrow> store \<Rightarrow> store" where
  "mark_tables_at f tname trefs st =
     foldl (\<lambda>st a. if Some (to_name (tab st a)) = tname
                    then mark_columns_at f st (column_refs (tab st a)) else st) st trefs"

definition apply_constraint_at :: "nat list \<Rightarrow> store \<Rightarrow> constraint \<Rightarrow> store" where
  "apply_constraint_at trefs st c =
     (let columns = names_of c in
      if constraint_type c = Some ''p'' \<and> columns \<noteq> []
        then mark_tables_at (mark_pk_column columns) (constraint_table c) trefs st
      else if constraint_type c = Some ''u'' \<and> columns \<noteq> []
        then mark_tables_at (mark_unique_column columns) (constraint_table c) trefs st
      else st)"

text \<open>The first loop of \<^verbatim>\<open>_apply_constraints_to_columns\<close>: it writes
  \<^verbatim>\<open>source_table\<close> into the constraints of a table and collects them.\<close>

definition tag_table_at :: "store \<times> constraint list \<Rightarrow> nat \<Rightarrow> store \<times> constraint list" where
  "tag_table_at sa a =
     (let (st, acc) = sa;
          t = tab st a;
          t' = t\<lparr>to_constraints :=
                 map_option (map (\<lambda>c. c\<lparr>source_table := Some (to_name t)\<rparr>)) (to_constraints t)\<rparr>
      in (st\<lparr>tab := (tab st)(a := t')\<rparr>, acc @ obj_constraints t'))"

definition apply_constraints_to_columns_st :: "sschema \<Rightarrow> store \<Rightarrow> store" where
  "apply_constraints_to_columns_st s st =
     (let (st1, collected) = foldl tag_table_at (st, []) (table_refs s);
          all_constraints = collected @ (case so_constraints s of None \<Rightarrow> [] | Some cs \<Rightarrow> cs)
      in foldl (apply_constraint_at (table_refs s)) st1 all_constraints)"

definition process_constraints_st ::
  "sschema \<Rightarrow> handler \<Rightarrow> store \<Rightarrow> sschema \<times> handler \<times> store" where
  "process_constraints_st s h st =
     (let (st1, h1) = foldl process_table_at (st, h) (table_refs s);
          (s2, h2) = (case so_constraints s of
                        None \<Rightarrow> (s, h1)
                      | Some cs \<Rightarrow> (let (cs', h') = process_standalone_constraints cs h1
                                   in (s\<lparr>so_constraints := Some cs'\<rparr>, h')));
          st2 = apply_constraints_to_columns_st s2 st1
      in (s2\<lparr>so_dropped_constraints := Some (dropped_constraints h2),
             so_modified_constraints := Some (modified_constraints h2),
             so_constraint_warnings := Some (warnings_generated h2)\<rparr>, h2, st2))"

text \<open>Two stores with the same table names and the same column addresses in every table.\<close>

definition same_tables :: "store \<Rightarrow> store \<Rightarrow> bool" where
  "same_tables st st' \<longleftrightarrow>
     (\<forall>b. to_name (tab st' b) = to_name (tab st b) \<and> to_columns (tab st' b) = to_columns (tab st b))"

text \<open>All constraints of a schema as a store holds them: those of its tables, then the
  standalone ones.\<close>

definition store_constraints :: "store \<Rightarrow> sschema \<Rightarrow> constraint list" where
  "store_constraints st s =
     concat (map (\<lambda>a. obj_constraints (tab st a)) (table_refs s)) @
     (case so_constraints s of None \<Rightarrow> [] | Some cs \<Rightarrow> cs)"

text \<open>One table \<^verbatim>\<open>t\<close> at address 0 with the columns \<^verbatim>\<open>id serial\<close> (address 0) and
  \<^verbatim>\<open>name varchar(50)\<close> (address 1), and a standalone primary key on \<^verbatim>\<open>id\<close>.\<close>

definition shared_store :: store where
  "shared_store =
     \<lparr>tab = (\<lambda>_. \<lparr>to_name = ''t'', to_columns = Some [0, 1], to_constraints = Some []\<rparr>),
      col = (\<lambda>a. if a = 0
                  then \<lparr>column_name = ''id'', data_type = ''serial'', original_type = None,
                        is_primary_key = None, is_nullable = Some True, is_unique = None\<rparr>
                  else \<lparr>column_name = ''name'', data_type = ''text'', original_type = None,
                        is_primary_key = None, is_nullable = Some True, is_unique = None\<rparr>)\<rparr>"

definition t_pkey :: constraint where
  "t_pkey = \<lparr>constraint_type = Some ''p'', constraint_name = Has ''t_pkey'',
              c_table_name = Has ''t'', source_table = None, c_columns = Some [''id''],
              c_definition = Some ''PRIMARY KEY (id)'', check_expression = None\<rparr>"

definition shared_schema :: sschema where
  "shared_schema =
     \<lparr>so_tables = Some [0], so_constraints = Some [t_pkey], so_enums = Some [],
      so_dropped_constraints = None, so_modified_constraints = None,
      so_constraint_warnings = None, so_type_transformations = None, so_type_warnings = None\<rparr>"

text \<open>What \<^verbatim>\<open>transform_types\<close> writes into one column; the mapper's log plays no part.\<close>

definition transformed_column :: "(string \<rightharpoonup> string) \<Rightarrow> string set \<Rightarrow> column \<Rightarrow> column" where
  "transformed_column decisions enum_types c =
     (let t = fst (transform_single_type (data_type c) decisions enum_types) in
      if data_type c \<noteq> t then c\<lparr>data_type := t, original_type := Some (data_type c)\<rparr>
      else c\<lparr>data_type := t\<rparr>)"

text \<open>All column addresses of a schema, table by table, with repetitions.\<close>

definition all_column_refs :: "store \<Rightarrow> sschema \<Rightarrow> nat list" where
  "all_column_refs st s = concat (map (\<lambda>a. column_refs (tab st a)) (table_refs s))"

text \<open>Writing \<open>g\<close> of the old value at one address.\<close>

definition upd_at :: "('a \<Rightarrow> 'a) \<Rightarrow> (nat \<Rightarrow> 'a) \<Rightarrow> nat \<Rightarrow> (nat \<Rightarrow> 'a)" where
  "upd_at g f a = f(a := g (f a))"

text \<open>The flags a surviving constraint asks of a column.\<close>

definition flagged_by :: "constraint \<Rightarrow> column \<Rightarrow> bool" where
  "flagged_by c cl \<longleftrightarrow>
     (constraint_type c = Some ''p'' \<and> column_name cl \<in> set (names_of c) \<longrightarrow>
        is_primary_key cl = Some True \<and> is_nullable cl = Some False) \<and>
     (constraint_type c = Some ''u'' \<and> names_of c = [column_name cl] \<longrightarrow>
        is_unique cl = Some True)"

section \<open>Proofs: shared objects\<close>

lemma transform_column_fst:
  "fst (transform_column d e tn c m) = transformed_column d e c"
  by (simp add: transform_column_def transformed_column_def Let_def case_prod_beta)

lemma foldl_upd_count:
  "foldl (upd_at g) f0 refs a = (g ^^ count_list refs a) (f0 a)"
proof (induction refs arbitrary: f0)
  case Nil
  show ?case by simp
next
  case (Cons x xs)
  have "foldl (upd_at g) f0 (x # xs) a = (g ^^ count_list xs a) (upd_at g f0 x a)"
    by (simp add: Cons.IH)
  also have "\<dots> = (g ^^ count_list (x # xs) a) (f0 a)"
    by (simp add: upd_at_def funpow_swap1)
  finally show ?case .
qed

lemma transform_column_at_store:
  "fst (transform_column_at d e tn (st, m) a) = st\<lparr>col := upd_at (transformed_column d e) (col st) a\<rparr>"
  by (simp add: transform_column_at_def case_prod_beta transform_column_fst upd_at_def)

lemma foldl_transform_columns:
  "tab (fst (foldl (transform_column_at d e tn) (st, m) refs)) = tab st \<and>
   col (fst (foldl (transform_column_at d e tn) (st, m) refs)) =
     foldl (upd_at (transformed_column d e)) (col st) refs"
proof (induction refs arbitrary: st m)
  case Nil
  show ?case by simp
next
  case (Cons a refs)
  obtain st1 m1 where s: "transform_column_at d e tn (st, m) a = (st1, m1)" by force
  from transform_column_at_store[of d e tn st m a] s
  have st1: "st1 = st\<lparr>col := upd_at (transformed_column d e) (col st) a\<rparr>" by simp
  show ?case using Cons.IH[of st1 m1] by (simp add: s st1)
qed

lemma transform_table_at_store:
  "tab (fst (transform_table_at d e (st, m) a)) = tab st \<and>
   col (fst (transform_table_at d e (st, m) a)) =
     foldl (upd_at (transformed_column d e)) (col st) (column_refs (tab st a))"
  by (simp add: transform_table_at_def foldl_transform_columns)

lemma foldl_transform_tables:
  "tab (fst (foldl (transform_table_at d e) (st, m) trefs)) = tab st \<and>
   col (fst (foldl (transform_table_at d e) (st, m) trefs)) =
     foldl (upd_at (transformed_column d e)) (col st)
       (concat (map (\<lambda>a. column_refs (tab st a)) trefs))"
proof (induction trefs arbitrary: st m)
  case Nil
  show ?case by simp
next
  case (Cons a trefs)
  obtain st1 m1 where s: "transform_table_at d e (st, m) a = (st1, m1)" by force
  from transform_table_at_store[of d e st m a] s
  have t1: "tab st1 = tab st"
    and c1: "col st1 = foldl (upd_at (transformed_column d e)) (col st) (column_refs (tab st a))"
    by simp_all
  show ?case using Cons.IH[of st1 m1] by (simp add: s t1 c1)
qed

lemma transform_types_st_store:
  assumes "transform_types_st s decisions m st = (s', m', st')"
  shows "so_tables s' = so_tables s \<and> tab st' = tab st \<and>
         (\<forall>a. col st' a =
            (transformed_column (case decisions of None \<Rightarrow> default_decisions | Some d \<Rightarrow> d)
               (enum_lookup (so_enums s)) ^^ count_list (all_column_refs st s) a) (col st a))"
proof -
  let ?d = "case decisions of None \<Rightarrow> default_decisions | Some d \<Rightarrow> d"
  let ?e = "enum_lookup (so_enums s)"
  obtain st1 m1 where f: "foldl (transform_table_at ?d ?e) (st, m) (table_refs s) = (st1, m1)" by force
  from assms f have r: "s' = s\<lparr>so_type_transformations := Some (transformations_applied m1),
            so_type_warnings := Some (tm_warnings_generated m1)\<rparr>" "st' = st1"
    by (auto simp: transform_types_st_def Let_def)
  from foldl_transform_tables[of ?d ?e st m "table_refs s"] f
  have "tab st1 = tab st" and
    "col st1 = foldl (upd_at (transformed_column ?d ?e)) (col st) (all_column_refs st s)"
    by (simp_all add: all_column_refs_def)
  then show ?thesis using r by (simp add: foldl_upd_count)
qed

lemma flagged_by_mark_pk: "flagged_by c cl \<Longrightarrow> flagged_by c (mark_pk_column cols cl)"
  by (simp add: flagged_by_def mark_pk_column_def Let_def)

lemma flagged_by_mark_unique: "flagged_by c cl \<Longrightarrow> flagged_by c (mark_unique_column cols cl)"
  by (simp add: flagged_by_def mark_unique_column_def)

lemma mark_columns_at_col:
  "col (mark_columns_at f st refs) = foldl (upd_at f) (col st) refs \<and>
   tab (mark_columns_at f st refs) = tab st"
  unfolding mark_columns_at_def
  by (induction refs arbitrary: st) (simp_all add: upd_at_def)

lemma funpow_keeps: "(\<And>x. Q x \<Longrightarrow> Q (f x)) \<Longrightarrow> Q x \<Longrightarrow> Q ((f ^^ n) x)"
  by (induction n) simp_all

lemma mark_columns_at_keep:
  assumes "\<And>x. Q x \<Longrightarrow> Q (f x)" and "Q (col st ca)"
  shows "Q (col (mark_columns_at f st refs) ca)"
  using funpow_keeps[of Q f "col st ca" "count_list refs ca"] assms
  by (simp add: mark_columns_at_col foldl_upd_count)

lemma mark_columns_at_set:
  assumes "\<And>x. Q (f x)" and "ca \<in> set refs"
  shows "Q (col (mark_columns_at f st refs) ca)"
proof -
  from assms(2) obtain k where k: "count_list refs ca = Suc k"
    by (cases "count_list refs ca") (simp_all add: count_list_0_iff)
  show ?thesis using assms(1) by (simp add: mark_columns_at_col foldl_upd_count k)
qed

lemma mark_tables_at_tab: "tab (mark_tables_at f tname trefs st) = tab st"
  unfolding mark_tables_at_def
  by (induction trefs arbitrary: st) (simp_all add: mark_columns_at_col)

lemma mark_tables_at_keep:
  assumes "\<And>x. Q x \<Longrightarrow> Q (f x)" and "Q (col st ca)"
  shows "Q (col (mark_tables_at f tname trefs st) ca)"
  using assms(2) unfolding mark_tables_at_def
proof (induction trefs arbitrary: st)
  case Nil
  then show ?case by simp
next
  case (Cons a trefs)
  show ?case
    using Cons.IH Cons.prems mark_columns_at_keep[of Q f, OF assms(1)]
    by simp
qed

lemma mark_tables_at_set:
  assumes q: "\<And>x. Q (f x)"
    and a: "a \<in> set trefs" and n: "Some (to_name (tab st a)) = tname"
    and ca: "ca \<in> set (column_refs (tab st a))"
  shows "Q (col (mark_tables_at f tname trefs st) ca)"
  using a n ca
proof (induction trefs arbitrary: st)
  case Nil
  then show ?case by simp
next
  case (Cons x trefs)
  let ?st1 = "if Some (to_name (tab st x)) = tname
                then mark_columns_at f st (column_refs (tab st x)) else st"
  have step: "mark_tables_at f tname (x # trefs) st = mark_tables_at f tname trefs ?st1"
    by (simp add: mark_tables_at_def)
  have tab1: "tab ?st1 = tab st" by (simp add: mark_columns_at_col)
  show ?case
  proof (cases "a = x")
    case True
    with Cons.prems have "Q (col ?st1 ca)"
      by (simp add: mark_columns_at_set[of Q f, OF q])
    then show ?thesis
      unfolding step by (rule mark_tables_at_keep[of Q f, OF q])
  next
    case False
    with Cons.prems have "a \<in> set trefs" by simp
    from Cons.IH[OF this, of ?st1] Cons.prems(2,3) show ?thesis
      unfolding step tab1 by simp
  qed
qed

lemma apply_constraint_at_tab: "tab (apply_constraint_at trefs st c) = tab st"
  by (simp add: apply_constraint_at_def Let_def mark_tables_at_tab)

lemma apply_constraint_at_keep:
  "flagged_by c0 (col st ca) \<Longrightarrow> flagged_by c0 (col (apply_constraint_at trefs st c) ca)"
  by (simp add: apply_constraint_at_def Let_def
        mark_tables_at_keep[of "flagged_by c0", OF flagged_by_mark_pk]
        mark_tables_at_keep[of "flagged_by c0", OF flagged_by_mark_unique])

lemma flagged_after_pk: "constraint_type c = Some ''p'' \<Longrightarrow> flagged_by c (mark_pk_column (names_of c) x)"
  by (simp add: flagged_by_def mark_pk_column_def Let_def)

lemma flagged_after_unique: "constraint_type c = Some ''u'' \<Longrightarrow> flagged_by c (mark_unique_column (names_of c) x)"
  by (auto simp: flagged_by_def mark_unique_column_def)

lemma flagged_trivial:
  "\<not> (constraint_type c = Some ''p'' \<and> names_of c \<noteq> []) \<Longrightarrow>
   \<not> (constraint_type c = Some ''u'' \<and> names_of c \<noteq> []) \<Longrightarrow> flagged_by c x"
  by (auto simp: flagged_by_def)

lemma apply_constraint_at_set:
  assumes a: "a \<in> set trefs" and n: "constraint_table c = Some (to_name (tab st a))"
    and ca: "ca \<in> set (column_refs (tab st a))"
  shows "flagged_by c (col (apply_constraint_at trefs st c) ca)"
proof -
  consider (p) "constraint_type c = Some ''p''" "names_of c \<noteq> []"
    | (u) "constraint_type c = Some ''u''" "names_of c \<noteq> []"
    | (none) "\<not> (constraint_type c = Some ''p'' \<and> names_of c \<noteq> [])"
             "\<not> (constraint_type c = Some ''u'' \<and> names_of c \<noteq> [])"
    by blast
  then show ?thesis
  proof cases
    case p
    have "flagged_by c (col (mark_tables_at (mark_pk_column (names_of c)) (constraint_table c) trefs st) ca)"
      by (rule mark_tables_at_set[of "flagged_by c", OF flagged_after_pk[OF p(1)] a n[symmetric] ca])
    with p show ?thesis by (simp add: apply_constraint_at_def Let_def)
  next
    case u
    have "flagged_by c (col (mark_tables_at (mark_unique_column (names_of c)) (constraint_table c) trefs st) ca)"
      by (rule mark_tables_at_set[of "flagged_by c", OF flagged_after_unique[OF u(1)] a n[symmetric] ca])
    with u show ?thesis by (simp add: apply_constraint_at_def Let_def)
  next
    case none
    then show ?thesis by (rule flagged_trivial)
  qed
qed

lemma foldl_apply_constraint_at_tab: "tab (foldl (apply_constraint_at trefs) st cs) = tab st"
  by (induction cs arbitrary: st) (simp_all add: apply_constraint_at_tab)

lemma foldl_apply_constraint_at_keep:
  "flagged_by c0 (col st ca) \<Longrightarrow> flagged_by c0 (col (foldl (apply_constraint_at trefs) st cs) ca)"
  by (induction cs arbitrary: st) (simp_all add: apply_constraint_at_keep)

lemma foldl_apply_constraint_at_set:
  assumes "c \<in> set cs" and "a \<in> set trefs" and "constraint_table c = Some (to_name (tab st a))"
    and "ca \<in> set (column_refs (tab st a))"
  shows "flagged_by c (col (foldl (apply_constraint_at trefs) st cs) ca)"
  using assms
proof (induction cs arbitrary: st)
  case Nil
  then show ?case by simp
next
  case (Cons x cs)
  show ?case
  proof (cases "x = c")
    case True
    have "flagged_by c (col (apply_constraint_at trefs st c) ca)"
      using Cons.prems by (intro apply_constraint_at_set) simp_all
    then show ?thesis
      by (simp add: True foldl_apply_constraint_at_keep)
  next
    case False
    with Cons.prems have "c \<in> set cs" by simp
    from Cons.IH[OF this Cons.prems(2), of "apply_constraint_at trefs st x"] Cons.prems(3,4)
    show ?thesis by (simp add: apply_constraint_at_tab)
  qed
qed

lemma apply_constraint_at_keeps:
  assumes "\<And>cols x. Q x \<Longrightarrow> Q (mark_pk_column cols x)"
    and "\<And>cols x. Q x \<Longrightarrow> Q (mark_unique_column cols x)"
    and "Q (col st ca)"
  shows "Q (col (apply_constraint_at trefs st c) ca)"
  using assms(3)
  by (simp add: apply_constraint_at_def Let_def
        mark_tables_at_keep[of Q "mark_pk_column (names_of c)", OF assms(1)]
        mark_tables_at_keep[of Q "mark_unique_column (names_of c)", OF assms(2)])

lemma foldl_apply_constraint_at_keeps:
  assumes "\<And>cols x. Q x \<Longrightarrow> Q (mark_pk_column cols x)"
    and "\<And>cols x. Q x \<Longrightarrow> Q (mark_unique_column cols x)"
  shows "Q (col st ca) \<Longrightarrow> Q (col (foldl (apply_constraint_at trefs) st cs) ca)"
proof (induction cs arbitrary: st)
  case Nil
  then show ?case by simp
next
  case (Cons x cs)
  have "Q (col (apply_constraint_at trefs st x) ca)"
    by (rule apply_constraint_at_keeps[where Q=Q and st=st and ca=ca, OF assms Cons.prems])
  from Cons.IH[OF this] show ?case by simp
qed

lemma foldl_apply_constraint_at_types:
  "column_name (col (foldl (apply_constraint_at trefs) st cs) ca) = column_name (col st ca) \<and>
   data_type (col (foldl (apply_constraint_at trefs) st cs) ca) = data_type (col st ca)"
  by (rule foldl_apply_constraint_at_keeps
        [of "\<lambda>x. column_name x = column_name (col st ca) \<and> data_type x = data_type (col st ca)"])
     (simp_all add: mark_pk_column_def mark_unique_column_def Let_def)

lemma same_tables_refl: "same_tables st st"
  by (simp add: same_tables_def)

lemma same_tables_trans: "same_tables a b \<Longrightarrow> same_tables b c \<Longrightarrow> same_tables a c"
  by (simp add: same_tables_def)

lemma process_table_at_frame:
  "col (fst (process_table_at (st, h) a)) = col st \<and> same_tables st (fst (process_table_at (st, h) a))"
  by (simp add: process_table_at_def Let_def case_prod_beta same_tables_def)

lemma foldl_process_table_at_frame:
  "col (fst (foldl process_table_at (st, h) trefs)) = col st \<and>
   same_tables st (fst (foldl process_table_at (st, h) trefs))"
proof (induction trefs arbitrary: st h)
  case Nil
  show ?case by (simp add: same_tables_refl)
next
  case (Cons x xs)
  obtain st1 h1 where s: "process_table_at (st, h) x = (st1, h1)" by (cases "process_table_at (st, h) x")
  from process_table_at_frame[of st h x] s have a: "col st1 = col st" "same_tables st st1" by simp_all
  from Cons.IH[of st1 h1] a show ?case
    by (auto simp: s intro: same_tables_trans)
qed

lemma foldl_tag_table_at_inv:
  assumes "foldl tag_table_at (st, []) trefs = (st', acc)"
  shows "col st' = col st \<and> same_tables st st' \<and>
         (\<forall>a \<in> set trefs. set (obj_constraints (tab st' a)) \<subseteq> set acc)"
  using assms
proof (induction trefs arbitrary: st' acc rule: rev_induct)
  case Nil
  then show ?case by (auto simp: same_tables_refl)
next
  case (snoc x xs)
  obtain st1 acc1 where f: "foldl tag_table_at (st, []) xs = (st1, acc1)"
    by (cases "foldl tag_table_at (st, []) xs")
  from snoc.IH[OF f] have ih: "col st1 = col st" "same_tables st st1"
    "\<forall>a \<in> set xs. set (obj_constraints (tab st1 a)) \<subseteq> set acc1" by simp_all
  from snoc.prems f have t: "tag_table_at (st1, acc1) x = (st', acc)" by simp
  define t' where "t' = (tab st1 x)\<lparr>to_constraints :=
      map_option (map (\<lambda>c. c\<lparr>source_table := Some (to_name (tab st1 x))\<rparr>)) (to_constraints (tab st1 x))\<rparr>"
  from t have st': "st' = st1\<lparr>tab := (tab st1)(x := t')\<rparr>" and acc: "acc = acc1 @ obj_constraints t'"
    by (simp_all add: tag_table_at_def Let_def t'_def)
  have 1: "col st' = col st" using ih(1) by (simp add: st')
  have "same_tables st1 st'" by (simp add: same_tables_def st' t'_def)
  with ih(2) have 2: "same_tables st st'" by (rule same_tables_trans)
  have 3: "\<forall>a \<in> set (xs @ [x]). set (obj_constraints (tab st' a)) \<subseteq> set acc"
  proof
    fix a assume a: "a \<in> set (xs @ [x])"
    show "set (obj_constraints (tab st' a)) \<subseteq> set acc"
    proof (cases "a = x")
      case True
      then show ?thesis by (simp add: st' acc)
    next
      case False
      with a have "a \<in> set xs" by simp
      with ih(3) have "set (obj_constraints (tab st1 a)) \<subseteq> set acc1" by simp
      with False show ?thesis by (auto simp: st' acc)
    qed
  qed
  from 1 2 3 show ?case by simp
qed

lemma same_tables_column_refs: "same_tables st st' \<Longrightarrow> column_refs (tab st' b) = column_refs (tab st b)"
  by (simp add: same_tables_def column_refs_def)

lemma same_tables_name: "same_tables st st' \<Longrightarrow> to_name (tab st' b) = to_name (tab st b)"
  by (simp add: same_tables_def)

lemma same_tables_tab: "tab st' = tab st \<Longrightarrow> same_tables st st'"
  by (simp add: same_tables_def)

lemma apply_constraints_to_columns_st_flags:
  assumes "st' = apply_constraints_to_columns_st s st"
  shows "same_tables st st'"
    and "c \<in> set (store_constraints st' s) \<Longrightarrow> a \<in> set (table_refs s) \<Longrightarrow>
         constraint_table c = Some (to_name (tab st a)) \<Longrightarrow> ca \<in> set (column_refs (tab st a)) \<Longrightarrow>
         flagged_by c (col st' ca)"
proof -
  obtain st1 acc where f: "foldl tag_table_at (st, []) (table_refs s) = (st1, acc)"
    by (cases "foldl tag_table_at (st, []) (table_refs s)")
  define allc where "allc = acc @ (case so_constraints s of None \<Rightarrow> [] | Some cs \<Rightarrow> cs)"
  from assms f have st': "st' = foldl (apply_constraint_at (table_refs s)) st1 allc"
    by (simp add: apply_constraints_to_columns_st_def allc_def)
  from foldl_tag_table_at_inv[OF f] have inv: "same_tables st st1"
    "\<forall>a \<in> set (table_refs s). set (obj_constraints (tab st1 a)) \<subseteq> set acc" by simp_all
  have tab: "tab st' = tab st1" by (simp add: st' foldl_apply_constraint_at_tab)
  from same_tables_trans[OF inv(1) same_tables_tab[OF tab]] show "same_tables st st'" .
  assume c: "c \<in> set (store_constraints st' s)" and a: "a \<in> set (table_refs s)"
    and n: "constraint_table c = Some (to_name (tab st a))" and ca: "ca \<in> set (column_refs (tab st a))"
  from c inv(2) have "c \<in> set allc"
    by (auto simp: store_constraints_def tab allc_def)
  moreover from n have "constraint_table c = Some (to_name (tab st1 a))"
    by (simp add: same_tables_name[OF inv(1)])
  moreover from ca have "ca \<in> set (column_refs (tab st1 a))"
    by (simp add: same_tables_column_refs[OF inv(1)])
  ultimately show "flagged_by c (col st' ca)"
    unfolding st' using a by (intro foldl_apply_constraint_at_set)
qed

lemma process_constraints_st_flags:
  assumes "process_constraints_st s h st = (s', h', st')"
  shows "so_tables s' = so_tables s \<and> same_tables st st' \<and>
         (\<forall>c \<in> set (store_constraints st' s'). \<forall>a \<in> set (table_refs s).
            constraint_table c = Some (to_name (tab st a)) \<longrightarrow>
            (\<forall>ca \<in> set (column_refs (tab st a)). flagged_by c (col st' ca)))"
proof -
  obtain st1 h1 where f: "foldl process_table_at (st, h) (table_refs s) = (st1, h1)"
    by (cases "foldl process_table_at (st, h) (table_refs s)")
  from foldl_process_table_at_frame[of st h "table_refs s"] f
  have fr: "same_tables st st1" by simp
  define s2 where "s2 = (case so_constraints s of None \<Rightarrow> s
      | Some cs \<Rightarrow> s\<lparr>so_constraints := Some (fst (process_standalone_constraints cs h1))\<rparr>)"
  have s2t: "so_tables s2 = so_tables s" by (simp add: s2_def split: option.splits)
  from assms f have st': "st' = apply_constraints_to_columns_st s2 st1"
    and s': "so_tables s' = so_tables s2" "so_constraints s' = so_constraints s2"
    by (auto simp: process_constraints_st_def Let_def s2_def case_prod_beta split: option.splits)
  have refs: "table_refs s' = table_refs s2" "table_refs s2 = table_refs s"
    by (simp_all add: table_refs_def s' s2t)
  have sc: "store_constraints st' s' = store_constraints st' s2"
    by (simp add: store_constraints_def refs s')
  note ac = apply_constraints_to_columns_st_flags[OF st']
  have 1: "so_tables s' = so_tables s" by (simp add: s' s2t)
  have 2: "same_tables st st'" using fr ac(1) by (rule same_tables_trans)
  have 3: "\<forall>c \<in> set (store_constraints st' s'). \<forall>a \<in> set (table_refs s).
            constraint_table c = Some (to_name (tab st a)) \<longrightarrow>
            (\<forall>ca \<in> set (column_refs (tab st a)). flagged_by c (col st' ca))"
  proof (intro ballI impI)
    fix c a ca
    assume "c \<in> set (store_constraints st' s')" "a \<in> set (table_refs s)"
      "constraint_table c = Some (to_name (tab st a))" "ca \<in> set (column_refs (tab st a))"
    then show "flagged_by c (col st' ca)"
      using ac(2)[of c a ca]
      by (simp add: sc refs same_tables_name[OF fr] same_tables_column_refs[OF fr])
  qed
  from 1 2 3 show ?thesis by simp
qed

lemma apply_constraints_to_columns_st_types:
  "column_name (col (apply_constraints_to_columns_st s st) ca) = column_name (col st ca) \<and>
   data_type (col (apply_constraints_to_columns_st s st) ca) = data_type (col st ca)"
proof -
  obtain st1 acc where f: "foldl tag_table_at (st, []) (table_refs s) = (st1, acc)"
    by (cases "foldl tag_table_at (st, []) (table_refs s)")
  from foldl_tag_table_at_inv[OF f] have "col st1 = col st" by simp
  then show ?thesis
    by (simp add: apply_constraints_to_columns_st_def f foldl_apply_constraint_at_types)
qed

lemma process_constraints_st_types:
  assumes "process_constraints_st s h st = (s', h', st')"
  shows "column_name (col st' ca) = column_name (col st ca) \<and>
         data_type (col st' ca) = data_type (col st ca)"
proof -
  obtain st1 h1 where f: "foldl process_table_at (st, h) (table_refs s) = (st1, h1)"
    by (cases "foldl process_table_at (st, h) (table_refs s)")
  from foldl_process_table_at_frame[of st h "table_refs s"] f
  have c: "col st1 = col st" by simp
  from assms f obtain s2 where "st' = apply_constraints_to_columns_st s2 st1"
    by (auto simp: process_constraints_st_def Let_def case_prod_beta split: option.splits)
  then show ?thesis by (simp add: apply_constraints_to_columns_st_types c)
qed

lemma shared_refs: "all_column_refs shared_store shared_schema = [0, 1]"
  by (simp add: all_column_refs_def shared_store_def shared_schema_def table_refs_def column_refs_def)

lemma serial_int4: "transform_single_type ''serial'' default_decisions {} = (''int4'', [])"
  by (simp add: tm_eval)

lemma shared_standalone:
  "so_constraints (fst (process_constraints_st shared_schema h st)) = Some [t_pkey]"
  by (simp add: process_constraints_st_def shared_schema_def Let_def case_prod_beta
        process_single_constraint_def t_pkey_def)

text \<open>
  Claim C10. \<^verbatim>\<open>transform_types\<close> and \<^verbatim>\<open>process_constraints\<close> copy the top-level
  dictionary only. The returned schema holds the table addresses of the input, so the
  caller's input, read after the call, shows the tables of the returned schema. After
  \<^verbatim>\<open>transform_types\<close> the table objects are untouched, a column object reached once
  from the input holds the transformed type, and a column not reached is as before.
  After \<^verbatim>\<open>process_constraints\<close> the tables keep their names and column addresses, the
  columns their names and types, and the column objects of the input carry the flags
  of every surviving constraint.
\<close>

theorem transformers_mutate_input:
  assumes tt: "transform_types_st s decisions m st = (s', m', st')"
    and pc: "process_constraints_st r h rt = (r', h', rt')"
  shows "(s_tables (read_schema st' s) = s_tables (read_schema st' s') \<and> tab st' = tab st \<and>
          (\<forall>a. count_list (all_column_refs st s) a = 1 \<longrightarrow>
             data_type (col st' a) =
               fst (transform_single_type (data_type (col st a))
                      (case decisions of None \<Rightarrow> default_decisions | Some d \<Rightarrow> d)
                      (enum_lookup (so_enums s)))) \<and>
          (\<forall>a. a \<notin> set (all_column_refs st s) \<longrightarrow> col st' a = col st a)) \<and>
         (s_tables (read_schema rt' r) = s_tables (read_schema rt' r') \<and> same_tables rt rt' \<and>
          (\<forall>a. column_name (col rt' a) = column_name (col rt a) \<and>
               data_type (col rt' a) = data_type (col rt a)) \<and>
          (\<forall>c \<in> set (store_constraints rt' r'). \<forall>a \<in> set (table_refs r).
             constraint_table c = Some (to_name (tab rt a)) \<longrightarrow>
             (\<forall>ca \<in> set (column_refs (tab rt a)). flagged_by c (col rt' ca))))"
proof -
  note a = transform_types_st_store[OF tt]
  have 1: "s_tables (read_schema st' s) = s_tables (read_schema st' s')"
    using a by (simp add: read_schema_def)
  have 2: "tab st' = tab st" using a by simp
  have 3: "\<forall>a. count_list (all_column_refs st s) a = 1 \<longrightarrow>
             data_type (col st' a) =
               fst (transform_single_type (data_type (col st a))
                      (case decisions of None \<Rightarrow> default_decisions | Some d \<Rightarrow> d)
                      (enum_lookup (so_enums s)))"
    using a by (simp add: transformed_column_def Let_def)
  have 4: "\<forall>a. a \<notin> set (all_column_refs st s) \<longrightarrow> col st' a = col st a"
    using a by (simp add: count_list_0_iff[symmetric] del: count_list_0_iff)
  note b = process_constraints_st_flags[OF pc]
  have 5: "s_tables (read_schema rt' r) = s_tables (read_schema rt' r')"
    using b by (simp add: read_schema_def)
  have 6: "\<forall>a. column_name (col rt' a) = column_name (col rt a) \<and>
               data_type (col rt' a) = data_type (col rt a)"
    using process_constraints_st_types[OF pc] by simp
  from 1 2 3 4 5 6 b show ?thesis by simp
qed

theorem transformers_mutate_input_witness:
  "data_type (col shared_store 0) = ''serial'' \<and>
   data_type (col (snd (snd (transform_types_st shared_schema None init_mapper shared_store))) 0) = ''int4'' \<and>
   is_primary_key (col shared_store 0) = None \<and>
   is_primary_key (col (snd (snd (process_constraints_st shared_schema init_handler shared_store))) 0)
     = Some True"
proof -
  let ?T = "transform_types_st shared_schema None init_mapper shared_store"
  let ?P = "process_constraints_st shared_schema init_handler shared_store"
  have t: "?T = (fst ?T, fst (snd ?T), snd (snd ?T))" and p: "?P = (fst ?P, fst (snd ?P), snd (snd ?P))"
    by simp_all
  note w = transformers_mutate_input[OF t p]
  from w have "count_list (all_column_refs shared_store shared_schema) 0 = 1 \<longrightarrow>
      data_type (col (snd (snd ?T)) 0) =
        fst (transform_single_type (data_type (col shared_store 0)) default_decisions
               (enum_lookup (so_enums shared_schema)))"
    by simp
  then have 1: "data_type (col (snd (snd ?T)) 0) = ''int4''"
    by (simp add: shared_refs) (simp add: shared_store_def shared_schema_def enum_lookup_def serial_int4)
  have c: "t_pkey \<in> set (store_constraints (snd (snd ?P)) (fst ?P))"
    by (simp add: store_constraints_def shared_standalone)
  have a: "0 \<in> set (table_refs shared_schema)" by (simp add: table_refs_def shared_schema_def)
  have n: "constraint_table t_pkey = Some (to_name (tab shared_store 0))"
    by (simp add: constraint_table_def t_pkey_def shared_store_def dict_get_def)
  have ca: "0 \<in> set (column_refs (tab shared_store 0))"
    by (simp add: column_refs_def shared_store_def)
  from w c a n ca have "flagged_by t_pkey (col (snd (snd ?P)) 0)" by blast
  moreover from w have "column_name (col (snd (snd ?P)) 0) = column_name (col shared_store 0)"
    by simp
  ultimately have 2: "is_primary_key (col (snd (snd ?P)) 0) = Some True"
    by (simp add: flagged_by_def t_pkey_def names_of_def shared_store_def)
  from 1 2 show ?thesis by (simp add: shared_store_def)
qed

section \<open>SQLParser: the error handling of parse_sql_dump\<close>

text \<open>
  The parser collects six lists of dictionaries and a list of error records. An error
  record has the keys \<^verbatim>\<open>error\<close> and \<^verbatim>\<open>context\<close>; the key \<^verbatim>\<open>statement\<close> is absent in
  the record that the outer handler of \<^verbatim>\<open>parse_sql_dump\<close> writes.
\<close>

record parse_error =
  pe_error :: string
  pe_statement :: "string option"
  pe_context :: string

record 'd components =
  p_tables :: "'d list"
  p_relationships :: "'d list"
  p_constraints :: "'d list"
  p_indexes :: "'d list"
  p_sequences :: "'d list"
  p_enums :: "'d list"

record 'd parser =
  collected :: "'d components"
  parsing_errors :: "parse_error list"

text \<open>
  What \<^verbatim>\<open>parse_sql_dump\<close> calls and what may throw there. An exception is a value: the
  text \<^verbatim>\<open>str(e)\<close>. \<^verbatim>\<open>sqlparse.parse\<close> returns the statements of a text or throws;
  \<^verbatim>\<open>re.finditer\<close> with the pattern \<^verbatim>\<open>CREATE\s+TABLE\s+[^;]+;\<close> returns the matched
  texts; \<^verbatim>\<open>str(statement)\<close> is the text of a statement. The five statement parsers
  \<^verbatim>\<open>_parse_create_table\<close>, \<^verbatim>\<open>_parse_alter_table\<close>, \<^verbatim>\<open>_parse_create_index\<close>,
  \<^verbatim>\<open>_parse_create_sequence\<close> and \<^verbatim>\<open>_parse_create_enum\<close> read and write the six lists
  and never \<^verbatim>\<open>parsing_errors\<close>; each returns the lists as it leaves them, with the
  exception it threw, if any. They are left open: what is proved holds whatever they
  do.
\<close>

record ('s, 'd) routines =
  create_table_matches :: "string \<Rightarrow> string list"
  sqlparse_parse :: "string \<Rightarrow> string + 's list"
  str_of :: "'s \<Rightarrow> string"
  parse_create_table :: "'s \<Rightarrow> 'd components \<Rightarrow> string option \<times> 'd components"
  parse_alter_table :: "'s \<Rightarrow> 'd components \<Rightarrow> string option \<times> 'd components"
  parse_create_index :: "'s \<Rightarrow> 'd components \<Rightarrow> string option \<times> 'd components"
  parse_create_sequence :: "'s \<Rightarrow> 'd components \<Rightarrow> string option \<times> 'd components"
  parse_create_enum :: "'s \<Rightarrow> 'd components \<Rightarrow> string option \<times> 'd components"

definition init_parser :: "'d parser" where
  "init_parser =
     \<lparr>collected = \<lparr>p_tables = [], p_relationships = [], p_constraints = [], p_indexes = [],
                     p_sequences = [], p_enums = []\<rparr>,
      parsing_errors = []\<rparr>"

text \<open>\<^verbatim>\<open>self.parsing_errors.append({...})\<close>\<close>

definition record_error :: "string \<Rightarrow> string option \<Rightarrow> string \<Rightarrow> 'd parser \<Rightarrow> 'd parser" where
  "record_error e stmt ctx p =
     p\<lparr>parsing_errors := parsing_errors p @ [\<lparr>pe_error = e, pe_statement = stmt, pe_context = ctx\<rparr>]\<rparr>"

text \<open>The body of the \<^verbatim>\<open>try\<close> in the loop of \<^verbatim>\<open>_extract_create_table_statements\<close>.\<close>

definition parse_match :: "('s, 'd) routines \<Rightarrow> string \<Rightarrow> 'd components \<Rightarrow> string option \<times> 'd components" where
  "parse_match L table_statement c =
     (case sqlparse_parse L table_statement of
        Inl e \<Rightarrow> (Some e, c)
      | Inr statements \<Rightarrow>
          (case statements of [] \<Rightarrow> (None, c) | s # _ \<Rightarrow> parse_create_table L s c))"

text \<open>One turn of that loop, with its \<^verbatim>\<open>except Exception\<close>.\<close>

definition extract_match :: "('s, 'd) routines \<Rightarrow> 'd parser \<Rightarrow> string \<Rightarrow> 'd parser" where
  "extract_match L p table_statement =
     (case parse_match L table_statement (collected p) of
        (None, c) \<Rightarrow> p\<lparr>collected := c\<rparr>
      | (Some e, c) \<Rightarrow>
          record_error e (Some (take 200 table_statement)) ''CREATE TABLE parsing failed''
            (p\<lparr>collected := c\<rparr>))"

definition extract_create_table_statements :: "('s, 'd) routines \<Rightarrow> string \<Rightarrow> 'd parser \<Rightarrow> 'd parser" where
  "extract_create_table_statements L sql_content p =
     foldl (extract_match L) p (create_table_matches L sql_content)"

text \<open>The body of the \<^verbatim>\<open>try\<close> in \<^verbatim>\<open>_parse_statement\<close>.\<close>

definition parse_statement_body ::
  "('s, 'd) routines \<Rightarrow> 's \<Rightarrow> string \<Rightarrow> 'd components \<Rightarrow> string option \<times> 'd components" where
  "parse_statement_body L statement statement_upper c =
     (if startswith statement_upper ''CREATE TABLE'' then (None, c)
      else if startswith statement_upper ''ALTER TABLE'' \<or> py_in ''ALTER TABLE'' statement_upper
        then parse_alter_table L statement c
      else if startswith statement_upper ''CREATE INDEX'' then parse_create_index L statement c
      else if startswith statement_upper ''CREATE SEQUENCE'' then parse_create_sequence L statement c
      else if py_in ''CREATE TYPE'' statement_upper \<and> py_in ''ENUM'' statement_upper
        then parse_create_enum L statement c
      else (None, c))"

definition parse_statement :: "('s, 'd) routines \<Rightarrow> 'd parser \<Rightarrow> 's \<Rightarrow> 'd parser" where
  "parse_statement L p statement =
     (let statement_str = strip (str_of L statement) in
      if statement_str = [] then p
      else (case parse_statement_body L statement (upper statement_str) (collected p) of
              (None, c) \<Rightarrow> p\<lparr>collected := c\<rparr>
            | (Some e, c) \<Rightarrow>
                record_error e (Some (take 200 statement_str)) ''Statement parsing failed''
                  (p\<lparr>collected := c\<rparr>)))"

text \<open>The \<^verbatim>\<open>try\<close> of \<^verbatim>\<open>parse_sql_dump\<close> with its \<^verbatim>\<open>except Exception\<close>: the parser as
  it is when the \<^verbatim>\<open>return\<close> is reached.\<close>

definition parse_all :: "('s, 'd) routines \<Rightarrow> string \<Rightarrow> 'd parser \<Rightarrow> 'd parser" where
  "parse_all L sql_content p =
     (let p1 = extract_create_table_statements L sql_content p in
      case sqlparse_parse L sql_content of
        Inl e \<Rightarrow> record_error e None ''SQL parsing failed'' p1
      | Inr statements \<Rightarrow> foldl (parse_statement L) p1 statements)"

text \<open>The returned dictionary, key by key.\<close>

datatype 'd pyval = Dicts "'d list" | Errors "parse_error list"

definition parse_sql_dump :: "('s, 'd) routines \<Rightarrow> string \<Rightarrow> 'd parser \<Rightarrow> (string \<times> 'd pyval) list" where
  "parse_sql_dump L sql_content p =
     (let p' = parse_all L sql_content p; c = collected p' in
      [(''tables'', Dicts (p_tables c)),
       (''relationships'', Dicts (p_relationships c)),
       (''constraints'', Dicts (p_constraints c)),
       (''indexes'', Dicts (p_indexes c)),
       (''sequences'', Dicts (p_sequences c)),
       (''enums'', Dicts (p_enums c)),
       (''parsing_errors'', Errors (parsing_errors p'))])"

text \<open>The error records a returned dictionary holds.\<close>

definition errors_of :: "(string \<times> 'd pyval) list \<Rightarrow> parse_error list" where
  "errors_of d = (case map_of d ''parsing_errors'' of Some (Errors es) \<Rightarrow> es | _ \<Rightarrow> [])"

definition excerpt_ok :: "parse_error \<Rightarrow> bool" where
  "excerpt_ok r = (case pe_statement r of None \<Rightarrow> True | Some x \<Rightarrow> length x \<le> 200)"

subsection \<open>What parsing in isolation asks for\<close>

text \<open>
  The kinds of statement the parser knows, and the kind of a statement text (stripped,
  in upper case). A \<^verbatim>\<open>CREATE TABLE\<close> statement is left alone in the loop over the
  statements: the matches of the text have been parsed before.
\<close>

datatype statement_kind = CreateTable | AlterTable | CreateIndex | CreateSequence | CreateEnum | Other

definition kind_of :: "string \<Rightarrow> statement_kind" where
  "kind_of text =
     (if startswith text ''CREATE TABLE'' then CreateTable
      else if py_in ''ALTER TABLE'' text then AlterTable
      else if startswith text ''CREATE INDEX'' then CreateIndex
      else if startswith text ''CREATE SEQUENCE'' then CreateSequence
      else if py_in ''CREATE TYPE'' text \<and> py_in ''ENUM'' text then CreateEnum
      else Other)"

text \<open>Parsing one statement: the routine of its kind, run on the lists.\<close>

definition statement_parser ::
  "('s, 'd) routines \<Rightarrow> 's \<Rightarrow> 'd components \<Rightarrow> string option \<times> 'd components" where
  "statement_parser L s c =
     (case kind_of (upper (strip (str_of L s))) of
        CreateTable \<Rightarrow> (None, c)
      | AlterTable \<Rightarrow> parse_alter_table L s c
      | CreateIndex \<Rightarrow> parse_create_index L s c
      | CreateSequence \<Rightarrow> parse_create_sequence L s c
      | CreateEnum \<Rightarrow> parse_create_enum L s c
      | Other \<Rightarrow> (None, c))"

text \<open>Parsing one \<^verbatim>\<open>CREATE TABLE\<close> match: the match is segmented and its first
  statement goes to the table routine.\<close>

definition match_parser ::
  "('s, 'd) routines \<Rightarrow> string \<Rightarrow> 'd components \<Rightarrow> string option \<times> 'd components" where
  "match_parser L m c =
     (case sqlparse_parse L m of
        Inl e \<Rightarrow> (Some e, c)
      | Inr [] \<Rightarrow> (None, c)
      | Inr (s # rest) \<Rightarrow> parse_create_table L s c)"

text \<open>The lists after the items have been parsed one after the other, each from the
  lists the one before left, whether it threw or not.\<close>

definition lists_after ::
  "('x \<Rightarrow> 'd components \<Rightarrow> string option \<times> 'd components) \<Rightarrow> 'd components \<Rightarrow> 'x list \<Rightarrow> 'd components" where
  "lists_after parse c xs = foldl (\<lambda>c x. snd (parse x c)) c xs"

text \<open>The error records of that run: one for each item whose parsing throws, in the
  order of the items, with the first 200 characters of the item's text.\<close>

fun failures ::
  "('x \<Rightarrow> 'd components \<Rightarrow> string option \<times> 'd components) \<Rightarrow> ('x \<Rightarrow> string) \<Rightarrow> string \<Rightarrow>
   'd components \<Rightarrow> 'x list \<Rightarrow> parse_error list" where
  "failures parse text_of ctx c [] = []"
| "failures parse text_of ctx c (x # xs) =
     (case fst (parse x c) of
        None \<Rightarrow> failures parse text_of ctx (snd (parse x c)) xs
      | Some e \<Rightarrow> \<lparr>pe_error = e, pe_statement = Some (take 200 (text_of x)), pe_context = ctx\<rparr> #
                 failures parse text_of ctx (snd (parse x c)) xs)"

text \<open>The lists a returned dictionary holds.\<close>

definition lists_of :: "(string \<times> 'd pyval) list \<Rightarrow> 'd list list" where
  "lists_of d = concat (map (\<lambda>kv. case snd kv of Dicts l \<Rightarrow> [l] | Errors _ \<Rightarrow> []) d)"

definition as_lists :: "'d components \<Rightarrow> 'd list list" where
  "as_lists c = [p_tables c, p_relationships c, p_constraints c, p_indexes c, p_sequences c, p_enums c]"

subsection \<open>Examples\<close>

text \<open>Routines for an example: parsing a table or an \<^verbatim>\<open>ALTER TABLE\<close> throws, an index
  is appended to the indexes; the text has one \<^verbatim>\<open>CREATE TABLE\<close> match and two
  further statements.\<close>

definition failing_routines :: "(string, string) routines" where
  "failing_routines =
     \<lparr>create_table_matches = (\<lambda>_. [''CREATE TABLE t (;'']),
      sqlparse_parse = (\<lambda>t. if t = ''CREATE TABLE t (;'' then Inr [t]
                              else Inr ['' ALTER TABLE t ADD;'', ''CREATE INDEX i ON t (a);'']),
      str_of = (\<lambda>s. s),
      parse_create_table = (\<lambda>s c. (Some ''no table'', c)),
      parse_alter_table = (\<lambda>s c. (Some ''no alter'', c)),
      parse_create_index = (\<lambda>s c. (None, c\<lparr>p_indexes := p_indexes c @ [s]\<rparr>)),
      parse_create_sequence = (\<lambda>s c. (None, c)),
      parse_create_enum = (\<lambda>s c. (None, c))\<rparr>"

text \<open>Routines for an example where segmenting the whole text throws: the text has no
  \<^verbatim>\<open>CREATE TABLE\<close> match, and an index would be appended to the indexes.\<close>

definition aborting_routines :: "(string, string) routines" where
  "aborting_routines =
     \<lparr>create_table_matches = (\<lambda>_. []),
      sqlparse_parse = (\<lambda>t. Inl ''Maximum grouping depth exceeded''),
      str_of = (\<lambda>s. s),
      parse_create_table = (\<lambda>s c. (None, c\<lparr>p_tables := p_tables c @ [s]\<rparr>)),
      parse_alter_table = (\<lambda>s c. (None, c)),
      parse_create_index = (\<lambda>s c. (None, c\<lparr>p_indexes := p_indexes c @ [s]\<rparr>)),
      parse_create_sequence = (\<lambda>s c. (None, c)),
      parse_create_enum = (\<lambda>s c. (None, c))\<rparr>"

text \<open>The same routines with a segmentation that returns the two statements.\<close>

definition segmenting_routines :: "(string, string) routines" where
  "segmenting_routines =
     aborting_routines\<lparr>sqlparse_parse :=
       (\<lambda>t. Inr [''CREATE INDEX i ON t (a);'', ''CREATE INDEX j ON t (b);''])\<rparr>"

definition two_indexes :: string where
  "two_indexes = ''CREATE INDEX i ON t (a); CREATE INDEX j ON t (b);''"

section \<open>Proofs: the parser\<close>

lemma startswith_py_in: "startswith s p \<Longrightarrow> py_in p s"
  by (cases s) (auto elim: startswith.elims)

lemma kind_of_Nil: "kind_of [] = Other"
  by (simp add: kind_of_def)

lemma parse_statement_body_kind:
  "parse_statement_body L s (upper (strip (str_of L s))) c = statement_parser L s c"
  using startswith_py_in[of "upper (strip (str_of L s))" "''ALTER TABLE''"]
  by (auto simp: parse_statement_body_def statement_parser_def kind_of_def)

lemma statement_parser_blank: "strip (str_of L s) = [] \<Longrightarrow> statement_parser L s c = (None, c)"
  by (simp add: statement_parser_def upper_def kind_of_Nil)

lemma parse_match_parser: "parse_match L m c = match_parser L m c"
  by (simp add: parse_match_def match_parser_def split: sum.splits list.splits)

lemma parse_statement_step:
  "parse_statement L p s =
     p\<lparr>collected := snd (statement_parser L s (collected p)),
       parsing_errors := parsing_errors p @
         failures (statement_parser L) (\<lambda>s. strip (str_of L s)) ''Statement parsing failed'' (collected p) [s]\<rparr>"
proof (cases "strip (str_of L s) = []")
  case True
  then show ?thesis by (simp add: parse_statement_def statement_parser_blank)
next
  case False
  obtain e c where b: "statement_parser L s (collected p) = (e, c)"
    by (cases "statement_parser L s (collected p)")
  with False show ?thesis
    by (cases e) (simp_all add: parse_statement_def parse_statement_body_kind record_error_def Let_def)
qed

lemma extract_match_step:
  "extract_match L p m =
     p\<lparr>collected := snd (match_parser L m (collected p)),
       parsing_errors := parsing_errors p @
         failures (match_parser L) (\<lambda>m. m) ''CREATE TABLE parsing failed'' (collected p) [m]\<rparr>"
proof -
  obtain e c where b: "match_parser L m (collected p) = (e, c)"
    by (cases "match_parser L m (collected p)")
  then show ?thesis
    by (cases e) (simp_all add: extract_match_def parse_match_parser record_error_def)
qed

lemma failures_single_Cons:
  "failures parse tx ctx c (x # xs) = failures parse tx ctx c [x] @ failures parse tx ctx (snd (parse x c)) xs"
  by (simp split: option.splits)

lemma foldl_steps:
  assumes "\<And>p x. f p x = p\<lparr>collected := snd (parse x (collected p)),
                     parsing_errors := parsing_errors p @ failures parse tx ctx (collected p) [x]\<rparr>"
  shows "foldl f p xs =
           p\<lparr>collected := lists_after parse (collected p) xs,
             parsing_errors := parsing_errors p @ failures parse tx ctx (collected p) xs\<rparr>"
proof (induction xs arbitrary: p)
  case Nil
  show ?case by (simp add: lists_after_def)
next
  case (Cons x xs)
  have "foldl f p (x # xs) = foldl f (f p x) xs" by simp
  also have "\<dots> = (f p x)\<lparr>collected := lists_after parse (collected (f p x)) xs,
             parsing_errors := parsing_errors (f p x) @ failures parse tx ctx (collected (f p x)) xs\<rparr>"
    by (rule Cons.IH)
  also have "\<dots> = p\<lparr>collected := lists_after parse (collected p) (x # xs),
             parsing_errors := parsing_errors p @ failures parse tx ctx (collected p) (x # xs)\<rparr>"
    unfolding assms[of p x] failures_single_Cons[of parse tx ctx "collected p" x xs]
    by (simp add: lists_after_def)
  finally show ?case .
qed

lemmas statements_steps = foldl_steps[of "parse_statement L" "statement_parser L"
    "\<lambda>s. strip (str_of L s)" "''Statement parsing failed''", OF parse_statement_step] for L

lemmas matches_steps = foldl_steps[of "extract_match L" "match_parser L"
    "\<lambda>m. m" "''CREATE TABLE parsing failed''", OF extract_match_step] for L

lemma failures_excerpt: "\<forall>r \<in> set (failures parse tx ctx c xs). excerpt_ok r"
  by (induction xs arbitrary: c) (auto simp: excerpt_ok_def split: option.splits)

lemma failures_mem:
  "fst (parse x (lists_after parse c xs)) = Some e \<Longrightarrow>
   \<lparr>pe_error = e, pe_statement = Some (take 200 (tx x)), pe_context = ctx\<rparr>
     \<in> set (failures parse tx ctx c (xs @ x # ys))"
proof (induction xs arbitrary: c)
  case Nil
  then show ?case by (simp add: lists_after_def)
next
  case (Cons a xs)
  from Cons.prems have "fst (parse x (lists_after parse (snd (parse a c)) xs)) = Some e"
    by (simp add: lists_after_def)
  from Cons.IH[OF this] show ?case by (simp split: option.splits)
qed

lemmas parser_eval = parse_sql_dump_def parse_all_def extract_create_table_statements_def
  extract_match_def parse_match_def parse_statement_def parse_statement_body_def record_error_def
  init_parser_def strip_def lstrip_def rstrip_def is_space_def upper_def
  upper_char_def Let_def

lemma parse_all_run:
  "parse_all L content p =
     p\<lparr>collected :=
         (case sqlparse_parse L content of
            Inl e \<Rightarrow> lists_after (match_parser L) (collected p) (create_table_matches L content)
          | Inr stmts \<Rightarrow>
              lists_after (statement_parser L)
                (lists_after (match_parser L) (collected p) (create_table_matches L content)) stmts),
       parsing_errors :=
         parsing_errors p @
         failures (match_parser L) (\<lambda>m. m) ''CREATE TABLE parsing failed'' (collected p)
           (create_table_matches L content) @
         (case sqlparse_parse L content of
            Inl e \<Rightarrow> [\<lparr>pe_error = e, pe_statement = None, pe_context = ''SQL parsing failed''\<rparr>]
          | Inr stmts \<Rightarrow>
              failures (statement_parser L) (\<lambda>s. strip (str_of L s)) ''Statement parsing failed''
                (lists_after (match_parser L) (collected p) (create_table_matches L content)) stmts)\<rparr>"
  by (cases "sqlparse_parse L content")
     (simp_all add: parse_all_def extract_create_table_statements_def Let_def matches_steps
        statements_steps record_error_def)

lemma dump_lists: "lists_of (parse_sql_dump L content p) = as_lists (collected (parse_all L content p))"
  by (simp add: lists_of_def parse_sql_dump_def as_lists_def Let_def)

lemma dump_errors: "errors_of (parse_sql_dump L content p) = parsing_errors (parse_all L content p)"
  by (simp add: errors_of_def parse_sql_dump_def Let_def)

text \<open>
  Claim C3, amended. \<^verbatim>\<open>parse_sql_dump\<close> returns the dictionary with its seven keys
  whatever the text is and whatever throws on the way. Every \<^verbatim>\<open>CREATE TABLE\<close> match is
  parsed, each from the lists the one before left. If segmenting the whole text
  returns, every statement is parsed likewise; if it throws, no statement is parsed and
  one record without excerpt, with the context \<^verbatim>\<open>SQL parsing failed\<close>, is written. The
  error list of the result is that of the parser before the call, then one record for
  each match whose parsing throws, then one for each statement whose parsing throws (or
  the record of the whole text). A record of a match holds the first 200 characters of
  the match, a record of a statement the first 200 characters of its stripped text.
\<close>

theorem parse_sql_dump_records_failures:
  "map fst (parse_sql_dump L content p) =
     [''tables'', ''relationships'', ''constraints'', ''indexes'', ''sequences'', ''enums'',
      ''parsing_errors''] \<and>
   lists_of (parse_sql_dump L content p) =
     as_lists
       (case sqlparse_parse L content of
          Inl e \<Rightarrow> lists_after (match_parser L) (collected p) (create_table_matches L content)
        | Inr stmts \<Rightarrow>
            lists_after (statement_parser L)
              (lists_after (match_parser L) (collected p) (create_table_matches L content)) stmts) \<and>
   errors_of (parse_sql_dump L content p) =
     parsing_errors p @
     failures (match_parser L) (\<lambda>m. m) ''CREATE TABLE parsing failed'' (collected p)
       (create_table_matches L content) @
     (case sqlparse_parse L content of
        Inl e \<Rightarrow> [\<lparr>pe_error = e, pe_statement = None, pe_context = ''SQL parsing failed''\<rparr>]
      | Inr stmts \<Rightarrow>
          failures (statement_parser L) (\<lambda>s. strip (str_of L s)) ''Statement parsing failed''
            (lists_after (match_parser L) (collected p) (create_table_matches L content)) stmts) \<and>
   (\<exists>new. errors_of (parse_sql_dump L content p) = parsing_errors p @ new \<and>
          (\<forall>r \<in> set new. excerpt_ok r)) \<and>
   (create_table_matches L content = ms @ m # ns \<and>
    fst (match_parser L m (lists_after (match_parser L) (collected p) ms)) = Some e' \<longrightarrow>
      \<lparr>pe_error = e', pe_statement = Some (take 200 m), pe_context = ''CREATE TABLE parsing failed''\<rparr>
        \<in> set (errors_of (parse_sql_dump L content p))) \<and>
   (sqlparse_parse L content = Inr (xs @ s # ys) \<and>
    fst (statement_parser L s
          (lists_after (statement_parser L)
             (lists_after (match_parser L) (collected p) (create_table_matches L content)) xs)) = Some e \<longrightarrow>
      \<lparr>pe_error = e, pe_statement = Some (take 200 (strip (str_of L s))),
       pe_context = ''Statement parsing failed''\<rparr>
        \<in> set (errors_of (parse_sql_dump L content p)))"
proof -
  let ?c1 = "lists_after (match_parser L) (collected p) (create_table_matches L content)"
  let ?fm = "failures (match_parser L) (\<lambda>m. m) ''CREATE TABLE parsing failed'' (collected p)
       (create_table_matches L content)"
  let ?fs = "case sqlparse_parse L content of
        Inl e \<Rightarrow> [\<lparr>pe_error = e, pe_statement = None, pe_context = ''SQL parsing failed''\<rparr>]
      | Inr stmts \<Rightarrow>
          failures (statement_parser L) (\<lambda>s. strip (str_of L s)) ''Statement parsing failed'' ?c1 stmts"
  have 1: "map fst (parse_sql_dump L content p) =
     [''tables'', ''relationships'', ''constraints'', ''indexes'', ''sequences'', ''enums'',
      ''parsing_errors'']"
    by (simp add: parse_sql_dump_def Let_def)
  have 2: "lists_of (parse_sql_dump L content p) =
     as_lists (case sqlparse_parse L content of Inl e \<Rightarrow> ?c1
        | Inr stmts \<Rightarrow> lists_after (statement_parser L) ?c1 stmts)"
    unfolding dump_lists by (subst parse_all_run) simp
  have 3: "errors_of (parse_sql_dump L content p) = parsing_errors p @ ?fm @ ?fs"
    unfolding dump_errors by (subst parse_all_run) simp
  have ok: "\<forall>r \<in> set (?fm @ ?fs). excerpt_ok r"
    using failures_excerpt[of "match_parser L" "\<lambda>m. m" "''CREATE TABLE parsing failed''"
        "collected p" "create_table_matches L content"]
      failures_excerpt[of "statement_parser L" "\<lambda>s. strip (str_of L s)" "''Statement parsing failed''" ?c1]
    by (cases "sqlparse_parse L content") (auto simp: excerpt_ok_def)
  have 4: "\<exists>new. errors_of (parse_sql_dump L content p) = parsing_errors p @ new \<and>
          (\<forall>r \<in> set new. excerpt_ok r)"
    using 3 ok by blast
  have 5: "\<lparr>pe_error = e', pe_statement = Some (take 200 m), pe_context = ''CREATE TABLE parsing failed''\<rparr>
        \<in> set (errors_of (parse_sql_dump L content p))"
    if "create_table_matches L content = ms @ m # ns"
      and "fst (match_parser L m (lists_after (match_parser L) (collected p) ms)) = Some e'"
    using failures_mem[of "match_parser L" m "collected p" ms e' "\<lambda>m. m"
        "''CREATE TABLE parsing failed''" ns] that
    by (simp add: 3)
  have 6: "\<lparr>pe_error = e, pe_statement = Some (take 200 (strip (str_of L s))),
       pe_context = ''Statement parsing failed''\<rparr>
        \<in> set (errors_of (parse_sql_dump L content p))"
    if "sqlparse_parse L content = Inr (xs @ s # ys)"
      and "fst (statement_parser L s (lists_after (statement_parser L) ?c1 xs)) = Some e"
    using failures_mem[of "statement_parser L" s ?c1 xs e "\<lambda>s. strip (str_of L s)"
        "''Statement parsing failed''" ys] that
    by (simp add: 3)
  from 1 2 3 4 5 6 show ?thesis by blast
qed

theorem parse_sql_dump_records_failures_witness:
  "parse_sql_dump failing_routines ''x'' init_parser =
     [(''tables'', Dicts []), (''relationships'', Dicts []), (''constraints'', Dicts []),
      (''indexes'', Dicts [''CREATE INDEX i ON t (a);'']), (''sequences'', Dicts []),
      (''enums'', Dicts []),
      (''parsing_errors'', Errors
         [\<lparr>pe_error = ''no table'', pe_statement = Some ''CREATE TABLE t (;'',
           pe_context = ''CREATE TABLE parsing failed''\<rparr>,
          \<lparr>pe_error = ''no alter'', pe_statement = Some ''ALTER TABLE t ADD;'',
           pe_context = ''Statement parsing failed''\<rparr>])] \<and>
   create_table_matches failing_routines ''x'' = [] @ ''CREATE TABLE t (;'' # [] \<and>
   fst (match_parser failing_routines ''CREATE TABLE t (;''
          (lists_after (match_parser failing_routines) (collected init_parser) [])) = Some ''no table'' \<and>
   sqlparse_parse failing_routines ''x'' = Inr ([] @ '' ALTER TABLE t ADD;'' # [''CREATE INDEX i ON t (a);'']) \<and>
   fst (statement_parser failing_routines '' ALTER TABLE t ADD;''
          (lists_after (statement_parser failing_routines)
             (lists_after (match_parser failing_routines) (collected init_parser)
                (create_table_matches failing_routines ''x'')) [])) = Some ''no alter''"
  using parse_sql_dump_records_failures [of failing_routines "''x''" init_parser
      "[]" "''CREATE TABLE t (;''" "[]" "''no table''"
      "[]" "'' ALTER TABLE t ADD;''" "[''CREATE INDEX i ON t (a);'']" "''no alter''"]
  by (simp add: parser_eval failing_routines_def match_parser_def statement_parser_def kind_of_def
        lists_after_def)

text \<open>
  Claim C3 as it stands fails when segmenting the whole text throws: the two statements
  of the text are not parsed, though their routine would take them, and the one record
  written has no excerpt.
\<close>

theorem whole_text_failure_skips_statements:
  "parse_sql_dump aborting_routines two_indexes init_parser =
     [(''tables'', Dicts []), (''relationships'', Dicts []), (''constraints'', Dicts []),
      (''indexes'', Dicts []), (''sequences'', Dicts []), (''enums'', Dicts []),
      (''parsing_errors'', Errors
         [\<lparr>pe_error = ''Maximum grouping depth exceeded'', pe_statement = None,
           pe_context = ''SQL parsing failed''\<rparr>])] \<and>
   lists_of (parse_sql_dump segmenting_routines two_indexes init_parser) =
     [[], [], [], [''CREATE INDEX i ON t (a);'', ''CREATE INDEX j ON t (b);''], [], []]"
  by (simp add: parser_eval aborting_routines_def segmenting_routines_def two_indexes_def
        lists_of_def)

end
